theory Spec2Isabelle
  imports Complex_Main "HOL-Library.List_Lexorder" "HOL-Library.AList"
begin

section \<open>Python strings and the Unicode tables\<close>

text \<open>
  A Python \<open>str\<close> is a sequence of Unicode code points, so a string is modelled as a list
  of code points (natural numbers), not as a list of bytes: the CJK rule of the file-name
  checks looks at code points above 255.
\<close>

type_synonym ustring = "nat list"

definition ustr :: "string \<Rightarrow> ustring" where
  "ustr s = map of_char s"

text \<open>
  \<open>str.isdigit\<close>, \<open>str.isalpha\<close>, \<open>str.strip\<close>, \<open>int\<close> and \<open>str.lower\<close> read the Unicode
  character database of the Python interpreter, which is not part of the repository. The
  tables are a parameter of the model:
  \<^item> \<open>cp_isdigit c\<close>: \<open>chr(c).isdigit()\<close>;
  \<^item> \<open>cp_isalpha c\<close>: \<open>chr(c).isalpha()\<close>;
  \<^item> \<open>cp_isspace c\<close>: \<open>chr(c).isspace()\<close>;
  \<^item> \<open>cp_decimal c\<close>: the value of \<open>c\<close> as a decimal digit, when \<open>int\<close> accepts it
    (there are characters with \<open>isdigit\<close> that \<open>int\<close> refuses, such as superscript digits);
  \<^item> \<open>py_lower s\<close>: \<open>s.lower()\<close>.
\<close>

record unicode_db =
  cp_isdigit :: "nat \<Rightarrow> bool"
  cp_isalpha :: "nat \<Rightarrow> bool"
  cp_isspace :: "nat \<Rightarrow> bool"
  cp_decimal :: "nat \<Rightarrow> nat option"
  py_lower :: "ustring \<Rightarrow> ustring"

definition is_ascii :: "ustring \<Rightarrow> bool" where
  "is_ascii s = list_all (\<lambda>c. c < 128) s"

definition ascii_isdigit :: "nat \<Rightarrow> bool" where
  "ascii_isdigit c = (48 \<le> c \<and> c \<le> 57)"

definition ascii_isalpha :: "nat \<Rightarrow> bool" where
  "ascii_isalpha c = ((65 \<le> c \<and> c \<le> 90) \<or> (97 \<le> c \<and> c \<le> 122))"

definition ascii_isspace :: "nat \<Rightarrow> bool" where
  "ascii_isspace c = ((9 \<le> c \<and> c \<le> 13) \<or> (28 \<le> c \<and> c \<le> 32))"

definition ascii_decimal :: "nat \<Rightarrow> nat option" where
  "ascii_decimal c = (if ascii_isdigit c then Some (c - 48) else None)"

definition ascii_lower_cp :: "nat \<Rightarrow> nat" where
  "ascii_lower_cp c = (if 65 \<le> c \<and> c \<le> 90 then c + 32 else c)"

text \<open>The tables restricted to ASCII: an instance used to run the model on ASCII inputs.\<close>

definition ascii_db :: unicode_db where
  "ascii_db = \<lparr> cp_isdigit = ascii_isdigit, cp_isalpha = ascii_isalpha,
                cp_isspace = ascii_isspace, cp_decimal = ascii_decimal,
                py_lower = map ascii_lower_cp \<rparr>"

text \<open>What every Python interpreter's tables say about the ASCII range.\<close>

definition ascii_compatible :: "unicode_db \<Rightarrow> bool" where
  "ascii_compatible db \<longleftrightarrow>
     (\<forall>c. c < 128 \<longrightarrow> cp_isdigit db c = ascii_isdigit c) \<and>
     (\<forall>c. c < 128 \<longrightarrow> cp_isalpha db c = ascii_isalpha c) \<and>
     (\<forall>c. c < 128 \<longrightarrow> cp_isspace db c = ascii_isspace c) \<and>
     (\<forall>c. c < 128 \<longrightarrow> cp_decimal db c = ascii_decimal c) \<and>
     (\<forall>s. is_ascii s \<longrightarrow> py_lower db s = map ascii_lower_cp s)"

section \<open>Exceptions\<close>

text \<open>The Python exceptions the modelled functions can raise, each with its message.\<close>

datatype exc =
    ValueError ustring
  | NameError ustring
  | AttributeError ustring
  | PermissionError ustring
  | OSError ustring
  | RuntimeError ustring

fun str_exc :: "exc \<Rightarrow> ustring" where
  "str_exc (ValueError m) = m"
| "str_exc (NameError m) = m"
| "str_exc (AttributeError m) = m"
| "str_exc (PermissionError m) = m"
| "str_exc (OSError m) = m"
| "str_exc (RuntimeError m) = m"

section \<open>File-name rules (pdf\_batch\_translator.py)\<close>

text \<open>\<open>CJK_PATTERN\<close>: the code points U+3400..U+4DBF, U+4E00..U+9FFF and U+F900..U+FAFF.\<close>

definition cjk_pattern :: "nat \<Rightarrow> bool" where
  "cjk_pattern c =
     ((0x3400 \<le> c \<and> c \<le> 0x4dbf) \<or> (0x4e00 \<le> c \<and> c \<le> 0x9fff) \<or> (0xf900 \<le> c \<and> c \<le> 0xfaff))"

definition contains_chinese_characters :: "ustring \<Rightarrow> bool" where
  "contains_chinese_characters text = list_ex cjk_pattern text"

text \<open>\<open>s.split(sep)\<close> for a one-character separator: never returns the empty list.\<close>

fun split_on :: "nat \<Rightarrow> ustring \<Rightarrow> ustring list" where
  "split_on sep [] = [[]]"
| "split_on sep (c # cs) =
     (if c = sep then [] # split_on sep cs
      else (case split_on sep cs of [] \<Rightarrow> [[c]] | p # ps \<Rightarrow> (c # p) # ps))"

text \<open>\<open>sep.join(parts)\<close>\<close>

fun join :: "ustring \<Rightarrow> ustring list \<Rightarrow> ustring" where
  "join sep [] = []"
| "join sep [p] = p"
| "join sep (p # q # ps) = p @ sep @ join sep (q # ps)"

text \<open>\<open>s.isdigit()\<close>: every character is a digit and there is at least one.\<close>

definition str_isdigit :: "unicode_db \<Rightarrow> ustring \<Rightarrow> bool" where
  "str_isdigit db s = (s \<noteq> [] \<and> list_all (cp_isdigit db) s)"

text \<open>
  \<open>int(s)\<close> on a string of digit characters (the only strings the code passes to it):
  the decimal value when every character is a decimal digit, \<open>ValueError\<close> otherwise.
\<close>

fun decimal_value :: "unicode_db \<Rightarrow> nat \<Rightarrow> ustring \<Rightarrow> nat option" where
  "decimal_value db acc [] = Some acc"
| "decimal_value db acc (c # cs) =
     (case cp_decimal db c of None \<Rightarrow> None | Some d \<Rightarrow> decimal_value db (10 * acc + d) cs)"

definition py_int :: "unicode_db \<Rightarrow> ustring \<Rightarrow> exc + nat" where
  "py_int db s =
     (if s = [] then Inl (ValueError (ustr ''invalid literal for int()''))
      else (case decimal_value db 0 s of
              None \<Rightarrow> Inl (ValueError (ustr ''invalid literal for int()''))
            | Some v \<Rightarrow> Inr v))"

definition dash :: nat where
  "dash = 45"

text \<open>
  \<open>is_normalized_name(stem)\<close>. The year test is
  \<open>not (year.isdigit() and 1900 <= int(year) <= 2099 and len(year) == 4)\<close>: \<open>int\<close> is
  only reached when \<open>year.isdigit()\<close> holds, and its \<open>ValueError\<close> is not caught.
\<close>

definition is_normalized_name :: "unicode_db \<Rightarrow> ustring \<Rightarrow> exc + bool" where
  "is_normalized_name db stem =
     (if contains_chinese_characters stem then Inr False
      else
        let parts = split_on dash stem in
        if length parts < 3 then Inr False
        else
          let author = parts ! 0; year = parts ! 1; title_rest = join [dash] (drop 2 parts) in
          if \<not> str_isdigit db year then Inr False
          else (case py_int db year of
                  Inl e \<Rightarrow> Inl e
                | Inr y \<Rightarrow>
                    if \<not> (1900 \<le> y \<and> y \<le> 2099 \<and> length year = 4) then Inr False
                    else if list_ex (cp_isdigit db) author then Inr False
                    else if \<not> list_ex (cp_isalpha db) author then Inr False
                    else if \<not> list_ex (cp_isalpha db) title_rest then Inr False
                    else Inr True))"

text \<open>
  The name-pattern rule in the words of the specification: no CJK character, at least
  three parts, an author without digit and with a letter, a year of exactly four digits
  with a value in 1900..2099, a title with a letter.
\<close>

definition name_pattern_rule :: "unicode_db \<Rightarrow> ustring \<Rightarrow> bool" where
  "name_pattern_rule db stem =
     (\<not> list_ex cjk_pattern stem \<and>
      3 \<le> length (split_on dash stem) \<and>
      \<not> list_ex (cp_isdigit db) (split_on dash stem ! 0) \<and>
      list_ex (cp_isalpha db) (split_on dash stem ! 0) \<and>
      length (split_on dash stem ! 1) = 4 \<and>
      list_all (cp_isdigit db) (split_on dash stem ! 1) \<and>
      (case decimal_value db 0 (split_on dash stem ! 1) of
         None \<Rightarrow> False | Some y \<Rightarrow> 1900 \<le> y \<and> y \<le> 2099) \<and>
      list_ex (cp_isalpha db) (join [dash] (drop 2 (split_on dash stem))))"





section \<open>Failure ledger (pdf\_batch\_translator.py)\<close>

text \<open>
  The ledger maps \<open>str(pdf_path)\<close> to a failure count. A Python \<open>dict\<close> keeps insertion
  order and has one entry per key, so it is an association list changed with
  \<open>AList.update\<close> (overwrite in place, or append). The counts come from \<open>int\<close> of a digit
  string and from \<open>+ 1\<close>, so they are natural numbers.
\<close>

type_synonym counts = "(ustring \<times> nat) list"

text \<open>\<open>counts.get(key, default)\<close>\<close>

definition counts_get :: "counts \<Rightarrow> ustring \<Rightarrow> nat \<Rightarrow> nat" where
  "counts_get counts key dflt = (case map_of counts key of None \<Rightarrow> dflt | Some c \<Rightarrow> c)"

text \<open>\<open>str(n)\<close> for a non-negative integer: its decimal digits.\<close>

fun str_nat :: "nat \<Rightarrow> ustring" where
  "str_nat n = (if n < 10 then [48 + n] else str_nat (n div 10) @ [48 + n mod 10])"

declare str_nat.simps [simp del]

text \<open>
  The ledger file: its text if the file exists (what the UTF-8 decoder makes of its
  bytes, before the translation of line ends), and whether \<open>open(log_file, "w")\<close>
  succeeds. A refused open leaves the file as it is.
\<close>

record ledger_file =
  ledger_text :: "ustring option"
  ledger_writable :: bool

text \<open>
  Reading a text file translates \<open>\r\n\<close> and \<open>\r\<close> to \<open>\n\<close> (universal newlines), and
  iterating over it yields the lines with their terminator.
\<close>

fun universal_newlines :: "ustring \<Rightarrow> ustring" where
  "universal_newlines [] = []"
| "universal_newlines [c] = (if c = 13 then [10] else [c])"
| "universal_newlines (c # d # cs) =
     (if c = 13 \<and> d = 10 then 10 # universal_newlines cs
      else if c = 13 then 10 # universal_newlines (d # cs)
      else c # universal_newlines (d # cs))"

fun py_lines :: "ustring \<Rightarrow> ustring list" where
  "py_lines [] = []"
| "py_lines (c # cs) =
     (if c = 10 then [10] # py_lines cs
      else (case py_lines cs of [] \<Rightarrow> [[c]] | l # ls \<Rightarrow> (c # l) # ls))"

text \<open>\<open>s.strip()\<close>\<close>

definition py_strip :: "unicode_db \<Rightarrow> ustring \<Rightarrow> ustring" where
  "py_strip db s = rev (dropWhile (cp_isspace db) (rev (dropWhile (cp_isspace db) s)))"

text \<open>\<open>s.rsplit(sep, 1)\<close> for a one-character separator: split at the last separator.\<close>

definition rsplit1 :: "nat \<Rightarrow> ustring \<Rightarrow> ustring list" where
  "rsplit1 sep s =
     (if sep \<in> set s
      then [rev (tl (dropWhile (\<lambda>c. c \<noteq> sep) (rev s))), rev (takeWhile (\<lambda>c. c \<noteq> sep) (rev s))]
      else [s])"

definition comma :: nat where
  "comma = 44"

text \<open>
  The loop of \<open>read_failure_counts\<close>. The whole loop sits in one \<open>try\<close>: an exception
  (\<open>int\<close> refusing a digit string) ends the reading and keeps the counts read so far.
\<close>

fun read_lines :: "unicode_db \<Rightarrow> ustring list \<Rightarrow> counts \<Rightarrow> counts" where
  "read_lines db [] counts = counts"
| "read_lines db (line # rest) counts =
     (let parts = rsplit1 comma (py_strip db line) in
      if length parts = 2 \<and> str_isdigit db (parts ! 1)
      then (case py_int db (parts ! 1) of
              Inl e \<Rightarrow> counts
            | Inr n \<Rightarrow> read_lines db rest (AList.update (parts ! 0) n counts))
      else read_lines db rest counts)"

definition read_failure_counts :: "unicode_db \<Rightarrow> ledger_file \<Rightarrow> counts" where
  "read_failure_counts db f =
     (case ledger_text f of
        None \<Rightarrow> []
      | Some text \<Rightarrow> read_lines db (py_lines (universal_newlines text)) [])"

text \<open>\<open>f"{p},{c}\n"\<close>\<close>

definition ledger_line :: "ustring \<times> nat \<Rightarrow> ustring" where
  "ledger_line e = fst e @ [comma] @ str_nat (snd e) @ [10]"

text \<open>
  The file is opened with \<open>encoding="utf-8"\<close>. \<open>f.write(line)\<close> encodes the line at once
  and raises \<open>UnicodeEncodeError\<close> when it holds a surrogate code point (U+D800..U+DFFF; the
  text of a path has them where the file name is not valid Unicode), which UTF-8 cannot
  encode; every other code point is encoded.
\<close>

definition utf8_encodable :: "ustring \<Rightarrow> bool" where
  "utf8_encodable s = list_all (\<lambda>c. \<not> (0xd800 \<le> c \<and> c \<le> 0xdfff)) s"

text \<open>
  The loop \<open>for p, c in sorted(counts.items()): f.write(...)\<close> inside \<open>with open(...)\<close>:
  a line that cannot be encoded ends the loop with an exception, and the file, closed by
  the \<open>with\<close> statement, keeps the lines written before it. The result is the text of the
  file after the loop. (Where the platform writes \<open>\r\n\<close> for \<open>\n\<close>, the reader's universal
  newlines give the same lines back, up to empty lines, which the reader skips; the model
  writes \<open>\n\<close>.)
\<close>

fun write_lines :: "ustring list \<Rightarrow> ustring \<Rightarrow> ustring" where
  "write_lines [] written = written"
| "write_lines (line # rest) written =
     (if utf8_encodable line then write_lines rest (written @ line) else written)"

text \<open>
  \<open>increment_and_write_failure(pdf_path, counts, log_file)\<close>, with \<open>key = str(pdf_path)\<close>.
  \<open>sorted(counts.items())\<close> orders the entries by key (keys are distinct), strings being
  compared code point by code point. \<open>open(log_file, "w")\<close> empties the file; an exception
  of \<open>open\<close> or of \<open>f.write\<close> is caught and reported on the console. Returns the changed
  dictionary and the file.
\<close>

definition increment_and_write_failure ::
  "ustring \<Rightarrow> counts \<Rightarrow> ledger_file \<Rightarrow> counts \<times> ledger_file" where
  "increment_and_write_failure key counts log_file =
     (let counts' = AList.update key (counts_get counts key 0 + 1) counts in
      if ledger_writable log_file
      then (counts', log_file\<lparr>ledger_text := Some (write_lines (map ledger_line (sort_key fst counts')) [])\<rparr>)
      else (counts', log_file))"

text \<open>
  One process run that fails on the document: the ledger is read at start-up (\<open>main\<close>),
  and the failure is recorded.
\<close>

definition failing_run :: "unicode_db \<Rightarrow> ustring \<Rightarrow> ledger_file \<Rightarrow> ledger_file" where
  "failing_run db key f = snd (increment_and_write_failure key (read_failure_counts db f) f)"

section \<open>PDF documents as PyMuPDF shows them\<close>

text \<open>
  PyMuPDF (\<open>fitz\<close>) is a library outside the repository. The model keeps what the
  repository's code reads and writes through it: the page boxes, what is drawn on a page,
  the annotations, and the embedded files of a document. Lengths are Python floats in the
  source; the model computes with real numbers, so rounding of the floating-point
  operations is not represented.
\<close>

record rect =
  x0 :: real
  y0 :: real
  x1 :: real
  y1 :: real

definition Rect :: "real \<Rightarrow> real \<Rightarrow> real \<Rightarrow> real \<Rightarrow> rect" where
  "Rect a b c d = \<lparr> x0 = a, y0 = b, x1 = c, y1 = d \<rparr>"

definition rect_width :: "rect \<Rightarrow> real" where
  "rect_width r = x1 r - x0 r"

definition rect_height :: "rect \<Rightarrow> real" where
  "rect_height r = y1 r - y0 r"

definition rect_nonempty :: "rect \<Rightarrow> bool" where
  "rect_nonempty r = (x0 r < x1 r \<and> y0 r < y1 r)"

definition rect_inside :: "rect \<Rightarrow> rect \<Rightarrow> bool" where
  "rect_inside r mb = (x0 mb \<le> x0 r \<and> x1 r \<le> x1 mb \<and> y0 mb \<le> y0 r \<and> y1 r \<le> y1 mb)"

text \<open>
  What is drawn on a page: the page's own content, and pages of other documents shown
  inside a target rectangle (\<open>show_pdf_page\<close>).
\<close>

datatype drawing = Own nat | Shown rect "drawing list"

text \<open>An annotation: its rectangle and its text; a file attachment pinned at a point.\<close>

datatype annot = Markup rect ustring | FileAttachment real real ustring

record page =
  mediabox :: rect
  cropbox :: rect
  trimbox :: rect
  bleedbox :: rect
  drawings :: "drawing list"
  annots :: "annot list"

text \<open>\<open>page.rect\<close>: the visible page with its top-left corner at the origin (rotation is not modelled).\<close>

definition page_rect :: "page \<Rightarrow> rect" where
  "page_rect p = Rect 0 0 (rect_width (cropbox p)) (rect_height (cropbox p))"

text \<open>
  The box setters of PyMuPDF. \<open>set_mediabox\<close> refuses an empty rectangle and resets the
  other boxes to the new media box; the others refuse a rectangle that is empty or not
  inside the media box.
\<close>

definition bad_rect :: exc where
  "bad_rect = ValueError (ustr ''rect is infinite or empty'')"

definition set_mediabox :: "rect \<Rightarrow> page \<Rightarrow> exc + page" where
  "set_mediabox r p =
     (if rect_nonempty r
      then Inr (p\<lparr>mediabox := r, cropbox := r, trimbox := r, bleedbox := r\<rparr>)
      else Inl bad_rect)"

definition set_cropbox :: "rect \<Rightarrow> page \<Rightarrow> exc + page" where
  "set_cropbox r p =
     (if rect_nonempty r \<and> rect_inside r (mediabox p) then Inr (p\<lparr>cropbox := r\<rparr>)
      else Inl (ValueError (ustr ''CropBox not in MediaBox'')))"

definition set_trimbox :: "rect \<Rightarrow> page \<Rightarrow> exc + page" where
  "set_trimbox r p =
     (if rect_nonempty r \<and> rect_inside r (mediabox p) then Inr (p\<lparr>trimbox := r\<rparr>)
      else Inl (ValueError (ustr ''TrimBox not in MediaBox'')))"

definition set_bleedbox :: "rect \<Rightarrow> page \<Rightarrow> exc + page" where
  "set_bleedbox r p =
     (if rect_nonempty r \<and> rect_inside r (mediabox p) then Inr (p\<lparr>bleedbox := r\<rparr>)
      else Inl (ValueError (ustr ''BleedBox not in MediaBox'')))"

text \<open>\<open>page.show_pdf_page(rect, src, pno)\<close>: draws page \<open>pno\<close> of \<open>src\<close> into \<open>rect\<close>.\<close>

definition show_pdf_page :: "rect \<Rightarrow> page list \<Rightarrow> nat \<Rightarrow> page \<Rightarrow> exc + page" where
  "show_pdf_page r src pno p =
     (if \<not> rect_nonempty r then Inl bad_rect
      else if length src \<le> pno then Inl (ValueError (ustr ''bad page number(s)''))
      else Inr (p\<lparr>drawings := drawings p @ [Shown r (drawings (src ! pno))]\<rparr>))"

section \<open>Embedded metadata\<close>

text \<open>The values \<open>json.loads\<close> returns and \<open>json.dumps\<close> accepts; a Python \<open>dict\<close> is a list of entries with distinct keys.\<close>

datatype json =
    JNull
  | JBool bool
  | JNum real
  | JStr ustring
  | JArr "json list"
  | JObj "(ustring \<times> json) list"

text \<open>
  The bytes of an embedded file. \<open>JsonText j\<close> is \<open>json.dumps(j, ...).encode("utf-8")\<close>,
  which \<open>json.loads(content.decode("utf-8"))\<close> reads back as \<open>j\<close>; \<open>OtherBytes b\<close> is a
  content that is not the UTF-8 encoding of a JSON text (\<open>b = []\<close>: the empty content).
\<close>

datatype payload = JsonText json | OtherBytes "nat list"

record pdf_doc =
  pages :: "page list"
  embfiles :: "(ustring \<times> payload) list"
  can_save_incr :: bool

text \<open>The PDF files on disk, by path.\<close>

type_synonym pdf_fs = "ustring \<Rightarrow> pdf_doc option"

definition fitz_open :: "pdf_fs \<Rightarrow> ustring \<Rightarrow> exc + pdf_doc" where
  "fitz_open fs path =
     (case fs path of None \<Rightarrow> Inl (RuntimeError (ustr ''cannot open file'')) | Some d \<Rightarrow> Inr d)"

definition meta_name :: ustring where
  "meta_name = ustr ''pdf2zh.meta.json''"

definition embfile_names :: "pdf_doc \<Rightarrow> ustring list" where
  "embfile_names doc = map fst (embfiles doc)"

text \<open>\<open>doc.embfile_add(name, content)\<close>: PyMuPDF refuses a name that already exists.\<close>

definition embfile_add :: "ustring \<Rightarrow> payload \<Rightarrow> pdf_doc \<Rightarrow> exc + pdf_doc" where
  "embfile_add nm content doc =
     (if nm \<in> set (embfile_names doc) then Inl (ValueError (ustr ''Name already exists.''))
      else Inr (doc\<lparr>embfiles := embfiles doc @ [(nm, content)]\<rparr>))"

text \<open>\<open>doc.saveIncr()\<close>: writes the changed document back to its file, when that file allows it.\<close>

definition saveIncr :: "pdf_fs \<Rightarrow> ustring \<Rightarrow> pdf_doc \<Rightarrow> exc + pdf_fs" where
  "saveIncr fs path doc =
     (if can_save_incr doc then Inr (fs(path \<mapsto> doc))
      else Inl (ValueError (ustr ''incremental save not possible'')))"

text \<open>How often a name occurs among the embedded files of the file at a path.\<close>

definition attachment_count :: "pdf_fs \<Rightarrow> ustring \<Rightarrow> ustring \<Rightarrow> nat" where
  "attachment_count fs path nm =
     (case fs path of None \<Rightarrow> 0 | Some d \<Rightarrow> length (filter (\<lambda>n. n = nm) (embfile_names d)))"

subsection \<open>The three writers\<close>

text \<open>
  \<open>create_translation_metadata(status, source_sizes, result_sizes, gap_pt)\<close>
  (pdf\_batch\_translator.py). The clock, \<open>TRANSLATION_SERVICE\<close> and \<open>SILICONFLOW_MODEL\<close>
  are parameters. An empty \<open>result_sizes\<close> is falsy, like the default \<open>None\<close>.
\<close>

definition create_translation_metadata ::
  "ustring \<Rightarrow> ustring \<Rightarrow> json \<Rightarrow> ustring \<Rightarrow> json list \<Rightarrow> json list \<Rightarrow> real \<Rightarrow> json" where
  "create_translation_metadata now translation_service siliconflow_model status
       source_sizes result_sizes gap_pt =
     JObj ([(ustr ''pdf2zh.status'', JStr status), (ustr ''pdf2zh.run_time_utc'', JStr now)] @
       (if status = ustr ''translated''
        then (if translation_service = ustr ''siliconflow_free''
              then [(ustr ''pdf2zh.model'', JStr (ustr ''Qwen/Qwen2.5-7B-Instruct''))]
              else if translation_service = ustr ''siliconflow_pro''
              then [(ustr ''pdf2zh.model'', siliconflow_model)]
              else []) @
             [(ustr ''pdf2zh.source_page_sizes_pt'', JArr source_sizes),
              (ustr ''pdf2zh.gap_pt'', JNum gap_pt)] @
             (if result_sizes \<noteq> [] then [(ustr ''pdf2zh.result_page_sizes_pt'', JArr result_sizes)]
              else [])
        else []))"

text \<open>\<open>build_translated_meta(source_sizes, result_sizes, model_name, gap_pt)\<close> (pdf\_pair\_metadata\_manager.py)\<close>

definition build_translated_meta ::
  "ustring \<Rightarrow> json list \<Rightarrow> json list \<Rightarrow> ustring \<Rightarrow> real \<Rightarrow> json" where
  "build_translated_meta now source_sizes result_sizes model_name gap_pt =
     JObj [(ustr ''pdf2zh'',
            JObj [(ustr ''status'', JStr (ustr ''translated'')),
                  (ustr ''run_time_utc'', JStr now),
                  (ustr ''model'', JStr model_name),
                  (ustr ''gap_pt'', JNum gap_pt),
                  (ustr ''source_page_sizes_pt'', JArr source_sizes),
                  (ustr ''result_page_sizes_pt'', JArr result_sizes)])]"

text \<open>\<open>create_metadata(status, model, page_sizes)\<close> (pdf\_orphan\_metadata\_manager.py)\<close>

definition create_metadata :: "ustring \<Rightarrow> ustring \<Rightarrow> ustring \<Rightarrow> json list \<Rightarrow> json" where
  "create_metadata now status model page_sizes =
     JObj [(ustr ''pdf2zh'',
            JObj ([(ustr ''status'', JStr status),
                   (ustr ''run_time_utc'', JStr now),
                   (ustr ''model'', JStr model)] @
                  (if page_sizes \<noteq> [] then [(ustr ''page_sizes_pt'', JArr page_sizes)] else [])))]"

subsection \<open>Embedding\<close>

text \<open>
  \<open>embed_metadata_attachment(pdf_path, metadata)\<close> (pdf\_orphan\_metadata\_manager.py).
  Returns the pair the source returns and the files on disk. \<open>doc.set_metadata({"af": ...})\<close>
  changes nothing the model keeps, and its failure is swallowed.
\<close>

definition embed_metadata_attachment ::
  "pdf_fs \<Rightarrow> ustring \<Rightarrow> json \<Rightarrow> (bool \<times> ustring) \<times> pdf_fs" where
  "embed_metadata_attachment fs pdf_path metadata =
     (case fitz_open fs pdf_path of
        Inl e \<Rightarrow> ((False, str_exc e), fs)
      | Inr doc \<Rightarrow>
          if meta_name \<in> set (embfile_names doc) then ((True, ustr ''already_exists''), fs)
          else (case embfile_add meta_name (JsonText metadata) doc of
                  Inl e \<Rightarrow> ((False, str_exc e), fs)
                | Inr doc' \<Rightarrow>
                    (case saveIncr fs pdf_path doc' of
                       Inl e \<Rightarrow> ((False, str_exc e), fs)
                     | Inr fs' \<Rightarrow> ((True, ustr ''success''), fs'))))"

text \<open>\<open>page.add_file_annot(point, content, filename, ...)\<close> with \<open>set_info\<close> and \<open>update\<close>.\<close>

definition add_file_annot :: "real \<Rightarrow> real \<Rightarrow> ustring \<Rightarrow> page \<Rightarrow> page" where
  "add_file_annot x y filename p = p\<lparr>annots := annots p @ [FileAttachment x y filename]\<rparr>"

text \<open>
  \<open>embed_original_file_attachment(pdf_path, original_pdf, metadata)\<close>
  (pdf\_batch\_translator.py); \<open>original_name\<close> is \<open>original_pdf.name\<close>. There is no test
  for an attachment that is already there: the first statement is \<open>embfile_add\<close>.
\<close>

definition embed_original_file_attachment ::
  "pdf_fs \<Rightarrow> ustring \<Rightarrow> ustring \<Rightarrow> ustring \<Rightarrow> json \<Rightarrow> (bool \<times> ustring) \<times> pdf_fs" where
  "embed_original_file_attachment fs pdf_path original_pdf original_name metadata =
     (case fitz_open fs pdf_path of
        Inl e \<Rightarrow> ((False, str_exc e), fs)
      | Inr doc \<Rightarrow>
          (case embfile_add meta_name (JsonText metadata) doc of
             Inl e \<Rightarrow> ((False, str_exc e), fs)
           | Inr doc1 \<Rightarrow>
               (case (if pages doc1 = [] then Inr doc1
                      else (case fs original_pdf of
                              None \<Rightarrow> Inl (OSError (ustr ''No such file or directory''))
                            | Some original \<Rightarrow>
                                Inr (doc1\<lparr>pages := (pages doc1)
                                       [0 := add_file_annot 8 8 original_name (pages doc1 ! 0)]\<rparr>))) of
                  Inl e \<Rightarrow> ((False, str_exc e), fs)
                | Inr doc2 \<Rightarrow>
                    (case saveIncr fs pdf_path doc2 of
                       Inl e \<Rightarrow> ((False, str_exc e), fs)
                     | Inr fs' \<Rightarrow> ((True, []), fs')))))"

subsection \<open>Reading the status\<close>

text \<open>The second component of \<open>check_translation_metadata_status\<close>, one constructor for each text the source builds.\<close>

datatype meta_info =
    NoMetadataFound
  | MetadataEmpty
  | AlreadyTranslated
  | MarkedUntranslated
  | UnknownStatus json
  | MetadataParseError
  | MetadataCheckFailed exc

text \<open>\<open>metadata.get(key, default)\<close> on the decoded value: only a \<open>dict\<close> has \<open>get\<close>.\<close>

definition json_get :: "json \<Rightarrow> ustring \<Rightarrow> json \<Rightarrow> exc + json" where
  "json_get j key dflt =
     (case j of
        JObj kvs \<Rightarrow> Inr (case map_of kvs key of None \<Rightarrow> dflt | Some v \<Rightarrow> v)
      | _ \<Rightarrow> Inl (AttributeError (ustr ''object has no attribute get'')))"

text \<open>\<open>check_translation_metadata_status(pdf_path)\<close> (pdf\_batch\_translator.py)\<close>

definition check_translation_metadata_status :: "pdf_fs \<Rightarrow> ustring \<Rightarrow> bool \<times> meta_info" where
  "check_translation_metadata_status fs pdf_path =
     (case fitz_open fs pdf_path of
        Inl e \<Rightarrow> (False, MetadataCheckFailed e)
      | Inr doc \<Rightarrow>
          (case map_of (embfiles doc) meta_name of
             None \<Rightarrow> (False, NoMetadataFound)
           | Some (OtherBytes b) \<Rightarrow>
               if b = [] then (False, MetadataEmpty) else (False, MetadataParseError)
           | Some (JsonText metadata) \<Rightarrow>
               (case json_get metadata (ustr ''pdf2zh.status'') (JStr []) of
                  Inl e \<Rightarrow> (False, MetadataCheckFailed e)
                | Inr status \<Rightarrow>
                    if status = JStr (ustr ''translated'') then (True, AlreadyTranslated)
                    else if status = JStr (ustr ''untranslated'') then (False, MarkedUntranslated)
                    else (False, UnknownStatus status))))"

section \<open>The exclusion chain (pdf\_batch\_translator.py)\<close>

text \<open>
  A \<open>pathlib.Path\<close>: the text of its parent directory up to and including the last
  separator, and its final component. \<open>str(path)\<close> is the two put together.
\<close>

record pdf_path =
  path_parent :: ustring
  path_name :: ustring

definition path_str :: "pdf_path \<Rightarrow> ustring" where
  "path_str p = path_parent p @ path_name p"

definition with_name :: "pdf_path \<Rightarrow> ustring \<Rightarrow> pdf_path" where
  "with_name p n = p\<lparr>path_name := n\<rparr>"

text \<open>\<open>path.stem\<close>: the name without its last suffix; a dot at the start or at the end of the name starts no suffix.\<close>

definition path_stem :: "ustring \<Rightarrow> ustring" where
  "path_stem n =
     (let i = length n - 1 - length (takeWhile (\<lambda>c. c \<noteq> 46) (rev n)) in
      if 46 \<in> set n \<and> 0 < i \<and> i < length n - 1 then take i n else n)"

text \<open>\<open>s.startswith(p)\<close>, \<open>s.endswith(p)\<close> and \<open>p in s\<close>\<close>

fun starts_with :: "ustring \<Rightarrow> ustring \<Rightarrow> bool" where
  "starts_with s [] = True"
| "starts_with [] (p # ps) = False"
| "starts_with (c # cs) (p # ps) = (c = p \<and> starts_with cs ps)"

definition ends_with :: "ustring \<Rightarrow> ustring \<Rightarrow> bool" where
  "ends_with s p = starts_with (rev s) (rev p)"

fun contains_str :: "ustring \<Rightarrow> ustring \<Rightarrow> bool" where
  "contains_str [] p = (p = [])"
| "contains_str (c # cs) p = (starts_with (c # cs) p \<or> contains_str cs p)"

text \<open>\<open>contains_exclusion_keywords(filename, keywords)\<close>\<close>

definition contains_exclusion_keywords :: "unicode_db \<Rightarrow> ustring \<Rightarrow> ustring list \<Rightarrow> bool" where
  "contains_exclusion_keywords db filename keywords =
     (if keywords = [] then False
      else list_ex (\<lambda>keyword. contains_str (py_lower db filename) keyword) keywords)"

text \<open>The module-level configuration constants the chain reads, and whether the import of the language detector succeeded (\<open>_HAS_VLM_DETECT\<close>).\<close>

record config =
  skip_translated_by_metadata :: bool
  skip_max_file_size :: bool
  skip_max_pages :: bool
  skip_filename_format_check :: bool
  skip_filename_contains_chinese :: bool
  skip_contains_skip_keywords :: bool
  skip_chinese_pdf_vlm :: bool
  max_size_bytes :: int
  max_pages :: int
  has_vlm_detect :: bool

text \<open>What \<open>detect_pdf_language_via_vlm\<close> returns: the count of pages labelled Chinese, the count of the others, \<open>total_pages\<close>.\<close>

record vlm_counts =
  zh_count :: nat
  non_zh_count :: nat
  total_pages :: nat

text \<open>
  What the chain observes of a candidate document: the PDF files on disk, the size of the
  candidate (\<open>pdf_path.stat().st_size\<close>; a candidate comes from the directory walk and
  exists), what \<open>PyPDF2\<close> makes of it, whether the sibling \<open>_original.pdf\<close> exists, and what
  the language-labelling collaborator answers.
\<close>

record doc_env =
  pdf_files :: pdf_fs
  st_size :: nat
  pypdf2_pages :: "exc + nat"
  backup_exists :: bool
  vlm_detect :: "exc + vlm_counts"

text \<open>\<open>get_page_count(pdf_path)\<close>: PyMuPDF first, \<open>PyPDF2\<close> when that raises, \<open>None\<close> when both raise.\<close>

definition get_page_count :: "doc_env \<Rightarrow> pdf_path \<Rightarrow> int option" where
  "get_page_count env pdf_path =
     (case fitz_open (pdf_files env) (path_str pdf_path) of
        Inr doc \<Rightarrow> Some (int (length (pages doc)))
      | Inl e \<Rightarrow> (case pypdf2_pages env of Inr n \<Rightarrow> Some (int n) | Inl e' \<Rightarrow> None))"

datatype vlm_info =
    VlmModuleNotAvailable
  | VlmDetectionDisabled
  | VlmDetected nat nat nat
  | VlmDetectionFailed exc

text \<open>\<open>detect_chinese_content_via_vlm(pdf_path)\<close>\<close>

definition detect_chinese_content_via_vlm :: "config \<Rightarrow> doc_env \<Rightarrow> bool \<times> vlm_info" where
  "detect_chinese_content_via_vlm cfg env =
     (if \<not> has_vlm_detect cfg then (False, VlmModuleNotAvailable)
      else if \<not> skip_chinese_pdf_vlm cfg then (False, VlmDetectionDisabled)
      else (case vlm_detect env of
              Inl e \<Rightarrow> (False, VlmDetectionFailed e)
            | Inr result \<Rightarrow>
                (non_zh_count result \<le> zh_count result,
                 VlmDetected (zh_count result) (non_zh_count result) (total_pages result))))"

text \<open>
  The reason of an exclusion, one constructor for each reason text of the source:
  \<open>already_translated_by_metadata:<info>\<close>, \<open>pages_gt_<MAX_PAGES>\<close>, \<open>size_gt_<MAX_SIZE_BYTES>\<close>
  and \<open>chinese_pdf_vlm:<result>\<close> carry a value. \<open>(False, "")\<close> is \<open>None\<close>.
\<close>

datatype reason =
    TooManyFailures
  | IsBackupOriginal
  | IsGeneratedOutput
  | AlreadyTranslatedByMetadata meta_info
  | ContainsExclusionKeywords
  | BackupExists
  | FilenameContainsChinese
  | BadNamePattern
  | PageCountFailed
  | PagesGt int
  | SizeGt int
  | ChinesePdfVlm vlm_info

fun reason_tag :: "reason \<Rightarrow> string" where
  "reason_tag TooManyFailures = ''too_many_failures''"
| "reason_tag IsBackupOriginal = ''is_backup_original''"
| "reason_tag IsGeneratedOutput = ''is_generated_output''"
| "reason_tag (AlreadyTranslatedByMetadata i) = ''already_translated_by_metadata''"
| "reason_tag ContainsExclusionKeywords = ''contains_exclusion_keywords''"
| "reason_tag BackupExists = ''backup_exists''"
| "reason_tag FilenameContainsChinese = ''filename_contains_chinese''"
| "reason_tag BadNamePattern = ''bad_name_pattern''"
| "reason_tag PageCountFailed = ''page_count_failed''"
| "reason_tag (PagesGt n) = ''pages_gt_N''"
| "reason_tag (SizeGt n) = ''size_gt_N''"
| "reason_tag (ChinesePdfVlm i) = ''chinese_pdf_vlm''"

text \<open>
  The result of the chain (an uncaught exception, an exclusion with its reason, or no
  exclusion) together with the numbers of the rules whose test was evaluated, in order.
\<close>

type_synonym verdict = "(exc + reason option) \<times> nat list"

text \<open>
  A rule whose switch is off is not evaluated (\<open>SWITCH and test(...)\<close>); rules 1, 2, 3, 6
  and 9 have no switch. When the chain has got as far as rule \<open>k\<close>, the rules evaluated are
  the enabled ones among \<open>1..k\<close>.
\<close>

definition rule_enabled :: "config \<Rightarrow> nat \<Rightarrow> bool" where
  "rule_enabled cfg k =
     (if k = 4 then skip_translated_by_metadata cfg
      else if k = 5 then skip_contains_skip_keywords cfg
      else if k = 7 then skip_filename_contains_chinese cfg
      else if k = 8 then skip_filename_format_check cfg
      else if k = 10 then skip_max_pages cfg
      else if k = 11 then skip_max_file_size cfg
      else if k = 12 then skip_chinese_pdf_vlm cfg
      else True)"

definition evaluated :: "config \<Rightarrow> nat \<Rightarrow> nat list" where
  "evaluated cfg k = filter (rule_enabled cfg) [1..<Suc k]"

text \<open>
  \<open>should_exclude_from_processing(pdf_path, exclusion_keywords, failure_counts)\<close>.
  The page count is read once, for rules 9 and 10.
\<close>

definition should_exclude_from_processing ::
  "config \<Rightarrow> unicode_db \<Rightarrow> doc_env \<Rightarrow> pdf_path \<Rightarrow> ustring list \<Rightarrow> counts \<Rightarrow> verdict" where
  "should_exclude_from_processing cfg db env pdf_path exclusion_keywords failure_counts =
     (let stem = path_stem (path_name pdf_path);
          size = st_size env;
          lower_name = py_lower db (path_name pdf_path)
      in
      if 3 \<le> counts_get failure_counts (path_str pdf_path) 0
      then (Inr (Some TooManyFailures), evaluated cfg 1)
      else if ends_with lower_name (ustr ''_original.pdf'')
      then (Inr (Some IsBackupOriginal), evaluated cfg 2)
      else if ends_with lower_name (ustr ''.mono.pdf'') \<or> ends_with lower_name (ustr ''.dual.pdf'')
      then (Inr (Some IsGeneratedOutput), evaluated cfg 3)
      else if skip_translated_by_metadata cfg \<and>
              fst (check_translation_metadata_status (pdf_files env) (path_str pdf_path))
      then (Inr (Some (AlreadyTranslatedByMetadata
                  (snd (check_translation_metadata_status (pdf_files env) (path_str pdf_path))))),
            evaluated cfg 4)
      else if skip_contains_skip_keywords cfg \<and>
              contains_exclusion_keywords db (path_name pdf_path) exclusion_keywords
      then (Inr (Some ContainsExclusionKeywords), evaluated cfg 5)
      else if backup_exists env
      then (Inr (Some BackupExists), evaluated cfg 6)
      else if skip_filename_contains_chinese cfg \<and> contains_chinese_characters (path_name pdf_path)
      then (Inr (Some FilenameContainsChinese), evaluated cfg 7)
      else (case (if skip_filename_format_check cfg then is_normalized_name db stem else Inr True) of
              Inl e \<Rightarrow> (Inl e, evaluated cfg 8)
            | Inr ok \<Rightarrow>
                if \<not> ok then (Inr (Some BadNamePattern), evaluated cfg 8)
                else (case get_page_count env pdf_path of
                        None \<Rightarrow> (Inr (Some PageCountFailed), evaluated cfg 9)
                      | Some pgs \<Rightarrow>
                          if skip_max_pages cfg \<and> max_pages cfg < pgs
                          then (Inr (Some (PagesGt (max_pages cfg))), evaluated cfg 10)
                          else if skip_max_file_size cfg \<and> max_size_bytes cfg \<le> int size
                          then (Inr (Some (SizeGt (max_size_bytes cfg))), evaluated cfg 11)
                          else if skip_chinese_pdf_vlm cfg \<and> fst (detect_chinese_content_via_vlm cfg env)
                          then (Inr (Some (ChinesePdfVlm (snd (detect_chinese_content_via_vlm cfg env)))),
                                evaluated cfg 12)
                          else (Inr None, evaluated cfg 12))))"

subsection \<open>The chain as the specification describes it\<close>

text \<open>
  An ordered list of rules, each a tag and the outcome of its test (an exception, a match
  with its reason, or no match), evaluated from the front until the first rule that
  does not answer "no match". The rules are numbered from 1.
\<close>

type_synonym rule = "string \<times> (exc + reason option)"

fun first_match :: "rule list \<Rightarrow> nat \<Rightarrow> verdict" where
  "first_match [] k = (Inr None, [])"
| "first_match ((tag, outcome) # rules) k =
     (case outcome of
        Inr None \<Rightarrow> (fst (first_match rules (Suc k)), k # snd (first_match rules (Suc k)))
      | _ \<Rightarrow> (outcome, [k]))"

definition when_matches :: "bool \<Rightarrow> reason \<Rightarrow> exc + reason option" where
  "when_matches b r = Inr (if b then Some r else None)"

definition exclusion_rules ::
  "config \<Rightarrow> unicode_db \<Rightarrow> doc_env \<Rightarrow> pdf_path \<Rightarrow> ustring list \<Rightarrow> counts \<Rightarrow> rule list" where
  "exclusion_rules cfg db env pdf_path exclusion_keywords failure_counts =
     [(''too_many_failures'',
         when_matches (3 \<le> counts_get failure_counts (path_str pdf_path) 0) TooManyFailures),
      (''is_backup_original'',
         when_matches (ends_with (py_lower db (path_name pdf_path)) (ustr ''_original.pdf''))
           IsBackupOriginal),
      (''is_generated_output'',
         when_matches (ends_with (py_lower db (path_name pdf_path)) (ustr ''.mono.pdf'') \<or>
                       ends_with (py_lower db (path_name pdf_path)) (ustr ''.dual.pdf''))
           IsGeneratedOutput),
      (''already_translated_by_metadata'',
         when_matches (fst (check_translation_metadata_status (pdf_files env) (path_str pdf_path)))
           (AlreadyTranslatedByMetadata
              (snd (check_translation_metadata_status (pdf_files env) (path_str pdf_path))))),
      (''contains_exclusion_keywords'',
         when_matches (contains_exclusion_keywords db (path_name pdf_path) exclusion_keywords)
           ContainsExclusionKeywords),
      (''backup_exists'', when_matches (backup_exists env) BackupExists),
      (''filename_contains_chinese'',
         when_matches (contains_chinese_characters (path_name pdf_path)) FilenameContainsChinese),
      (''bad_name_pattern'',
         (case is_normalized_name db (path_stem (path_name pdf_path)) of
            Inl e \<Rightarrow> Inl e
          | Inr ok \<Rightarrow> when_matches (\<not> ok) BadNamePattern)),
      (''page_count_failed'',
         when_matches (get_page_count env pdf_path = None) PageCountFailed),
      (''pages_gt_N'',
         (case get_page_count env pdf_path of
            None \<Rightarrow> Inr None
          | Some pgs \<Rightarrow> when_matches (max_pages cfg < pgs) (PagesGt (max_pages cfg)))),
      (''size_gt_N'',
         when_matches (max_size_bytes cfg \<le> int (st_size env)) (SizeGt (max_size_bytes cfg))),
      (''chinese_pdf_vlm'',
         when_matches (fst (detect_chinese_content_via_vlm cfg env))
           (ChinesePdfVlm (snd (detect_chinese_content_via_vlm cfg env))))]"

definition all_switches_enabled :: "config \<Rightarrow> bool" where
  "all_switches_enabled cfg =
     (skip_translated_by_metadata cfg \<and> skip_max_file_size cfg \<and> skip_max_pages cfg \<and>
      skip_filename_format_check cfg \<and> skip_filename_contains_chinese cfg \<and>
      skip_contains_skip_keywords cfg \<and> skip_chinese_pdf_vlm cfg)"

text \<open>Whether every match of a rule carries a reason with the rule's own tag.\<close>

definition tags_agree :: "rule list \<Rightarrow> bool" where
  "tags_agree rules =
     list_all (\<lambda>r. case snd r of Inr (Some reason) \<Rightarrow> reason_tag reason = fst r | _ \<Rightarrow> True) rules"

section \<open>Atomic replace with retry (pdf\_batch\_translator.py)\<close>

text \<open>
  The files on disk together with the delays handed to \<open>time.sleep\<close>, in order.
\<close>

record world =
  files :: pdf_fs
  slept :: "real list"

text \<open>
  What one call of \<open>os.replace\<close> does: it renames, it raises \<open>PermissionError\<close> (the
  destination is held open by another process), or it raises something else. The
  operating system's answer to the attempt with a given number is a parameter.
\<close>

datatype replace_outcome = Replaced | Denied | Failed exc

text \<open>A successful \<open>os.replace(src, dst)\<close>: the destination now is what the source was, and the source is gone.\<close>

definition rename_file :: "pdf_fs \<Rightarrow> ustring \<Rightarrow> ustring \<Rightarrow> pdf_fs" where
  "rename_file fs src dst = (fs(dst := fs src))(src := None)"

text \<open>The loop \<open>for attempt in range(max_retries)\<close> of \<open>_atomic_replace_with_retry\<close>.\<close>

fun replace_loop ::
  "(nat \<Rightarrow> replace_outcome) \<Rightarrow> ustring \<Rightarrow> ustring \<Rightarrow> nat \<Rightarrow> real \<Rightarrow> nat list \<Rightarrow> world
     \<Rightarrow> (exc + bool) \<times> world" where
  "replace_loop os_replace src dst max_retries initial_delay [] w = (Inr False, w)"
| "replace_loop os_replace src dst max_retries initial_delay (attempt # rest) w =
     (case os_replace attempt of
        Replaced \<Rightarrow> (Inr True, w\<lparr>files := rename_file (files w) src dst\<rparr>)
      | Failed e \<Rightarrow> (Inl e, w)
      | Denied \<Rightarrow>
          if Suc attempt = max_retries then (Inr False, w)
          else replace_loop os_replace src dst max_retries initial_delay rest
                 (w\<lparr>slept := slept w @ [initial_delay * 2 ^ attempt]\<rparr>))"

definition atomic_replace_with_retry ::
  "(nat \<Rightarrow> replace_outcome) \<Rightarrow> ustring \<Rightarrow> ustring \<Rightarrow> nat \<Rightarrow> real \<Rightarrow> world
     \<Rightarrow> (exc + bool) \<times> world" where
  "atomic_replace_with_retry os_replace src dst max_retries initial_delay w =
     replace_loop os_replace src dst max_retries initial_delay [0..<max_retries] w"

text \<open>\<open>_retry_unlink\<close>: the same loop around \<open>path.unlink()\<close>, which either removes the file or raises an \<open>OSError\<close>.\<close>

fun unlink_loop ::
  "(nat \<Rightarrow> bool) \<Rightarrow> ustring \<Rightarrow> nat \<Rightarrow> real \<Rightarrow> nat list \<Rightarrow> world \<Rightarrow> bool \<times> world" where
  "unlink_loop os_unlink path max_retries initial_delay [] w = (False, w)"
| "unlink_loop os_unlink path max_retries initial_delay (attempt # rest) w =
     (if os_unlink attempt then (True, w\<lparr>files := (files w)(path := None)\<rparr>)
      else if Suc attempt = max_retries then (False, w)
      else unlink_loop os_unlink path max_retries initial_delay rest
             (w\<lparr>slept := slept w @ [initial_delay * 2 ^ attempt]\<rparr>))"

definition retry_unlink ::
  "(nat \<Rightarrow> bool) \<Rightarrow> ustring \<Rightarrow> nat \<Rightarrow> real \<Rightarrow> world \<Rightarrow> bool \<times> world" where
  "retry_unlink os_unlink path max_retries initial_delay w =
     unlink_loop os_unlink path max_retries initial_delay [0..<max_retries] w"

section \<open>Side-by-side merge and its inverse\<close>

text \<open>\<open>_set_all_page_boxes(page, rect)\<close>: the four setters in turn, an exception of a setter being swallowed.\<close>

definition try_set :: "(rect \<Rightarrow> page \<Rightarrow> exc + page) \<Rightarrow> rect \<Rightarrow> page \<Rightarrow> page" where
  "try_set setter r p = (case setter r p of Inl e \<Rightarrow> p | Inr p' \<Rightarrow> p')"

definition set_all_page_boxes :: "page \<Rightarrow> rect \<Rightarrow> page" where
  "set_all_page_boxes p r =
     try_set set_bleedbox r (try_set set_trimbox r (try_set set_cropbox r (try_set set_mediabox r p)))"

text \<open>The body of the merge loop, for page \<open>i\<close> of \<open>out\<close>.\<close>

definition merge_page :: "real \<Rightarrow> page list \<Rightarrow> nat \<Rightarrow> page \<Rightarrow> exc + page" where
  "merge_page gap right_doc i pg =
     (let lw = rect_width (page_rect pg);
          lh = rect_height (page_rect pg);
          new_w = 2 * lw + gap;
          new_rect = Rect 0 0 new_w lh;
          pg' = set_all_page_boxes pg new_rect;
          right_target = Rect (lw + gap) 0 (2 * lw + gap) lh
      in show_pdf_page right_target right_doc i pg')"

text \<open>\<open>for i in range(total)\<close> over the pages of \<open>out\<close>; an exception ends the loop.\<close>

fun merge_loop :: "real \<Rightarrow> page list \<Rightarrow> nat list \<Rightarrow> page list \<Rightarrow> exc + page list" where
  "merge_loop gap right_doc [] out = Inr out"
| "merge_loop gap right_doc (i # rest) out =
     (case merge_page gap right_doc i (out ! i) of
        Inl e \<Rightarrow> Inl e
      | Inr pg \<Rightarrow> merge_loop gap right_doc rest (out[i := pg]))"

text \<open>
  \<open>fitz.open()\<close> followed by \<open>out.insert_pdf(left_doc)\<close>: a new document with the pages of
  the left one, their annotations included, and no embedded file.
\<close>

definition insert_pdf_into_new :: "pdf_doc \<Rightarrow> pdf_doc" where
  "insert_pdf_into_new left_doc = \<lparr> pages = pages left_doc, embfiles = [], can_save_incr = False \<rparr>"

text \<open>\<open>doc.save(path, garbage=4, deflate=True)\<close>: PyMuPDF refuses a document without pages. The saved file can be saved incrementally later.\<close>

definition save_pdf :: "pdf_fs \<Rightarrow> ustring \<Rightarrow> pdf_doc \<Rightarrow> exc + pdf_fs" where
  "save_pdf fs path doc =
     (if pages doc = [] then Inl (ValueError (ustr ''cannot save with zero pages''))
      else Inr (fs(path \<mapsto> doc\<lparr>can_save_incr := True\<rparr>)))"

definition page_count_mismatch :: exc where
  "page_count_mismatch = ValueError (ustr ''the two PDFs differ in page count'')"

text \<open>
  \<open>merge_preserve_left_annotations(pdf_left, pdf_right, out_path, gap)\<close> (concatePDF.py),
  for local, unencrypted files (\<open>open_pdf\<close> then is \<open>fitz.open\<close>).
\<close>

definition merge_preserve_left_annotations ::
  "pdf_fs \<Rightarrow> ustring \<Rightarrow> ustring \<Rightarrow> ustring \<Rightarrow> real \<Rightarrow> exc + pdf_fs" where
  "merge_preserve_left_annotations fs pdf_left pdf_right out_path gap =
     (case fitz_open fs pdf_left of
        Inl e \<Rightarrow> Inl e
      | Inr left_doc \<Rightarrow>
          (case fitz_open fs pdf_right of
             Inl e \<Rightarrow> Inl e
           | Inr right_doc \<Rightarrow>
               if length (pages left_doc) \<noteq> length (pages right_doc) then Inl page_count_mismatch
               else (case merge_loop gap (pages right_doc) [0..<length (pages left_doc)]
                            (pages (insert_pdf_into_new left_doc)) of
                       Inl e \<Rightarrow> Inl e
                     | Inr out_pages \<Rightarrow>
                         save_pdf fs out_path ((insert_pdf_into_new left_doc)\<lparr>pages := out_pages\<rparr>))))"

subsection \<open>The merge of the batch translator\<close>

text \<open>
  The names bound at module level in pdf\_batch\_translator.py (imports, constants,
  functions). A name read inside a function that the function does not assign is looked up
  here (and then among the builtins); a name found in neither raises \<open>NameError\<close>.
\<close>

definition pdf_batch_translator_names :: "string list" where
  "pdf_batch_translator_names =
     [''os'', ''re'', ''csv'', ''time'', ''shutil'', ''subprocess'', ''tempfile'', ''json'', ''uuid'',
      ''datetime'', ''timezone'', ''Path'', ''Tuple'', ''Optional'', ''List'', ''Dict'', ''Any'',
      ''dataclass'', ''sys'', ''detect_pdf_language_via_vlm'', ''_HAS_VLM_DETECT'',
      ''load_configuration'', ''CONFIG'', ''get_config_value'', ''SKIP_TRANSLATED_BY_METADATA'',
      ''SKIP_MAX_FILE_SIZE'', ''SKIP_MAX_PAGES'', ''SKIP_FILENAME_FORMAT_CHECK'',
      ''SKIP_FILENAME_CONTAINS_CHINESE'', ''SKIP_CONTAINS_SKIP_KEYWORDS'', ''SKIP_CHINESE_PDF_VLM'',
      ''DELETE_MONO_PDF'', ''DELETE_ALL_EXCEPT_FINAL'', ''SUPPRESS_SKIPPED_OUTPUT'', ''PDF_ROOT'',
      ''PDF2ZH_EXE'', ''LOG_DIR'', ''LANG_IN'', ''LANG_OUT'', ''TRANSLATION_SERVICE'',
      ''SILICONFLOW_API_KEY'', ''SILICONFLOW_MODEL'', ''SILICONFLOW_BASE'', ''QPS_LIMIT'', ''GAP'',
      ''MAX_SIZE_BYTES'', ''MAX_PAGES'', ''MAX_TIME'', ''VLM_API_KEY'', ''VLM_MODEL'', ''VLM_BASE'',
      ''VLM_K_PAGES'', ''VLM_DPI'', ''VLM_DETAIL'', ''VLM_PER_PAGE_TIMEOUT'', ''LOG_PATH'',
      ''CJK_PATTERN'', ''contains_chinese_characters'', ''load_exclusion_keywords'',
      ''contains_exclusion_keywords'', ''check_translation_metadata_status'',
      ''detect_chinese_content_via_vlm'', ''should_exclude_from_processing'',
      ''is_normalized_name'', ''ensure_csv_header'', ''log_row'', ''get_page_count'',
      ''FAIL_LOG_PATH'', ''read_failure_counts'', ''increment_and_write_failure'',
      ''_apply_service_flags'', ''_build_cmd_base'', ''execute_pdf2zh_translation'',
      ''cleanup_new_csvs'', ''fitz'', ''_set_all_page_boxes'', ''extract_page_dimensions'',
      ''create_translation_metadata'', ''embed_minimal_metadata'',
      ''embed_original_file_attachment'', ''_atomic_replace_with_retry'', ''_retry_unlink'',
      ''merge_pdfs_preserve_annotations'', ''get_expected_mono_output_path'',
      ''find_most_recent_matching_file'', ''main'']"

text \<open>The parameters and the local variables of \<open>merge_pdfs_preserve_annotations\<close>.\<close>

definition merge_pdfs_locals :: "string list" where
  "merge_pdfs_locals =
     [''pdf_left'', ''pdf_right'', ''output_path'', ''gap'', ''left_doc'', ''right_doc'', ''out'',
      ''total'', ''i'', ''page'', ''lw'', ''lh'', ''new_w'', ''new_rect'', ''right_target'',
      ''temp_uuid'', ''tmp_path'', ''sidecar_path'']"

definition lookup_name :: "string list \<Rightarrow> string list \<Rightarrow> string \<Rightarrow> exc + unit" where
  "lookup_name locals globals n =
     (if n \<in> set locals \<or> n \<in> set globals then Inr ()
      else Inl (NameError (ustr (''name '' @ n @ '' is not defined''))))"

text \<open>
  The statements after the \<open>try\<close> block: replace the destination by the temporary file;
  when that is given up, warn and replace the sidecar \<open>\<open>stem\<close>.pdf2zh-merged.pdf\<close> instead;
  then remove the temporary file if it is still there.
\<close>

definition commit_merged ::
  "(ustring \<Rightarrow> nat \<Rightarrow> replace_outcome) \<Rightarrow> (nat \<Rightarrow> bool) \<Rightarrow> pdf_path \<Rightarrow> pdf_path \<Rightarrow> world
     \<Rightarrow> (exc + unit) \<times> world" where
  "commit_merged os_replace os_unlink tmp_path overwrite_path w =
     (let sidecar_path = with_name overwrite_path
                           (path_stem (path_name overwrite_path) @ ustr ''.pdf2zh-merged.pdf'');
          cleanup = (\<lambda>w'. if files w' (path_str tmp_path) \<noteq> None
                           then snd (retry_unlink os_unlink (path_str tmp_path) 5 (1 / 20) w')
                           else w')
      in
      case atomic_replace_with_retry (os_replace (path_str overwrite_path))
             (path_str tmp_path) (path_str overwrite_path) 10 (1 / 10) w of
        (Inl e, w1) \<Rightarrow> (Inl e, w1)
      | (Inr True, w1) \<Rightarrow> (Inr (), cleanup w1)
      | (Inr False, w1) \<Rightarrow>
          (case atomic_replace_with_retry (os_replace (path_str sidecar_path))
                  (path_str tmp_path) (path_str sidecar_path) 10 (1 / 10) w1 of
             (Inl e, w2) \<Rightarrow> (Inl e, w2)
           | (Inr b, w2) \<Rightarrow> (Inr (), cleanup w2)))"

text \<open>
  \<open>merge_pdfs_preserve_annotations(pdf_left, pdf_right, output_path, gap)\<close>
  (pdf\_batch\_translator.py). After the loop the function reads \<open>overwrite_path\<close>, which
  is neither one of its variables (the parameter is \<open>output_path\<close>) nor a name of the
  module. \<open>temp_uuid\<close> stands for the eight hexadecimal digits of \<open>uuid.uuid4()\<close>. The
  branch after a successful lookup takes the parameter for the value of the name.
\<close>

definition merge_pdfs_preserve_annotations ::
  "ustring \<Rightarrow> (ustring \<Rightarrow> nat \<Rightarrow> replace_outcome) \<Rightarrow> (nat \<Rightarrow> bool) \<Rightarrow> world
     \<Rightarrow> pdf_path \<Rightarrow> pdf_path \<Rightarrow> pdf_path \<Rightarrow> real \<Rightarrow> (exc + unit) \<times> world" where
  "merge_pdfs_preserve_annotations temp_uuid os_replace os_unlink w pdf_left pdf_right output_path gap =
     (case fitz_open (files w) (path_str pdf_left) of
        Inl e \<Rightarrow> (Inl e, w)
      | Inr left_doc \<Rightarrow>
          (case fitz_open (files w) (path_str pdf_right) of
             Inl e \<Rightarrow> (Inl e, w)
           | Inr right_doc \<Rightarrow>
               if length (pages left_doc) \<noteq> length (pages right_doc)
               then (Inl page_count_mismatch, w)
               else (case merge_loop gap (pages right_doc) [0..<length (pages left_doc)]
                            (pages (insert_pdf_into_new left_doc)) of
                       Inl e \<Rightarrow> (Inl e, w)
                     | Inr out_pages \<Rightarrow>
                         (case lookup_name merge_pdfs_locals pdf_batch_translator_names
                                 ''overwrite_path'' of
                            Inl e \<Rightarrow> (Inl e, w)
                          | Inr u \<Rightarrow>
                              let tmp_path = with_name output_path
                                    (path_stem (path_name output_path) @ ustr ''_tmp_'' @ temp_uuid
                                       @ ustr ''.pdf'')
                              in (case save_pdf (files w) (path_str tmp_path)
                                         ((insert_pdf_into_new left_doc)\<lparr>pages := out_pages\<rparr>) of
                                    Inl e \<Rightarrow> (Inl e, w)
                                  | Inr fs' \<Rightarrow>
                                      commit_merged os_replace os_unlink tmp_path output_path
                                        (w\<lparr>files := fs'\<rparr>))))))"

subsection \<open>The split (pdf\_splitter.py)\<close>

text \<open>The names bound at module level in pdf\_splitter.py, and the variables of \<open>extract_left_half_from_merged_pdf\<close>.\<close>

definition pdf_splitter_names :: "string list" where
  "pdf_splitter_names =
     [''os'', ''re'', ''tempfile'', ''urlparse'', ''fitz'', ''requests'', ''tqdm'', ''MERGED_PDF'',
      ''OUTPUT_DIR'', ''OUTPUT_SUFFIX'', ''is_valid_url'', ''download_url_to_temporary_file'',
      ''open_pdf_document'', ''sanitize_filename_for_windows'',
      ''generate_output_filename_from_source'', ''_set_all_page_boxes'',
      ''extract_left_half_from_merged_pdf'', ''output_name'', ''output_path'']"

definition extract_left_half_locals :: "string list" where
  "extract_left_half_locals =
     [''merged_pdf'', ''out_path'', ''doc'', ''tmp_file'', ''page'', ''current_rect'', ''new_width'',
      ''new_rect'', ''out_dir'']"

text \<open>The body of the split loop.\<close>

definition split_page :: "page \<Rightarrow> page" where
  "split_page pg =
     (let current_rect = page_rect pg;
          new_width = rect_width current_rect / 2;
          new_rect = Rect 0 0 new_width (rect_height current_rect)
      in set_all_page_boxes pg new_rect)"

text \<open>
  \<open>extract_left_half_from_merged_pdf(merged_pdf, out_path)\<close>. Its first statement calls
  \<open>open_pdf\<close>; the module defines \<open>open_pdf_document\<close>. The branch after a successful
  lookup opens the file as \<open>open_pdf_document\<close> does for a local, unencrypted file.
\<close>

definition extract_left_half_from_merged_pdf ::
  "pdf_fs \<Rightarrow> ustring \<Rightarrow> ustring \<Rightarrow> exc + pdf_fs" where
  "extract_left_half_from_merged_pdf fs merged_pdf out_path =
     (case lookup_name extract_left_half_locals pdf_splitter_names ''open_pdf'' of
        Inl e \<Rightarrow> Inl e
      | Inr u \<Rightarrow>
          (case fitz_open fs merged_pdf of
             Inl e \<Rightarrow> Inl e
           | Inr doc \<Rightarrow> save_pdf fs out_path (doc\<lparr>pages := map split_page (pages doc)\<rparr>)))"

section \<open>Python floats\<close>

text \<open>
  A Python \<open>float\<close> is an IEEE 754 double: NaN, one of the two infinities, or a finite number
  \<open>m * 2 ^ e\<close> with \<open>|m| < 2 ^ 53\<close> and \<open>-1074 \<le> e \<le> 971\<close>. A finite float is modelled by
  its value, a real number; zero has no sign in the model (the code modelled here compares
  floats and never divides by one, so the sign of a zero is not observed).
\<close>

datatype pyfloat = Finite real | PosInf | NegInf | NaN

text \<open>The nearest integer, a tie going to the even one.\<close>

definition round_half_even :: "real \<Rightarrow> int" where
  "round_half_even y =
     (if y - of_int \<lfloor>y\<rfloor> < 1 / 2 then \<lfloor>y\<rfloor>
      else if 1 / 2 < y - of_int \<lfloor>y\<rfloor> then \<lfloor>y\<rfloor> + 1
      else if even \<lfloor>y\<rfloor> then \<lfloor>y\<rfloor> else \<lfloor>y\<rfloor> + 1)"

text \<open>
  The floats around a real number \<open>x\<close> are the multiples of \<open>2 ^ e\<close>, where \<open>e\<close> is the
  largest exponent in \<open>-1074..971\<close> with \<open>2 ^ (e + 52) \<le> |x|\<close>, and \<open>-1074\<close> when there
  is none (the subnormal range).
\<close>

definition ulp_exponent :: "real \<Rightarrow> int" where
  "ulp_exponent x =
     (case find (\<lambda>e. 2 powi (e + 52) \<le> \<bar>x\<bar>) (map (\<lambda>k. 971 - int k) [0..<2046]) of
        Some e \<Rightarrow> e | None \<Rightarrow> - 1074)"

text \<open>
  The float that an exact result \<open>x\<close> becomes (round to nearest, ties to even): the nearest
  multiple of \<open>2 ^ e\<close>, a tie going to the even multiple, and an infinity when that has
  magnitude \<open>2 ^ 1024\<close> or more. A decimal literal of the source denotes the float of its
  value: \<open>0.015\<close> is \<open>float_of_real (15 / 1000)\<close>.
\<close>

definition float_of_real :: "real \<Rightarrow> pyfloat" where
  "float_of_real x =
     (let e = ulp_exponent x; y = of_int (round_half_even (x / 2 powi e)) * 2 powi e in
      if 2 ^ 1024 \<le> y then PosInf else if y \<le> - (2 ^ 1024) then NegInf else Finite y)"

text \<open>\<open>a + b\<close>, \<open>-a\<close>, \<open>a - b\<close>, and \<open>a / d\<close> for a positive finite divisor \<open>d\<close>.\<close>

fun fadd :: "pyfloat \<Rightarrow> pyfloat \<Rightarrow> pyfloat" where
  "fadd (Finite a) (Finite b) = float_of_real (a + b)"
| "fadd NaN b = NaN"
| "fadd a NaN = NaN"
| "fadd PosInf NegInf = NaN"
| "fadd NegInf PosInf = NaN"
| "fadd PosInf b = PosInf"
| "fadd a PosInf = PosInf"
| "fadd NegInf b = NegInf"
| "fadd a NegInf = NegInf"

fun fneg :: "pyfloat \<Rightarrow> pyfloat" where
  "fneg (Finite a) = Finite (- a)"
| "fneg PosInf = NegInf"
| "fneg NegInf = PosInf"
| "fneg NaN = NaN"

definition fsub :: "pyfloat \<Rightarrow> pyfloat \<Rightarrow> pyfloat" where
  "fsub a b = fadd a (fneg b)"

fun fdiv_pos :: "pyfloat \<Rightarrow> real \<Rightarrow> pyfloat" where
  "fdiv_pos (Finite a) d = float_of_real (a / d)"
| "fdiv_pos a d = a"

text \<open>\<open>a < b\<close> and \<open>a <= b\<close>: a comparison with NaN is false.\<close>

fun flt :: "pyfloat \<Rightarrow> pyfloat \<Rightarrow> bool" where
  "flt NaN b = False"
| "flt a NaN = False"
| "flt (Finite a) (Finite b) = (a < b)"
| "flt a NegInf = False"
| "flt PosInf b = False"
| "flt a b = True"

fun fle :: "pyfloat \<Rightarrow> pyfloat \<Rightarrow> bool" where
  "fle NaN b = False"
| "fle a NaN = False"
| "fle (Finite a) (Finite b) = (a \<le> b)"
| "fle NegInf b = True"
| "fle a PosInf = True"
| "fle a b = False"

text \<open>\<open>max(a, b)\<close>: the second argument when it is greater than the first, else the first.\<close>

definition py_max :: "pyfloat \<Rightarrow> pyfloat \<Rightarrow> pyfloat" where
  "py_max a b = (if flt a b then b else a)"

text \<open>
  \<open>round(x, 2)\<close>: the exact value of \<open>x\<close> is rounded to the nearest multiple of 0.01, a tie
  going to the even one, and the float of that decimal is returned; NaN and the infinities
  are returned as they are.
\<close>

fun py_round2 :: "pyfloat \<Rightarrow> pyfloat" where
  "py_round2 (Finite x) = float_of_real (of_int (round_half_even (x * 100)) / 100)"
| "py_round2 a = a"

text \<open>\<open>sorted(data)\<close> on floats, by insertion with \<open><=\<close> (the data sorted here hold no NaN).\<close>

fun insort_float :: "pyfloat \<Rightarrow> pyfloat list \<Rightarrow> pyfloat list" where
  "insort_float x [] = [x]"
| "insort_float x (y # ys) = (if fle x y then x # y # ys else y # insort_float x ys)"

definition py_sorted :: "pyfloat list \<Rightarrow> pyfloat list" where
  "py_sorted xs = foldr insort_float xs []"

section \<open>Gap inference (pdf\_pair\_metadata\_manager.py)\<close>

text \<open>
  A page size \<open>{"w": ..., "h": ...}\<close> is a pair of floats (\<open>page_sizes_pt\<close> builds them with
  \<open>round(r.width, 2)\<close> and \<open>round(r.height, 2)\<close>).
\<close>

type_synonym size_pt = "pyfloat \<times> pyfloat"

text \<open>The loop of \<open>infer_gap_pt\<close>: it runs over \<open>min(len(source_sizes), len(result_sizes))\<close> pages.\<close>

fun gap_candidates :: "size_pt list \<Rightarrow> size_pt list \<Rightarrow> pyfloat list" where
  "gap_candidates (s # source_sizes) (r # result_sizes) =
     (let lw = fst s; rw = lw; nw = fst r; cand = py_round2 (fsub nw (fadd lw rw)) in
      (if fle (Finite (- (1 / 2))) cand then [py_max (Finite 0) (py_round2 cand)] else [])
      @ gap_candidates source_sizes result_sizes)"
| "gap_candidates source_sizes result_sizes = []"

text \<open>
  \<open>statistics.median(data)\<close>: raises \<open>StatisticsError\<close> (a \<open>ValueError\<close>) on no data, and
  returns the middle element of the sorted data or \<open>(data[i - 1] + data[i]) / 2\<close>.
\<close>

definition median :: "pyfloat list \<Rightarrow> exc + pyfloat" where
  "median xs =
     (let s = py_sorted xs; n = length s in
      if n = 0 then Inl (ValueError (ustr ''no median for empty data''))
      else if odd n then Inr (s ! (n div 2))
      else Inr (fdiv_pos (fadd (s ! (n div 2 - 1)) (s ! (n div 2))) 2))"

text \<open>
  \<open>infer_gap_pt(source_sizes, result_sizes)\<close>. The handler of \<open>StatisticsError\<close> returns the
  rounded mean \<open>sum(gaps) / len(gaps)\<close>, the sum taken from left to right; it is never
  entered, because \<open>median\<close> raises on empty data only.
\<close>

definition infer_gap_pt :: "size_pt list \<Rightarrow> size_pt list \<Rightarrow> pyfloat" where
  "infer_gap_pt source_sizes result_sizes =
     (let gaps = gap_candidates source_sizes result_sizes in
      if gaps = [] then Finite 0
      else (case median gaps of
              Inr m \<Rightarrow> py_round2 m
            | Inl e \<Rightarrow> py_round2 (fdiv_pos (foldl fadd (Finite 0) gaps) (real (length gaps)))))"

text \<open>
  The gap in the words of the specification: every page contributes the candidate
  \<open>max(0, result_width - 2 * source_width)\<close>, and the gap is the median of the candidates.
\<close>

definition spec_gap_candidates :: "size_pt list \<Rightarrow> size_pt list \<Rightarrow> pyfloat list" where
  "spec_gap_candidates source_sizes result_sizes =
     map (\<lambda>(s, r). py_max (Finite 0) (fsub (fst r) (fadd (fst s) (fst s))))
       (zip source_sizes result_sizes)"

text \<open>
  What the code keeps: of the differences rounded to two decimals those that are at least
  \<open>-0.5\<close>, each rounded once more and a negative one raised to zero.
\<close>

definition kept_gap_candidates :: "size_pt list \<Rightarrow> size_pt list \<Rightarrow> pyfloat list" where
  "kept_gap_candidates source_sizes result_sizes =
     map (\<lambda>c. py_max (Finite 0) (py_round2 c))
       (filter (\<lambda>c. fle (Finite (- (1 / 2))) c)
          (map (\<lambda>(s, r). py_round2 (fsub (fst r) (fadd (fst s) (fst s))))
             (zip source_sizes result_sizes)))"

section \<open>Well-formed ledger keys and example inputs\<close>

text \<open>
  A ledger key that survives being written and read back: no line break in it, and no
  white space at its start (\<open>line.strip()\<close> would remove it).
\<close>

definition clean_key :: "unicode_db \<Rightarrow> ustring \<Rightarrow> bool" where
  "clean_key db k = (10 \<notin> set k \<and> 13 \<notin> set k \<and> (k = [] \<or> \<not> cp_isspace db (hd k)))"

text \<open>
  The text of a file that the UTF-8 decoder accepts holds no surrogate code point: the
  ledger file is valid UTF-8 when it exists.
\<close>

definition ledger_valid_utf8 :: "ledger_file \<Rightarrow> bool" where
  "ledger_valid_utf8 f = (case ledger_text f of None \<Rightarrow> True | Some text \<Rightarrow> utf8_encodable text)"

definition empty_ledger :: ledger_file where
  "empty_ledger = \<lparr> ledger_text = None, ledger_writable = True \<rparr>"

text \<open>A configuration with every skip switch on.\<close>

definition all_on_config :: config where
  "all_on_config =
     \<lparr> skip_translated_by_metadata = True, skip_max_file_size = True, skip_max_pages = True,
       skip_filename_format_check = True, skip_filename_contains_chinese = True,
       skip_contains_skip_keywords = True, skip_chinese_pdf_vlm = True,
       max_size_bytes = 104857600, max_pages = 500, has_vlm_detect = True \<rparr>"

definition smith_path :: pdf_path where
  "smith_path = \<lparr> path_parent = ustr ''docs/'', path_name = ustr ''Smith-2023-Title.pdf'' \<rparr>"

definition smith_mono_path :: pdf_path where
  "smith_mono_path =
     \<lparr> path_parent = ustr ''docs/'', path_name = ustr ''Smith-2023-Title.no_watermark.zh-CN.mono.pdf'' \<rparr>"

text \<open>A file in the current directory whose name starts with a space.\<close>

definition spaced_path :: pdf_path where
  "spaced_path = \<lparr> path_parent = [], path_name = ustr '' Smith-2023-Title.pdf'' \<rparr>"

definition plain_page :: "real \<Rightarrow> real \<Rightarrow> nat \<Rightarrow> annot list \<Rightarrow> page" where
  "plain_page w h k an =
     \<lparr> mediabox = Rect 0 0 w h, cropbox = Rect 0 0 w h, trimbox = Rect 0 0 w h,
       bleedbox = Rect 0 0 w h, drawings = [Own k], annots = an \<rparr>"

text \<open>A one-page original with a highlight, and its one-page translation.\<close>

definition annotated_doc :: pdf_doc where
  "annotated_doc =
     \<lparr> pages = [plain_page 100 200 1 [Markup (Rect 10 10 50 20) (ustr ''note'')]],
       embfiles = [], can_save_incr = True \<rparr>"

definition translated_doc :: pdf_doc where
  "translated_doc = \<lparr> pages = [plain_page 100 200 2 []], embfiles = [], can_save_incr = True \<rparr>"

definition smith_files :: pdf_fs where
  "smith_files = [path_str smith_path \<mapsto> annotated_doc, path_str smith_mono_path \<mapsto> translated_doc]"

text \<open>The labelling service is down in all example environments.\<close>

definition readable_env :: doc_env where
  "readable_env =
     \<lparr> pdf_files = smith_files, st_size = 1000, pypdf2_pages = Inr 1, backup_exists = False,
       vlm_detect = Inl (RuntimeError (ustr ''request failed'')) \<rparr>"

text \<open>The candidate is damaged: neither PyMuPDF nor \<open>PyPDF2\<close> can read it.\<close>

definition unreadable_env :: doc_env where
  "unreadable_env =
     \<lparr> pdf_files = Map.empty, st_size = 1000,
       pypdf2_pages = Inl (ValueError (ustr ''EOF marker not found'')), backup_exists = False,
       vlm_detect = Inl (RuntimeError (ustr ''request failed'')) \<rparr>"

definition spaced_env :: doc_env where
  "spaced_env =
     \<lparr> pdf_files = [path_str spaced_path \<mapsto> annotated_doc], st_size = 1000, pypdf2_pages = Inr 1,
       backup_exists = False, vlm_detect = Inl (RuntimeError (ustr ''request failed'')) \<rparr>"

text \<open>
  The superscript digits U+00B2, U+00B3, U+00B9, U+2070 and U+2074..U+2079 are digits for
  \<open>str.isdigit\<close> and are refused by \<open>int\<close>; they are neither letters nor white space, and
  \<open>str.lower\<close> leaves them as they are. The tables on ASCII and on these characters:
\<close>

definition superscript_digit :: "nat \<Rightarrow> bool" where
  "superscript_digit c = (c = 0xb2 \<or> c = 0xb3 \<or> c = 0xb9 \<or> c = 0x2070 \<or> (0x2074 \<le> c \<and> c \<le> 0x2079))"

definition superscript_db :: unicode_db where
  "superscript_db = ascii_db\<lparr>cp_isdigit := \<lambda>c. ascii_isdigit c \<or> superscript_digit c\<rparr>"

text \<open>A document named \<open>Smith-<2023 in superscript digits>-Title.pdf\<close>.\<close>

definition superscript_year :: ustring where
  "superscript_year = [0xb2, 0x2070, 0xb2, 0xb3]"

definition superscript_path :: pdf_path where
  "superscript_path =
     \<lparr> path_parent = ustr ''docs/'',
       path_name = ustr ''Smith-'' @ superscript_year @ ustr ''-Title.pdf'' \<rparr>"

definition superscript_env :: doc_env where
  "superscript_env = readable_env\<lparr>pdf_files := [path_str superscript_path \<mapsto> annotated_doc]\<rparr>"

text \<open>
  The candidate carries a \<open>pdf2zh.meta.json\<close> whose JSON text is an array (so that
  \<open>metadata.get\<close> raises), or whose bytes are no JSON text; and a candidate that only
  \<open>PyPDF2\<close> can read.
\<close>

definition array_meta_doc :: pdf_doc where
  "array_meta_doc = annotated_doc\<lparr>embfiles := [(meta_name, JsonText (JArr []))]\<rparr>"

definition array_meta_env :: doc_env where
  "array_meta_env = readable_env\<lparr>pdf_files := [path_str smith_path \<mapsto> array_meta_doc]\<rparr>"

definition garbled_meta_doc :: pdf_doc where
  "garbled_meta_doc = annotated_doc\<lparr>embfiles := [(meta_name, OtherBytes [255, 254])]\<rparr>"

definition garbled_meta_env :: doc_env where
  "garbled_meta_env = readable_env\<lparr>pdf_files := [path_str smith_path \<mapsto> garbled_meta_doc]\<rparr>"

definition pypdf2_only_env :: doc_env where
  "pypdf2_only_env = unreadable_env\<lparr>pypdf2_pages := Inr 1\<rparr>"

text \<open>Three process runs that each fail on the same document.\<close>

definition three_failing_runs :: "unicode_db \<Rightarrow> ustring \<Rightarrow> ledger_file \<Rightarrow> ledger_file" where
  "three_failing_runs db key f = failing_run db key (failing_run db key (failing_run db key f))"

text \<open>The translated original as the pair manager and the orphan manager stamp it.\<close>

definition example_now :: ustring where
  "example_now = ustr ''2025-01-01T00:00:00Z''"

definition default_model :: ustring where
  "default_model = ustr ''Qwen/Qwen2.5-7B-Instruct''"

definition pair_stamped_doc :: pdf_doc where
  "pair_stamped_doc =
     annotated_doc\<lparr>embfiles :=
       [(meta_name, JsonText (build_translated_meta example_now [] [] default_model 0))]\<rparr>"

definition pair_stamped_env :: doc_env where
  "pair_stamped_env = readable_env\<lparr>pdf_files := [path_str smith_path \<mapsto> pair_stamped_doc]\<rparr>"

definition orphan_stamped_files :: pdf_fs where
  "orphan_stamped_files =
     snd (embed_metadata_attachment smith_files (path_str smith_path)
            (create_metadata example_now (ustr ''translated'') default_model []))"

definition orphan_stamped_env :: doc_env where
  "orphan_stamped_env = readable_env\<lparr>pdf_files := orphan_stamped_files\<rparr>"

text \<open>The same original as the batch translator stamps it.\<close>

definition smith_backup_path :: pdf_path where
  "smith_backup_path =
     \<lparr> path_parent = ustr ''docs/'', path_name = ustr ''Smith-2023-Title_original.pdf'' \<rparr>"

definition batch_stamped_files :: pdf_fs where
  "batch_stamped_files =
     snd (embed_original_file_attachment (smith_files(path_str smith_backup_path \<mapsto> annotated_doc))
            (path_str smith_path) (path_str smith_backup_path) (path_name smith_backup_path)
            (create_translation_metadata example_now (ustr ''siliconflow_free'') JNull
               (ustr ''translated'') [] [] 0))"

text \<open>An operating system that refuses every rename and every removal.\<close>

definition always_denied :: "ustring \<Rightarrow> nat \<Rightarrow> replace_outcome" where
  "always_denied dst attempt = Denied"

definition smith_world :: world where
  "smith_world = \<lparr> files = smith_files, slept = [] \<rparr>"

text \<open>The merged file \<open>concatePDF\<close> makes of the example pair with no gap.\<close>

definition smith_merged_path :: ustring where
  "smith_merged_path = ustr ''out/Smith-2023-Title_merged.pdf''"

definition smith_merged_files :: pdf_fs where
  "smith_merged_files =
     (case merge_preserve_left_annotations smith_files (path_str smith_path)
             (path_str smith_mono_path) smith_merged_path 0 of
        Inl e \<Rightarrow> smith_files
      | Inr fs \<Rightarrow> fs)"

section \<open>What the merge loop makes of a page\<close>

text \<open>
  The page a merge step is meant to produce from a left page of width \<open>lw\<close> and height
  \<open>lh\<close>: all four boxes are \<open>(0, 0)-(2 lw + gap, lh)\<close>, the right page is drawn into
  \<open>(lw + gap, 0)-(2 lw + gap, lh)\<close> after everything the page had, and the annotations are
  the ones the page had.
\<close>

definition merged_page :: "real \<Rightarrow> page list \<Rightarrow> nat \<Rightarrow> page \<Rightarrow> page" where
  "merged_page gap right_doc i pg =
     (let lw = rect_width (cropbox pg); lh = rect_height (cropbox pg);
          whole = Rect 0 0 (2 * lw + gap) lh in
      pg\<lparr>mediabox := whole, cropbox := whole, trimbox := whole, bleedbox := whole,
         drawings := drawings pg @ [Shown (Rect (lw + gap) 0 (2 * lw + gap) lh) (drawings (right_doc ! i))]\<rparr>)"

definition positive_page :: "page \<Rightarrow> bool" where
  "positive_page pg = (0 < rect_width (cropbox pg) \<and> 0 < rect_height (cropbox pg))"

section \<open>Properties\<close>

lemma ascii_compatible_ascii_db: "ascii_compatible ascii_db"
  by (simp add: ascii_compatible_def ascii_db_def)


subsection \<open>The name validator\<close>







subsection \<open>The failure ledger written and read back\<close>

lemma universal_newlines_id: "13 \<notin> set s \<Longrightarrow> universal_newlines s = s"
  by (induction s rule: universal_newlines.induct) auto

lemma universal_newlines_no_cr: "13 \<notin> set (universal_newlines s)"
  by (induction s rule: universal_newlines.induct) auto

lemma py_lines_terminated:
  "10 \<notin> set xs \<Longrightarrow> py_lines (xs @ 10 # rest) = (xs @ [10]) # py_lines rest"
  by (induction xs) auto

lemma str_nat_digits: "set (str_nat n) \<subseteq> {48..57}"
proof (induction n rule: str_nat.induct)
  case (1 n)
  show ?case
  proof (cases "n < 10")
    case True
    then show ?thesis by (subst str_nat.simps) auto
  next
    case False
    have "n mod 10 < 10" by simp
    then have "48 + n mod 10 \<in> {48..57}" by auto
    with False "1.IH" show ?thesis by (subst str_nat.simps) auto
  qed
qed

lemma str_nat_nonempty: "str_nat n \<noteq> []"
  by (subst str_nat.simps) auto

lemma decimal_value_snoc:
  "decimal_value db acc (xs @ [c]) =
     (case decimal_value db acc xs of None \<Rightarrow> None
      | Some v \<Rightarrow> (case cp_decimal db c of None \<Rightarrow> None | Some d \<Rightarrow> Some (10 * v + d)))"
  by (induction xs arbitrary: acc) (auto split: option.splits)

lemma ascii_digit_decimal:
  "ascii_compatible db \<Longrightarrow> d < 10 \<Longrightarrow> cp_decimal db (48 + d) = Some d"
  by (simp add: ascii_compatible_def ascii_decimal_def ascii_isdigit_def)

lemma decimal_value_str_nat:
  "ascii_compatible db \<Longrightarrow> decimal_value db 0 (str_nat n) = Some n"
proof (induction n rule: str_nat.induct)
  case (1 n)
  show ?case
  proof (cases "n < 10")
    case True
    with "1.prems" show ?thesis
      by (subst str_nat.simps) (simp add: ascii_digit_decimal)
  next
    case False
    have m: "n mod 10 < 10" by simp
    from False "1.IH" "1.prems" have "decimal_value db 0 (str_nat (n div 10)) = Some (n div 10)"
      by simp
    with False "1.prems" m show ?thesis
      by (subst str_nat.simps) (simp add: decimal_value_snoc ascii_digit_decimal)
  qed
qed

lemma py_int_str_nat: "ascii_compatible db \<Longrightarrow> py_int db (str_nat n) = Inr n"
  by (simp add: py_int_def str_nat_nonempty decimal_value_str_nat)

lemma str_isdigit_str_nat: "ascii_compatible db \<Longrightarrow> str_isdigit db (str_nat n)"
proof -
  assume a: "ascii_compatible db"
  have "\<forall>c \<in> set (str_nat n). cp_isdigit db c"
  proof
    fix c assume "c \<in> set (str_nat n)"
    with str_nat_digits have c: "48 \<le> c \<and> c \<le> 57" by fastforce
    then have "c < 128" by simp
    with a c show "cp_isdigit db c" by (simp add: ascii_compatible_def ascii_isdigit_def)
  qed
  then show ?thesis by (simp add: str_isdigit_def str_nat_nonempty list_all_iff)
qed

lemma rsplit1_key_digits:
  "comma \<notin> set ds \<Longrightarrow> rsplit1 comma (k @ [comma] @ ds) = [k, ds]"
proof -
  assume a: "comma \<notin> set ds"
  then have all: "\<forall>x \<in> set (rev ds). x \<noteq> comma" by auto
  have t: "takeWhile (\<lambda>c. c \<noteq> comma) (rev ds @ comma # rev k) = rev ds"
    using all by (simp add: takeWhile_tail)
  have d: "dropWhile (\<lambda>c. c \<noteq> comma) (rev ds @ comma # rev k) = comma # rev k"
    using all by (simp add: dropWhile_append3)
  show ?thesis by (simp add: rsplit1_def t d)
qed

lemma py_strip_line:
  assumes "ascii_compatible db" "clean_key db k" "set ds \<subseteq> {48..57}" "ds \<noteq> []"
  shows "py_strip db (k @ [comma] @ ds @ [10]) = k @ [comma] @ ds"
proof -
  from assms(1) have sp10: "cp_isspace db 10" and spc: "\<not> cp_isspace db comma"
    by (simp_all add: ascii_compatible_def ascii_isspace_def comma_def)
  have hd_ns: "\<not> cp_isspace db (hd (k @ [comma] @ ds @ [10]))"
    using assms(2) spc by (cases k) (auto simp: clean_key_def)
  from assms(3,4) have "48 \<le> last ds \<and> last ds \<le> 57"
    using last_in_set by fastforce
  with assms(1) have last_ns: "\<not> cp_isspace db (last ds)"
    by (simp add: ascii_compatible_def ascii_isspace_def)
  have front: "dropWhile (cp_isspace db) (k @ [comma] @ ds @ [10]) = k @ [comma] @ ds @ [10]"
    using hd_ns by (simp add: dropWhile_eq_self_iff)
  have "hd (rev ds @ comma # rev k) = last ds"
    using assms(4) by (simp add: hd_rev)
  with last_ns have bk: "dropWhile (cp_isspace db) (rev ds @ comma # rev k) = rev ds @ comma # rev k"
    by (simp add: dropWhile_eq_self_iff del: hd_append2)
  have "dropWhile (cp_isspace db) (rev (k @ [comma] @ ds @ [10])) = rev ds @ comma # rev k"
    using sp10 bk by simp
  with front show ?thesis by (simp add: py_strip_def)
qed

lemma comma_not_digit: "set ds \<subseteq> {48..57} \<Longrightarrow> comma \<notin> set ds"
  by (auto simp: comma_def)

lemma read_lines_written:
  assumes "ascii_compatible db" "\<forall>e \<in> set es. clean_key db (fst e)"
  shows "read_lines db (map ledger_line es) acc = fold (\<lambda>e. AList.update (fst e) (snd e)) es acc"
  using assms(2)
proof (induction es arbitrary: acc)
  case Nil
  then show ?case by simp
next
  case (Cons e es)
  have s: "py_strip db (ledger_line e) = fst e @ [comma] @ str_nat (snd e)"
    unfolding ledger_line_def
    using py_strip_line [OF assms(1) _ str_nat_digits str_nat_nonempty, of "fst e" "snd e"] Cons.prems
    by simp
  have r: "rsplit1 comma (fst e @ [comma] @ str_nat (snd e)) = [fst e, str_nat (snd e)]"
    by (rule rsplit1_key_digits) (rule comma_not_digit [OF str_nat_digits])
  show ?case
    using Cons s r assms(1) by (simp add: str_isdigit_str_nat py_int_str_nat)
qed

lemma ledger_line_no_nl: "10 \<notin> set (fst e) \<Longrightarrow> 10 \<notin> set (fst e @ [comma] @ str_nat (snd e))"
  using str_nat_digits [of "snd e"] by (auto simp: comma_def)

lemma py_lines_ledger_line:
  "10 \<notin> set (fst e) \<Longrightarrow> py_lines (ledger_line e @ rest) = ledger_line e # py_lines rest"
  using py_lines_terminated [OF ledger_line_no_nl, of e rest] by (simp add: ledger_line_def)

lemma py_lines_written:
  "\<forall>e \<in> set es. 10 \<notin> set (fst e) \<Longrightarrow> py_lines (concat (map ledger_line es)) = map ledger_line es"
  by (induction es) (simp_all add: py_lines_ledger_line)

lemma ledger_line_no_cr: "13 \<notin> set (fst e) \<Longrightarrow> 13 \<notin> set (ledger_line e)"
  using str_nat_digits [of "snd e"] by (auto simp: ledger_line_def comma_def)

lemma written_no_cr:
  "\<forall>e \<in> set es. 13 \<notin> set (fst e) \<Longrightarrow> 13 \<notin> set (concat (map ledger_line es))"
  by (induction es) (simp_all add: ledger_line_no_cr)

lemma fold_update_map_of:
  "map_of (fold (\<lambda>e. AList.update (fst e) (snd e)) es acc) = fold (\<lambda>e m. m(fst e \<mapsto> snd e)) es (map_of acc)"
  by (induction es arbitrary: acc) (simp_all add: update_conv')

lemma fold_upd_distinct:
  "distinct (map fst es) \<Longrightarrow> fold (\<lambda>e m. m(fst e \<mapsto> snd e)) es m = m ++ map_of es"
proof (induction es arbitrary: m)
  case Nil
  then show ?case by simp
next
  case (Cons e es)
  obtain a b where e: "e = (a, b)" by (cases e)
  from Cons.prems e have nd: "a \<notin> dom (map_of es)" by (simp add: dom_map_of_conv_image_fst)
  have "fold (\<lambda>e m. m(fst e \<mapsto> snd e)) (e # es) m
      = fold (\<lambda>e m. m(fst e \<mapsto> snd e)) es (m(a \<mapsto> b))"
    by (simp add: e)
  also have "\<dots> = m(a \<mapsto> b) ++ map_of es"
    using Cons.prems by (intro Cons.IH) simp
  also have "\<dots> = (m ++ map_of es)(a \<mapsto> b)"
    using nd by (rule map_add_upd_left)
  also have "\<dots> = m ++ map_of (e # es)"
    by (simp add: e)
  finally show ?case .
qed

lemma map_of_sort_key:
  "distinct (map fst es) \<Longrightarrow> map_of (sort_key fst es) = map_of es"
proof -
  assume d: "distinct (map fst es)"
  then have "distinct (map fst (sort_key fst es))" by (simp add: distinct_map)
  with d show ?thesis by (simp add: map_of_inject_set)
qed

lemma read_written:
  assumes "ascii_compatible db" "\<forall>e \<in> set es. clean_key db (fst e)" "distinct (map fst es)"
  shows "map_of (read_lines db (py_lines (universal_newlines (concat (map ledger_line (sort_key fst es))))) [])
         = map_of es"
proof -
  let ?s = "sort_key fst es"
  have cl: "\<forall>e \<in> set ?s. clean_key db (fst e)" using assms(2) by simp
  then have nl: "\<forall>e \<in> set ?s. 10 \<notin> set (fst e)" and cr: "\<forall>e \<in> set ?s. 13 \<notin> set (fst e)"
    by (simp_all add: clean_key_def)
  have ds: "distinct (map fst ?s)" using assms(3) by (simp add: distinct_map)
  have "universal_newlines (concat (map ledger_line ?s)) = concat (map ledger_line ?s)"
    by (rule universal_newlines_id) (rule written_no_cr [OF cr])
  moreover have "py_lines (concat (map ledger_line ?s)) = map ledger_line ?s"
    by (rule py_lines_written [OF nl])
  moreover have "read_lines db (map ledger_line ?s) [] = fold (\<lambda>e. AList.update (fst e) (snd e)) ?s []"
    by (rule read_lines_written [OF assms(1) cl])
  ultimately have "map_of (read_lines db (py_lines (universal_newlines (concat (map ledger_line ?s)))) [])
      = Map.empty ++ map_of ?s"
    using ds by (simp add: fold_update_map_of fold_upd_distinct)
  then show ?thesis using assms(3) by (simp add: map_of_sort_key)
qed


lemma py_lines_nonempty: "[] \<notin> set (py_lines t)"
  by (induction t) (auto split: list.splits)

lemma py_lines_shape: "l \<in> set (py_lines t) \<Longrightarrow> 10 \<notin> set (butlast l) \<and> set l \<subseteq> set t"
proof (induction t arbitrary: l)
  case Nil
  then show ?case by simp
next
  case (Cons c cs)
  show ?case
  proof (cases "c = 10")
    case True
    with Cons show ?thesis by auto
  next
    case False
    show ?thesis
    proof (cases "py_lines cs")
      case Nil
      with False Cons.prems show ?thesis by simp
    next
      case (Cons l' ls)
      then have l': "l' \<in> set (py_lines cs)" and ne: "l' \<noteq> []"
        using py_lines_nonempty [of cs] by auto
      from Cons False Cons.prems have "l = c # l' \<or> l \<in> set ls" by simp
      then show ?thesis
      proof
        assume "l = c # l'"
        with False ne Cons.IH [OF l'] show ?thesis by auto
      next
        assume "l \<in> set ls"
        with Cons have "l \<in> set (py_lines cs)" by simp
        from Cons.IH [OF this] show ?thesis by auto
      qed
    qed
  qed
qed

lemma butlast_dropWhile: "10 \<notin> set (butlast l) \<Longrightarrow> 10 \<notin> set (butlast (dropWhile P l))"
  by (induction l) (auto split: if_splits)

lemma strip_tail_no_nl:
  assumes "10 \<notin> set (butlast l)" "P 10"
  shows "10 \<notin> set (dropWhile P (rev l))"
proof (cases l rule: rev_cases)
  case Nil
  then show ?thesis by simp
next
  case (snoc ys y)
  with assms(1) have ys: "10 \<notin> set ys" by simp
  show ?thesis
  proof (cases "P y")
    case True
    then have "set (dropWhile P (rev l)) \<subseteq> set ys"
      using snoc set_dropWhileD [of _ P "rev ys"] by auto
    with ys show ?thesis by auto
  next
    case False
    with assms(2) have "y \<noteq> 10" by auto
    with False snoc ys show ?thesis by simp
  qed
qed

lemma py_strip_no_nl:
  "cp_isspace db 10 \<Longrightarrow> 10 \<notin> set (butlast l) \<Longrightarrow> 10 \<notin> set (py_strip db l)"
  using strip_tail_no_nl [OF butlast_dropWhile, of l "cp_isspace db" "cp_isspace db"]
  by (simp add: py_strip_def)

lemma py_strip_subset: "set (py_strip db l) \<subseteq> set l"
  by (auto simp: py_strip_def dest!: set_dropWhileD)

lemma py_strip_hd: "py_strip db l \<noteq> [] \<Longrightarrow> \<not> cp_isspace db (hd (py_strip db l))"
proof -
  let ?l' = "dropWhile (cp_isspace db) l"
  assume ne: "py_strip db l \<noteq> []"
  have "rev (rev ?l') = rev (takeWhile (cp_isspace db) (rev ?l') @ dropWhile (cp_isspace db) (rev ?l'))"
    by (simp only: takeWhile_dropWhile_id)
  then have split: "?l' = py_strip db l @ rev (takeWhile (cp_isspace db) (rev ?l'))"
    by (simp only: rev_rev_ident rev_append py_strip_def)
  with ne have "?l' \<noteq> []" by (metis append_is_Nil_conv)
  then have "\<not> cp_isspace db (hd ?l')" by (rule hd_dropWhile)
  moreover from split ne have "hd ?l' = hd (py_strip db l)"
    by (metis hd_append2)
  ultimately show ?thesis by simp
qed

lemma rsplit1_key_prefix:
  "length (rsplit1 c s) = 2 \<Longrightarrow> \<exists>rest. s = rsplit1 c s ! 0 @ c # rest"
proof -
  assume "length (rsplit1 c s) = 2"
  then have mem: "c \<in> set s" by (auto simp: rsplit1_def split: if_splits)
  let ?dw = "dropWhile (\<lambda>x. x \<noteq> c) (rev s)"
  let ?tw = "takeWhile (\<lambda>x. x \<noteq> c) (rev s)"
  from mem have "?dw \<noteq> []" by (simp add: dropWhile_eq_Nil_conv)
  moreover then have "hd ?dw = c" using hd_dropWhile [of "\<lambda>x. x \<noteq> c" "rev s"] by simp
  ultimately have dw: "?dw = c # tl ?dw" by (metis list.collapse)
  have "rev s = ?tw @ ?dw" by simp
  then have "rev (rev s) = rev (?tw @ c # tl ?dw)" using dw by simp
  then have "s = rev (tl ?dw) @ c # rev ?tw" by simp
  moreover from mem have "rsplit1 c s ! 0 = rev (tl ?dw)" by (simp add: rsplit1_def)
  ultimately show ?thesis by metis
qed

lemma read_key_clean:
  assumes "ascii_compatible db" "10 \<notin> set (butlast l)" "13 \<notin> set l"
    "length (rsplit1 comma (py_strip db l)) = 2"
  shows "clean_key db (rsplit1 comma (py_strip db l) ! 0)"
proof -
  let ?s = "py_strip db l"
  let ?k = "rsplit1 comma ?s ! 0"
  from assms(1) have sp10: "cp_isspace db 10"
    by (simp add: ascii_compatible_def ascii_isspace_def)
  from rsplit1_key_prefix [OF assms(4)] obtain rest where s: "?s = ?k @ comma # rest" by blast
  then have sub: "set ?k \<subseteq> set ?s" by (metis set_append Un_upper1)
  have "10 \<notin> set ?s" by (rule py_strip_no_nl [OF sp10 assms(2)])
  moreover have "13 \<notin> set ?s" using assms(3) py_strip_subset by fastforce
  moreover have "?k = [] \<or> \<not> cp_isspace db (hd ?k)"
  proof (cases "?k = []")
    case True
    then show ?thesis by simp
  next
    case False
    with s have "hd ?s = hd ?k" by (metis hd_append2)
    moreover from s have "?s \<noteq> []" by (metis append_is_Nil_conv list.distinct(1))
    ultimately show ?thesis using py_strip_hd [of db l] by simp
  qed
  ultimately show ?thesis using sub by (auto simp: clean_key_def)
qed

lemma update_keys_clean:
  "clean_key db k \<Longrightarrow> \<forall>e \<in> set al. clean_key db (fst e) \<Longrightarrow>
   \<forall>e \<in> set (AList.update k v al). clean_key db (fst e)"
  by (induction al) auto

lemma read_lines_clean:
  assumes "ascii_compatible db"
  shows "\<forall>l \<in> set ls. 10 \<notin> set (butlast l) \<and> 13 \<notin> set l \<Longrightarrow>
         \<forall>e \<in> set acc. clean_key db (fst e) \<Longrightarrow> distinct (map fst acc) \<Longrightarrow>
         (\<forall>e \<in> set (read_lines db ls acc). clean_key db (fst e)) \<and>
         distinct (map fst (read_lines db ls acc))"
proof (induction ls arbitrary: acc)
  case Nil
  then show ?case by simp
next
  case (Cons l ls)
  let ?parts = "rsplit1 comma (py_strip db l)"
  show ?case
  proof (cases "length ?parts = 2 \<and> str_isdigit db (?parts ! 1)")
    case False
    with Cons show ?thesis by (auto simp: Let_def)
  next
    case True
    show ?thesis
    proof (cases "py_int db (?parts ! 1)")
      case (Inl e)
      with True Cons.prems show ?thesis by (simp add: Let_def)
    next
      case (Inr n)
      from Cons.prems(1) True have k: "clean_key db (?parts ! 0)"
        using read_key_clean [OF assms, of l] by simp
      have "\<forall>e \<in> set (AList.update (?parts ! 0) n acc). clean_key db (fst e)"
        using k Cons.prems(2) by (rule update_keys_clean)
      moreover have "distinct (map fst (AList.update (?parts ! 0) n acc))"
        using Cons.prems(3) by (rule distinct_update)
      moreover have "\<forall>l \<in> set ls. 10 \<notin> set (butlast l) \<and> 13 \<notin> set l"
        using Cons.prems(1) by simp
      ultimately have "(\<forall>e \<in> set (read_lines db ls (AList.update (?parts ! 0) n acc)). clean_key db (fst e)) \<and>
         distinct (map fst (read_lines db ls (AList.update (?parts ! 0) n acc)))"
        by (intro Cons.IH)
      with True Inr show ?thesis by (simp add: Let_def)
    qed
  qed
qed

lemma read_failure_counts_clean:
  assumes "ascii_compatible db"
  shows "(\<forall>e \<in> set (read_failure_counts db f). clean_key db (fst e)) \<and>
         distinct (map fst (read_failure_counts db f))"
proof (cases "ledger_text f")
  case None
  then show ?thesis by (simp add: read_failure_counts_def)
next
  case (Some t)
  have "\<forall>l \<in> set (py_lines (universal_newlines t)). 10 \<notin> set (butlast l) \<and> 13 \<notin> set l"
    using py_lines_shape [of _ "universal_newlines t"] universal_newlines_no_cr [of t] by blast
  from read_lines_clean [OF assms this, of "[]"] Some show ?thesis
    by (simp add: read_failure_counts_def)
qed

lemma utf8_encodable_append: "utf8_encodable (a @ b) \<longleftrightarrow> utf8_encodable a \<and> utf8_encodable b"
  by (simp add: utf8_encodable_def)

lemma utf8_encodable_subset: "set a \<subseteq> set b \<Longrightarrow> utf8_encodable b \<Longrightarrow> utf8_encodable a"
  by (auto simp: utf8_encodable_def list_all_iff)

lemma str_nat_encodable: "utf8_encodable (str_nat n)"
  using str_nat_digits [of n] by (auto simp: utf8_encodable_def list_all_iff)

lemma ledger_line_encodable: "utf8_encodable (ledger_line e) \<longleftrightarrow> utf8_encodable (fst e)"
  using str_nat_encodable [of "snd e"]
  by (auto simp: ledger_line_def utf8_encodable_def comma_def)

lemma write_lines_all:
  "list_all utf8_encodable ls \<Longrightarrow> write_lines ls written = written @ concat ls"
  by (induction ls arbitrary: written) simp_all

lemma concat_encodable: "list_all utf8_encodable ls \<Longrightarrow> utf8_encodable (concat ls)"
  by (induction ls) (simp_all add: utf8_encodable_def)

lemma write_lines_unencodable_first:
  "\<not> utf8_encodable line \<Longrightarrow> write_lines (line # rest) written = written"
  by simp

lemma universal_newlines_subset: "set (universal_newlines t) \<subseteq> insert 10 (set t)"
  by (induction t rule: universal_newlines.induct) auto

lemma universal_newlines_encodable: "utf8_encodable t \<Longrightarrow> utf8_encodable (universal_newlines t)"
  using universal_newlines_subset [of t] by (auto simp: utf8_encodable_def list_all_iff)

lemma read_key_encodable:
  assumes "utf8_encodable l" "length (rsplit1 comma (py_strip db l)) = 2"
  shows "utf8_encodable (rsplit1 comma (py_strip db l) ! 0)"
proof -
  from rsplit1_key_prefix [OF assms(2)]
  obtain rest where "py_strip db l = rsplit1 comma (py_strip db l) ! 0 @ comma # rest" by blast
  then have "set (rsplit1 comma (py_strip db l) ! 0) \<subseteq> set (py_strip db l)"
    by (metis set_append Un_upper1)
  with py_strip_subset [of db l] have "set (rsplit1 comma (py_strip db l) ! 0) \<subseteq> set l"
    by blast
  then show ?thesis using assms(1) by (rule utf8_encodable_subset)
qed

lemma update_keys_encodable:
  "utf8_encodable k \<Longrightarrow> \<forall>e \<in> set al. utf8_encodable (fst e) \<Longrightarrow>
   \<forall>e \<in> set (AList.update k v al). utf8_encodable (fst e)"
  by (induction al) auto

lemma read_lines_encodable:
  "\<forall>l \<in> set ls. utf8_encodable l \<Longrightarrow> \<forall>e \<in> set acc. utf8_encodable (fst e) \<Longrightarrow>
   \<forall>e \<in> set (read_lines db ls acc). utf8_encodable (fst e)"
proof (induction ls arbitrary: acc)
  case Nil
  then show ?case by simp
next
  case (Cons l ls)
  let ?parts = "rsplit1 comma (py_strip db l)"
  show ?case
  proof (cases "length ?parts = 2 \<and> str_isdigit db (?parts ! 1)")
    case False
    with Cons show ?thesis by (auto simp: Let_def)
  next
    case True
    show ?thesis
    proof (cases "py_int db (?parts ! 1)")
      case (Inl e)
      with True Cons.prems show ?thesis by (simp add: Let_def)
    next
      case (Inr n)
      from Cons.prems(1) True have k: "utf8_encodable (?parts ! 0)"
        using read_key_encodable [of l db] by simp
      have "\<forall>e \<in> set (AList.update (?parts ! 0) n acc). utf8_encodable (fst e)"
        using k Cons.prems(2) by (rule update_keys_encodable)
      moreover have "\<forall>l \<in> set ls. utf8_encodable l"
        using Cons.prems(1) by simp
      ultimately have "\<forall>e \<in> set (read_lines db ls (AList.update (?parts ! 0) n acc)).
          utf8_encodable (fst e)"
        by (intro Cons.IH)
      with True Inr show ?thesis by (simp add: Let_def)
    qed
  qed
qed

lemma read_failure_counts_encodable:
  assumes "ledger_valid_utf8 f"
  shows "\<forall>e \<in> set (read_failure_counts db f). utf8_encodable (fst e)"
proof (cases "ledger_text f")
  case None
  then show ?thesis by (simp add: read_failure_counts_def)
next
  case (Some t)
  with assms have "utf8_encodable (universal_newlines t)"
    by (simp add: ledger_valid_utf8_def universal_newlines_encodable)
  then have "\<forall>l \<in> set (py_lines (universal_newlines t)). utf8_encodable l"
    using py_lines_shape [of _ "universal_newlines t"] utf8_encodable_subset by blast
  from read_lines_encodable [OF this, of "[]" db] Some show ?thesis
    by (simp add: read_failure_counts_def)
qed

lemma failing_run_step:
  assumes "ascii_compatible db" "clean_key db key" "utf8_encodable key"
    "ledger_writable f" "ledger_valid_utf8 f"
  shows "map_of (read_failure_counts db (failing_run db key f))
           = (map_of (read_failure_counts db f))(key \<mapsto> counts_get (read_failure_counts db f) key 0 + 1)"
    and "ledger_writable (failing_run db key f)"
    and "ledger_valid_utf8 (failing_run db key f)"
proof -
  let ?c = "read_failure_counts db f"
  let ?c' = "AList.update key (counts_get ?c key 0 + 1) ?c"
  from read_failure_counts_clean [OF assms(1), of f]
  have cl: "\<forall>e \<in> set ?c. clean_key db (fst e)" and ds: "distinct (map fst ?c)" by simp_all
  have cl': "\<forall>e \<in> set ?c'. clean_key db (fst e)"
    using assms(2) cl by (rule update_keys_clean)
  have ds': "distinct (map fst ?c')" using ds by (rule distinct_update)
  have en: "\<forall>e \<in> set ?c'. utf8_encodable (fst e)"
    using assms(3) read_failure_counts_encodable [OF assms(5)] by (rule update_keys_encodable)
  then have lines: "list_all utf8_encodable (map ledger_line (sort_key fst ?c'))"
    by (simp add: list_all_iff ledger_line_encodable)
  have run: "failing_run db key f = f\<lparr>ledger_text := Some (concat (map ledger_line (sort_key fst ?c')))\<rparr>"
    using assms(4) write_lines_all [OF lines, of "[]"]
    by (simp add: failing_run_def increment_and_write_failure_def Let_def)
  show "ledger_writable (failing_run db key f)" using assms(4) by (simp add: run)
  show "ledger_valid_utf8 (failing_run db key f)"
    using concat_encodable [OF lines] by (simp add: run ledger_valid_utf8_def)
  have "map_of (read_failure_counts db (failing_run db key f)) = map_of ?c'"
    using read_written [OF assms(1) cl' ds'] by (simp add: run read_failure_counts_def)
  then show "map_of (read_failure_counts db (failing_run db key f))
           = (map_of ?c)(key \<mapsto> counts_get ?c key 0 + 1)"
    by (simp add: update_conv')
qed

lemma failing_run_count:
  assumes "ascii_compatible db" "clean_key db key" "utf8_encodable key"
    "ledger_writable f" "ledger_valid_utf8 f"
  shows "counts_get (read_failure_counts db (failing_run db key f)) key 0
           = counts_get (read_failure_counts db f) key 0 + 1"
  using failing_run_step(1) [OF assms] by (simp add: counts_get_def)

lemma three_failing_runs_count:
  assumes "ascii_compatible db" "clean_key db key" "utf8_encodable key"
    "ledger_writable f" "ledger_valid_utf8 f"
  shows "counts_get (read_failure_counts db (three_failing_runs db key f)) key 0
           = counts_get (read_failure_counts db f) key 0 + 3"
proof -
  note w1 = failing_run_step(2) [OF assms]
  note v1 = failing_run_step(3) [OF assms]
  note w2 = failing_run_step(2) [OF assms(1,2,3) w1 v1]
  note v2 = failing_run_step(3) [OF assms(1,2,3) w1 v1]
  show ?thesis
    using failing_run_count [OF assms] failing_run_count [OF assms(1,2,3) w1 v1]
      failing_run_count [OF assms(1,2,3) w2 v2] by (simp add: three_failing_runs_def)
qed

text \<open>
  A key that UTF-8 cannot encode is never recorded: on a ledger without entries each run
  empties the file and the write of the only line fails.
\<close>

lemma surrogate_key_run:
  assumes "\<not> utf8_encodable key" "ledger_writable f" "read_failure_counts db f = []"
  shows "failing_run db key f = f\<lparr>ledger_text := Some []\<rparr>"
  using assms
  by (simp add: failing_run_def increment_and_write_failure_def counts_get_def
      ledger_line_encodable)

lemma surrogate_key_three_runs:
  assumes "\<not> utf8_encodable key" "ledger_writable f" "read_failure_counts db f = []"
  shows "read_failure_counts db (three_failing_runs db key f) = []"
proof -
  have r: "read_failure_counts db (g\<lparr>ledger_text := Some []\<rparr>) = []" for g :: ledger_file
    by (simp add: read_failure_counts_def)
  note s1 = surrogate_key_run [OF assms]
  have s2: "failing_run db key (failing_run db key f) = f\<lparr>ledger_text := Some []\<rparr>"
    using surrogate_key_run [OF assms(1), of "f\<lparr>ledger_text := Some []\<rparr>" db] assms(2) r
    by (simp add: s1)
  have s3: "failing_run db key (failing_run db key (failing_run db key f)) = f\<lparr>ledger_text := Some []\<rparr>"
    using surrogate_key_run [OF assms(1), of "f\<lparr>ledger_text := Some []\<rparr>" db] assms(2) r
    by (simp add: s2)
  show ?thesis by (simp add: three_failing_runs_def s3 r)
qed

subsection \<open>The exclusion chain\<close>

lemma first_match_when:
  "first_match ((t, when_matches b r) # rules) k =
     (if b then (Inr (Some r), [k])
      else (fst (first_match rules (Suc k)), k # snd (first_match rules (Suc k))))"
  by (simp add: when_matches_def)

lemma first_match_Inl: "first_match ((t, Inl e) # rules) k = (Inl e, [k])"
  by simp

lemma first_match_None:
  "first_match ((t, Inr None) # rules) k =
     (fst (first_match rules (Suc k)), k # snd (first_match rules (Suc k)))"
  by simp

lemma first_match_Nil: "first_match [] k = (Inr None, [])"
  by simp

lemma evaluated_all:
  assumes "all_switches_enabled cfg"
  shows "evaluated cfg (Suc 0) = [1]" "evaluated cfg 2 = [1, 2]" "evaluated cfg 3 = [1, 2, 3]"
    "evaluated cfg 4 = [1, 2, 3, 4]" "evaluated cfg 5 = [1, 2, 3, 4, 5]"
    "evaluated cfg 6 = [1, 2, 3, 4, 5, 6]" "evaluated cfg 7 = [1, 2, 3, 4, 5, 6, 7]"
    "evaluated cfg 8 = [1, 2, 3, 4, 5, 6, 7, 8]" "evaluated cfg 9 = [1, 2, 3, 4, 5, 6, 7, 8, 9]"
    "evaluated cfg 10 = [1, 2, 3, 4, 5, 6, 7, 8, 9, 10]"
    "evaluated cfg 11 = [1, 2, 3, 4, 5, 6, 7, 8, 9, 10, 11]"
    "evaluated cfg 12 = [1, 2, 3, 4, 5, 6, 7, 8, 9, 10, 11, 12]"
  using assms by (simp_all add: evaluated_def rule_enabled_def all_switches_enabled_def upt_rec)

lemma chain_is_first_match:
  assumes "all_switches_enabled cfg"
  shows "should_exclude_from_processing cfg db env p kws fc
           = first_match (exclusion_rules cfg db env p kws fc) 1"
proof -
  from assms have sw: "skip_translated_by_metadata cfg" "skip_max_file_size cfg" "skip_max_pages cfg"
    "skip_filename_format_check cfg" "skip_filename_contains_chinese cfg"
    "skip_contains_skip_keywords cfg" "skip_chinese_pdf_vlm cfg"
    by (simp_all add: all_switches_enabled_def)
  show ?thesis
    unfolding should_exclude_from_processing_def exclusion_rules_def Let_def
    by (simp del: first_match.simps add: sw first_match_when first_match_Inl first_match_None
        first_match_Nil evaluated_all [OF assms] split: sum.split option.split)
qed

lemma fst_if: "fst (if c then a else b) = (if c then fst a else fst b)"
  by simp

lemma snd_if: "snd (if c then a else b) = (if c then snd a else snd b)"
  by simp

lemma metadata_no_match_like_switch_off:
  "\<not> fst (check_translation_metadata_status (pdf_files env) (path_str p)) \<Longrightarrow>
   fst (should_exclude_from_processing cfg db env p kws fc)
     = fst (should_exclude_from_processing (cfg\<lparr>skip_translated_by_metadata := False\<rparr>) db env p kws fc)"
  by (simp add: should_exclude_from_processing_def
      detect_chinese_content_via_vlm_def Let_def fst_if sum.case_distrib [of fst]
      option.case_distrib [of fst] cong: if_cong sum.case_cong option.case_cong)

lemma metadata_open_exception:
  "fitz_open fs path = Inl e \<Longrightarrow>
   check_translation_metadata_status fs path = (False, MetadataCheckFailed e)"
  by (simp add: check_translation_metadata_status_def)

lemma metadata_get_exception:
  "fitz_open fs path = Inr doc \<Longrightarrow> map_of (embfiles doc) meta_name = Some (JsonText j) \<Longrightarrow>
   json_get j (ustr ''pdf2zh.status'') (JStr []) = Inl e \<Longrightarrow>
   check_translation_metadata_status fs path = (False, MetadataCheckFailed e)"
  by (simp add: check_translation_metadata_status_def)

lemma metadata_parse_exception:
  "fitz_open fs path = Inr doc \<Longrightarrow> map_of (embfiles doc) meta_name = Some (OtherBytes b) \<Longrightarrow>
   b \<noteq> [] \<Longrightarrow>
   check_translation_metadata_status fs path = (False, MetadataParseError)"
  by (simp add: check_translation_metadata_status_def)

lemma metadata_exception_info:
  "snd (check_translation_metadata_status fs path) = MetadataCheckFailed e \<or>
   snd (check_translation_metadata_status fs path) = MetadataParseError \<Longrightarrow>
   \<not> fst (check_translation_metadata_status fs path)"
  by (auto simp: check_translation_metadata_status_def
      split: sum.splits option.splits payload.splits if_splits)

lemma vlm_exception_like_switch_off:
  "vlm_detect env = Inl e \<Longrightarrow>
   fst (should_exclude_from_processing cfg db env p kws fc)
     = fst (should_exclude_from_processing (cfg\<lparr>skip_chinese_pdf_vlm := False\<rparr>) db env p kws fc)"
  by (simp add: should_exclude_from_processing_def detect_chinese_content_via_vlm_def Let_def
      fst_if sum.case_distrib [of fst] option.case_distrib [of fst]
      cong: if_cong sum.case_cong option.case_cong)

lemma nine_evaluated: "9 \<in> set (evaluated cfg k) \<longleftrightarrow> 9 \<le> k"
  by (auto simp: evaluated_def rule_enabled_def)

lemma no_page_count_excludes:
  "get_page_count env p = None \<Longrightarrow>
   fst (should_exclude_from_processing cfg db env p kws fc) \<noteq> Inr None \<and>
   (9 \<in> set (snd (should_exclude_from_processing cfg db env p kws fc)) \<longrightarrow>
      fst (should_exclude_from_processing cfg db env p kws fc) = Inr (Some PageCountFailed))"
  by (simp add: should_exclude_from_processing_def Let_def nine_evaluated
      split: sum.split option.split)

lemma rule_tags:
  "map fst (exclusion_rules cfg db env p kws fc) =
     [''too_many_failures'', ''is_backup_original'', ''is_generated_output'',
      ''already_translated_by_metadata'', ''contains_exclusion_keywords'', ''backup_exists'',
      ''filename_contains_chinese'', ''bad_name_pattern'', ''page_count_failed'', ''pages_gt_N'',
      ''size_gt_N'', ''chinese_pdf_vlm'']"
  by (simp add: exclusion_rules_def)

lemma rules_tags_agree: "tags_agree (exclusion_rules cfg db env p kws fc)"
  by (simp add: tags_agree_def exclusion_rules_def when_matches_def split: sum.splits option.splits)

lemma decimal_value_None_iff:
  "decimal_value db acc s = None \<longleftrightarrow> (\<exists>c \<in> set s. cp_decimal db c = None)"
  by (induction s arbitrary: acc) (auto split: option.splits)

lemma is_normalized_name_raises:
  "is_normalized_name db stem = Inl e \<Longrightarrow>
   str_isdigit db (split_on dash stem ! 1) \<and>
   (\<exists>c \<in> set (split_on dash stem ! 1). cp_isdigit db c \<and> cp_decimal db c = None)"
  by (auto simp: is_normalized_name_def Let_def py_int_def str_isdigit_def list_all_iff
      decimal_value_None_iff split: if_splits sum.splits option.splits)

lemma chain_raises_only_in_name_check:
  "fst (should_exclude_from_processing cfg db env p kws fc) = Inl e \<Longrightarrow>
   skip_filename_format_check cfg \<and> is_normalized_name db (path_stem (path_name p)) = Inl e"
  by (simp add: should_exclude_from_processing_def Let_def split: if_splits sum.splits option.splits)

lemma chain_returns_when_digits_decimal:
  assumes "\<forall>c. cp_isdigit db c \<longrightarrow> cp_decimal db c \<noteq> None"
  shows "\<exists>r. fst (should_exclude_from_processing cfg db env p kws fc) = Inr r"
proof (cases "fst (should_exclude_from_processing cfg db env p kws fc)")
  case (Inl e)
  from chain_raises_only_in_name_check [OF Inl] is_normalized_name_raises assms
  show ?thesis by blast
next
  case (Inr r)
  then show ?thesis by simp
qed

lemma vlm_exception_no_match:
  "vlm_detect env = Inl e \<Longrightarrow> \<not> fst (detect_chinese_content_via_vlm cfg env)"
  by (simp add: detect_chinese_content_via_vlm_def)

lemma page_count_both_fail:
  "fitz_open (pdf_files env) (path_str p) = Inl e \<Longrightarrow> pypdf2_pages env = Inl e' \<Longrightarrow>
   get_page_count env p = None"
  by (simp add: get_page_count_def)

lemma page_count_fallback:
  "fitz_open (pdf_files env) (path_str p) = Inl e \<Longrightarrow> pypdf2_pages env = Inr n \<Longrightarrow>
   get_page_count env p = Some (int n)"
  by (simp add: get_page_count_def)

lemma embed_existing:
  "fs p = Some d \<Longrightarrow> meta_name \<in> set (embfile_names d) \<Longrightarrow>
   embed_metadata_attachment fs p m = ((True, ustr ''already_exists''), fs)"
  by (simp add: embed_metadata_attachment_def fitz_open_def)

lemma embed_original_existing:
  "fs p = Some d \<Longrightarrow> meta_name \<in> set (embfile_names d) \<Longrightarrow>
   embed_original_file_attachment fs p orig nm m = ((False, ustr ''Name already exists.''), fs)"
  by (simp add: embed_original_file_attachment_def fitz_open_def embfile_add_def)

lemma embed_success_once:
  assumes "fs p = Some d" "distinct (embfile_names d)" "fst (fst (embed_metadata_attachment fs p m))"
  shows "attachment_count (snd (embed_metadata_attachment fs p m)) p meta_name = 1"
    and "embed_metadata_attachment (snd (embed_metadata_attachment fs p m)) p m'
           = ((True, ustr ''already_exists''), snd (embed_metadata_attachment fs p m))"
proof -
  have cnt: "meta_name \<in> set (embfile_names d) \<Longrightarrow>
      length (filter (\<lambda>n. n = meta_name) (embfile_names d)) = 1"
    using assms(2) distinct_length_filter [of "embfile_names d" "\<lambda>n. n = meta_name"]
    by (simp add: Collect_conv_if Int_def)
  have cnt0: "meta_name \<notin> set (embfile_names d) \<Longrightarrow>
      length (filter (\<lambda>n. n = meta_name) (embfile_names d)) = 0"
    by (auto simp: filter_empty_conv)
  show "attachment_count (snd (embed_metadata_attachment fs p m)) p meta_name = 1"
    using assms(1,3) cnt cnt0
    by (auto simp: embed_metadata_attachment_def fitz_open_def embfile_add_def saveIncr_def
        attachment_count_def embfile_names_def split: if_splits)
  show "embed_metadata_attachment (snd (embed_metadata_attachment fs p m)) p m'
           = ((True, ustr ''already_exists''), snd (embed_metadata_attachment fs p m))"
    using assms(1,3)
    by (auto simp: embed_metadata_attachment_def fitz_open_def embfile_add_def saveIncr_def
        embfile_names_def split: if_splits)
qed

lemma batch_writer_read_back:
  assumes "fs p = Some d" "meta_name \<notin> set (embfile_names d)"
    "fst (fst (embed_original_file_attachment fs p orig nm
        (create_translation_metadata now svc mdl (ustr ''translated'') src res gap)))"
  shows "check_translation_metadata_status
           (snd (embed_original_file_attachment fs p orig nm
              (create_translation_metadata now svc mdl (ustr ''translated'') src res gap))) p
         = (True, AlreadyTranslated)"
proof -
  have look: "map_of (embfiles d @ [(meta_name, c)]) meta_name = Some c" for c
    using assms(2) by (simp add: embfile_names_def map_of_eq_None_iff [symmetric] map_add_def)
  have st: "json_get (create_translation_metadata now svc mdl (ustr ''translated'') src res gap)
      (ustr ''pdf2zh.status'') (JStr []) = Inr (JStr (ustr ''translated''))"
    by (simp add: json_get_def create_translation_metadata_def ustr_def)
  show ?thesis
    using assms look st
    by (auto simp: embed_original_file_attachment_def fitz_open_def embfile_add_def saveIncr_def
        check_translation_metadata_status_def split: if_splits option.splits)
qed

lemma nested_writer_unknown:
  assumes "fs p = Some d" "map_of (embfiles d) meta_name = Some (JsonText (build_translated_meta now src res mdl gap))"
  shows "check_translation_metadata_status fs p = (False, UnknownStatus (JStr []))"
  using assms
  by (simp add: check_translation_metadata_status_def fitz_open_def build_translated_meta_def
      json_get_def ustr_def)

subsection \<open>Evaluation of the examples\<close>

lemmas example_defs =
  all_on_config_def smith_path_def smith_mono_path_def smith_backup_path_def spaced_path_def
  plain_page_def annotated_doc_def translated_doc_def smith_files_def readable_env_def
  unreadable_env_def spaced_env_def example_now_def default_model_def pair_stamped_doc_def
  pair_stamped_env_def smith_world_def always_denied_def empty_ledger_def

lemmas chain_defs =
  should_exclude_from_processing_def counts_get_def path_str_def path_stem_def ustr_def
  ends_with_def check_translation_metadata_status_def fitz_open_def meta_name_def
  contains_exclusion_keywords_def contains_chinese_characters_def cjk_pattern_def
  is_normalized_name_def dash_def str_isdigit_def py_int_def get_page_count_def
  detect_chinese_content_via_vlm_def json_get_def Let_def evaluated_def rule_enabled_def upt_rec

lemmas ascii_defs =
  ascii_db_def ascii_isdigit_def ascii_isalpha_def ascii_isspace_def ascii_decimal_def
  ascii_lower_cp_def

lemma unreadable_candidate_chain: "should_exclude_from_processing all_on_config ascii_db unreadable_env smith_path [] []
   = (Inr (Some PageCountFailed), [1, 2, 3, 4, 5, 6, 7, 8, 9])"
  by (simp add: example_defs chain_defs ascii_defs)

lemma backup_candidate_chain: "should_exclude_from_processing all_on_config ascii_db (readable_env\<lparr>backup_exists := True\<rparr>) smith_path [] []
   = (Inr (Some BackupExists), [1, 2, 3, 4, 5, 6])"
  by (simp add: example_defs chain_defs ascii_defs)

lemma pair_stamp_read_back: "check_translation_metadata_status (pdf_files pair_stamped_env) (path_str smith_path)
   = (False, UnknownStatus (JStr []))"
  by (simp add: example_defs chain_defs build_translated_meta_def)

lemma orphan_stamp_chain:
  "should_exclude_from_processing all_on_config ascii_db orphan_stamped_env smith_path [] []
   = (Inr None, [1, 2, 3, 4, 5, 6, 7, 8, 9, 10, 11, 12])"
  by (simp add: orphan_stamped_env_def orphan_stamped_files_def embed_metadata_attachment_def
      embfile_names_def embfile_add_def saveIncr_def create_metadata_def example_defs chain_defs
      ascii_defs)

lemma orphan_stamp_read_back: "check_translation_metadata_status orphan_stamped_files (path_str smith_path)
   = (False, UnknownStatus (JStr []))"
  by (simp add: orphan_stamped_files_def embed_metadata_attachment_def embfile_names_def embfile_add_def
     saveIncr_def create_metadata_def example_defs chain_defs)

lemma batch_stamp_read_back: "check_translation_metadata_status batch_stamped_files (path_str smith_path)
   = (True, AlreadyTranslated)"
  by (simp add: batch_stamped_files_def embed_original_file_attachment_def embfile_names_def embfile_add_def
     saveIncr_def create_translation_metadata_def add_file_annot_def example_defs chain_defs)

lemma batch_stamp_embed_again: "fst (embed_original_file_attachment batch_stamped_files (path_str smith_path)
            (path_str smith_backup_path) (path_name smith_backup_path) JNull) = (False, ustr ''Name already exists.'')"
  by (simp add: batch_stamped_files_def embed_original_file_attachment_def embfile_names_def embfile_add_def
     saveIncr_def create_translation_metadata_def add_file_annot_def example_defs chain_defs)

lemma superscript_year_isdigit: "str_isdigit superscript_db superscript_year"
  by (simp add: str_isdigit_def superscript_db_def superscript_year_def superscript_digit_def
      ascii_defs)

lemma superscript_year_int:
  "py_int superscript_db superscript_year = Inl (ValueError (ustr ''invalid literal for int()''))"
  by (simp add: py_int_def superscript_db_def superscript_year_def ascii_defs)

lemma superscript_chain:
  "should_exclude_from_processing all_on_config superscript_db superscript_env superscript_path [] []
     = (Inl (ValueError (ustr ''invalid literal for int()'')), [1, 2, 3, 4, 5, 6, 7, 8])"
  by (simp add: superscript_db_def superscript_env_def superscript_path_def superscript_year_def
      superscript_digit_def example_defs chain_defs ascii_defs)

lemma smith_chain_superscript_db:
  "should_exclude_from_processing all_on_config superscript_db readable_env smith_path [] []
     = (Inr None, [1, 2, 3, 4, 5, 6, 7, 8, 9, 10, 11, 12])"
  by (simp add: superscript_db_def superscript_digit_def example_defs chain_defs ascii_defs)

lemma array_meta_chain:
  "should_exclude_from_processing all_on_config ascii_db array_meta_env smith_path [] []
     = (Inr None, [1, 2, 3, 4, 5, 6, 7, 8, 9, 10, 11, 12])"
  by (simp add: array_meta_env_def array_meta_doc_def example_defs chain_defs ascii_defs)

lemma garbled_meta_chain:
  "should_exclude_from_processing all_on_config ascii_db garbled_meta_env smith_path [] []
     = (Inr None, [1, 2, 3, 4, 5, 6, 7, 8, 9, 10, 11, 12])"
  by (simp add: garbled_meta_env_def garbled_meta_doc_def example_defs chain_defs ascii_defs)

subsection \<open>Floats, gap inference and retry\<close>

lemma round_half_even_of_int: "round_half_even (of_int k) = k"
  by (simp add: round_half_even_def)

lemma exponent_candidates_nth:
  "i < 2046 \<Longrightarrow> map (\<lambda>k. 971 - int k) [0..<2046] ! i = 971 - int i"
  by (simp only: nth_map length_upt nth_upt diff_zero add_0)

lemma exponent_candidates_length: "length (map (\<lambda>k. 971 - int k) [0..<2046]) = 2046"
  by (simp only: length_map length_upt diff_zero)

lemma ulp_exponent_cases:
  "ulp_exponent x = - 1074 \<or>
   (2 powi (ulp_exponent x + 52) \<le> \<bar>x\<bar> \<and> - 1074 \<le> ulp_exponent x \<and> ulp_exponent x \<le> 971)"
proof (cases "find (\<lambda>e. 2 powi (e + 52) \<le> \<bar>x\<bar>) (map (\<lambda>k. 971 - int k) [0..<2046])")
  case None
  then show ?thesis by (simp add: ulp_exponent_def)
next
  case (Some e)
  then obtain i where i: "i < 2046" "2 powi (e + 52) \<le> \<bar>x\<bar>" "e = 971 - int i"
    unfolding find_Some_iff exponent_candidates_length
    using exponent_candidates_nth by metis
  with Some show ?thesis by (simp add: ulp_exponent_def)
qed

lemma ulp_exponent_le:
  assumes "\<bar>x\<bar> < 2 powi (e + 53)" "- 1074 \<le> e"
  shows "ulp_exponent x \<le> e"
proof (rule ccontr)
  assume n: "\<not> ulp_exponent x \<le> e"
  with assms(2) ulp_exponent_cases [of x] have l: "2 powi (ulp_exponent x + 52) \<le> \<bar>x\<bar>"
    by auto
  from n have "e + 53 \<le> ulp_exponent x + 52" by simp
  then have "(2 :: real) powi (e + 53) \<le> 2 powi (ulp_exponent x + 52)"
    by (rule power_int_increasing) simp
  with l assms(1) show False by simp
qed

lemma ulp_exponent_eq:
  assumes "2 powi (e + 52) \<le> \<bar>x\<bar>" "\<bar>x\<bar> < 2 powi (e + 53)" "- 1074 \<le> e" "e \<le> 971"
  shows "ulp_exponent x = e"
proof -
  let ?P = "\<lambda>e. 2 powi (e + 52) \<le> \<bar>x\<bar>"
  let ?xs = "map (\<lambda>k. 971 - int k) [0..<2046]"
  let ?i = "nat (971 - e)"
  from assms(3,4) have i: "?i < 2046" "971 - int ?i = e" by simp_all
  have before: "\<not> ?P (971 - int j)" if "j < ?i" for j
  proof -
    from that have "e + 53 \<le> 971 - int j + 52" by simp
    then have "(2 :: real) powi (e + 53) \<le> 2 powi (971 - int j + 52)"
      by (rule power_int_increasing) simp
    with assms(2) show ?thesis by simp
  qed
  have "find ?P ?xs = Some e"
    unfolding find_Some_iff
  proof (intro exI [of _ ?i] conjI allI impI)
    show "?i < length ?xs" using i(1) by (simp only: exponent_candidates_length)
    show "?P (?xs ! ?i)" using i assms(1) by (simp only: exponent_candidates_nth)
    show "e = ?xs ! ?i" using i by (simp only: exponent_candidates_nth)
    fix j assume j: "j < ?i"
    with i(1) have "j < 2046" by simp
    with before [OF j] show "\<not> ?P (?xs ! j)" by (simp only: exponent_candidates_nth simp_thms)
  qed
  then show ?thesis by (simp add: ulp_exponent_def)
qed

lemma float_of_real_exact:
  assumes "x = of_int m * 2 powi e" "\<bar>m\<bar> < 2 ^ 53" "- 1074 \<le> e" "e \<le> 971"
  shows "float_of_real x = Finite x"
proof -
  let ?u = "ulp_exponent x"
  have p53: "(2 :: real) powi (e + 53) = 2 powi e * 2 ^ 53"
    by (simp add: power_int_add)
  from assms(2) have "\<bar>real_of_int m\<bar> < 2 ^ 53"
    by (metis of_int_abs of_int_less_numeral_power_cancel_iff)
  then have ax: "\<bar>x\<bar> < 2 powi (e + 53)"
    by (simp add: assms(1) abs_mult p53 mult.commute)
  then have le: "?u \<le> e" using assms(3) by (rule ulp_exponent_le)
  have "x / 2 powi ?u = of_int m * 2 powi (e - ?u)"
    by (simp add: assms(1) power_int_diff)
  also have "\<dots> = of_int (m * 2 ^ nat (e - ?u))"
    using le by (simp add: power_int_def)
  finally have q: "x / 2 powi ?u = of_int (m * 2 ^ nat (e - ?u))" .
  have "x / 2 powi ?u * 2 powi ?u = x" by simp
  then have y: "of_int (round_half_even (x / 2 powi ?u)) * 2 powi ?u = x"
    by (simp only: q round_half_even_of_int)
  define B :: real where "B = 2 ^ 1024"
  have "(2 :: real) powi (e + 53) \<le> 2 powi 1024"
    using assms(4) by (intro power_int_increasing) simp_all
  also have "(2 :: real) powi 1024 = B"
    unfolding B_def by (simp only: power_int_numeral)
  finally have "\<bar>x\<bar> < B" using ax by simp
  then have "\<not> B \<le> x" "\<not> x \<le> - B" by auto
  then show ?thesis
    unfolding float_of_real_def Let_def y B_def [symmetric] by simp
qed

lemma float_of_real_of_int:
  "\<bar>m\<bar> < 2 ^ 53 \<Longrightarrow> float_of_real (of_int m) = Finite (of_int m)"
  using float_of_real_exact [of "of_int m" m 0] by simp

lemma round_half_even_bounds: "\<lfloor>y\<rfloor> \<le> round_half_even y \<and> round_half_even y \<le> \<lfloor>y\<rfloor> + 1"
  by (simp add: round_half_even_def)

lemma round_half_even_abs:
  assumes "\<bar>y\<bar> < of_int n"
  shows "\<bar>round_half_even y\<bar> \<le> n"
proof -
  from assms have "y < of_int n" "of_int (- n) < y" by auto
  then have "\<lfloor>y\<rfloor> < n" "- n \<le> \<lfloor>y\<rfloor>"
    by (simp_all add: floor_less_iff le_floor_iff)
  with round_half_even_bounds [of y] show ?thesis by linarith
qed

lemma float_of_real_eval:
  assumes "2 powi (e + 52) \<le> \<bar>x\<bar>" "\<bar>x\<bar> < 2 powi (e + 53)" "- 1074 \<le> e" "e \<le> 970"
  shows "float_of_real x = Finite (of_int (round_half_even (x / 2 powi e)) * 2 powi e)"
proof -
  define B :: real where "B = 2 ^ 1024"
  let ?k = "round_half_even (x / 2 powi e)"
  from assms have u: "ulp_exponent x = e" by (intro ulp_exponent_eq) simp_all
  have p: "(2 :: real) powi (e + 53) = 2 powi e * of_int (2 ^ 53)"
    by (simp add: power_int_add)
  have "\<bar>x / 2 powi e\<bar> < of_int (2 ^ 53)"
    using assms(2) unfolding p by (simp add: abs_divide pos_divide_less_eq mult.commute)
  then have "\<bar>?k\<bar> \<le> 2 ^ 53" by (rule round_half_even_abs)
  then have "\<bar>real_of_int ?k\<bar> \<le> 2 powi 53"
    by (metis of_int_abs of_int_le_numeral_power_cancel_iff power_int_numeral numeral_Bit1 numeral_One
        of_int_numeral of_int_power power_int_of_nat)
  then have "\<bar>real_of_int ?k * 2 powi e\<bar> \<le> 2 powi 53 * 2 powi e"
    by (simp add: abs_mult)
  also have "\<dots> = (2 :: real) powi (e + 53)" by (simp add: power_int_add)
  also have "\<dots> \<le> 2 powi 1023"
    using assms(4) by (intro power_int_increasing) simp_all
  also have "\<dots> < 2 powi 1024"
    by (intro power_int_strict_increasing) simp_all
  also have "(2 :: real) powi 1024 = B"
    unfolding B_def by (simp only: power_int_numeral)
  finally have "\<bar>real_of_int ?k * 2 powi e\<bar> < B" .
  then have "\<not> B \<le> real_of_int ?k * 2 powi e" "\<not> real_of_int ?k * 2 powi e \<le> - B" by auto
  then show ?thesis
    unfolding float_of_real_def Let_def u B_def [symmetric] by simp
qed

lemma gap_candidates_kept:
  "gap_candidates source_sizes result_sizes = kept_gap_candidates source_sizes result_sizes"
  by (induction source_sizes result_sizes rule: gap_candidates.induct)
    (simp_all add: kept_gap_candidates_def Let_def)

lemma insort_float_length: "length (insort_float x ys) = Suc (length ys)"
  by (induction ys) simp_all

lemma py_sorted_length: "length (py_sorted xs) = length xs"
  by (induction xs) (simp_all add: py_sorted_def insort_float_length)

lemma py_sorted_eq_Nil: "py_sorted xs = [] \<longleftrightarrow> xs = []"
  using py_sorted_length [of xs] by (metis length_0_conv)

lemma median_defined: "xs \<noteq> [] \<Longrightarrow> \<exists>m. median xs = Inr m"
  by (simp add: median_def Let_def py_sorted_eq_Nil)

lemma infer_gap_pt_kept:
  "infer_gap_pt source_sizes result_sizes =
     (case median (kept_gap_candidates source_sizes result_sizes) of
        Inl e \<Rightarrow> Finite 0 | Inr m \<Rightarrow> py_round2 m)"
  by (simp add: infer_gap_pt_def gap_candidates_kept median_def Let_def py_sorted_eq_Nil)

lemma float_of_real_numeral:
  "numeral n < (2 ^ 53 :: int) \<Longrightarrow> float_of_real (numeral n) = Finite (numeral n)"
  using float_of_real_of_int [of "numeral n"] by simp

lemma float_of_real_neg_numeral:
  "numeral n < (2 ^ 53 :: int) \<Longrightarrow> float_of_real (- numeral n) = Finite (- numeral n)"
  using float_of_real_of_int [of "- numeral n"] by simp

lemma float_of_real_0: "float_of_real 0 = Finite 0"
  using float_of_real_of_int [of 0] by simp

lemma round_half_even_numeral: "round_half_even (numeral n) = numeral n"
  using round_half_even_of_int [of "numeral n"] by simp

lemma round_half_even_neg_numeral: "round_half_even (- numeral n) = - numeral n"
  using round_half_even_of_int [of "- numeral n"] by simp

lemmas float_eval =
  float_of_real_numeral float_of_real_neg_numeral float_of_real_0
  round_half_even_numeral round_half_even_neg_numeral

lemma infer_gap_example:
  "infer_gap_pt [(Finite 100, Finite 200), (Finite 100, Finite 200), (Finite 100, Finite 200)]
     [(Finite 210, Finite 200), (Finite 210, Finite 200), (Finite 210, Finite 200)] = Finite 10"
  by (simp add: infer_gap_pt_def median_def py_sorted_def py_max_def fsub_def Let_def float_eval)

lemma flt_imp_fle: "flt a b \<Longrightarrow> fle a b"
  by (cases a; cases b) simp_all

lemma float_of_real_not_nan: "float_of_real x \<noteq> NaN"
  by (simp add: float_of_real_def Let_def)

lemma gap_candidates_nonnegative:
  "g \<in> set (gap_candidates source_sizes result_sizes) \<Longrightarrow> fle (Finite 0) g"
  by (induction source_sizes result_sizes rule: gap_candidates.induct)
    (auto simp: Let_def py_max_def flt_imp_fle split: if_splits)

lemma gap_candidates_no_nan: "NaN \<notin> set (gap_candidates source_sizes result_sizes)"
  using gap_candidates_nonnegative [of NaN] by auto

text \<open>
  The arithmetic is that of doubles: \<open>round(0.015, 2)\<close> is \<open>0.01\<close> (the float \<open>0.015\<close> lies
  below the decimal), and for source widths 100, 100 and merged widths 200.01, 200.02 the
  candidates are the floats 0.01 and 0.02, their median is the float 0.015, and the gap is
  0.01.
\<close>

lemma py_round2_0_015: "py_round2 (float_of_real (15 / 1000)) = float_of_real (1 / 100)"
  using float_of_real_eval [of "-59" "15 / 1000"] float_of_real_eval [of "-59" "1 / 100"]
  by (simp add: round_half_even_def)

lemma infer_gap_pt_double_rounding:
  "infer_gap_pt [(Finite 100, Finite 200), (Finite 100, Finite 200)]
     [(float_of_real (20001 / 100), Finite 200), (float_of_real (20002 / 100), Finite 200)]
   = float_of_real (1 / 100)"
  using float_of_real_eval [of "-45" "20001 / 100"] float_of_real_eval [of "-45" "20002 / 100"]
    float_of_real_eval [of "-59" "43980465111 / 4398046511104"]
    float_of_real_eval [of "-58" "703687441777 / 35184372088832"]
    float_of_real_eval [of "-59" "1 / 100"] float_of_real_eval [of "-58" "2 / 100"]
    float_of_real_eval [of "-58" "5764607523034235 / 576460752303423488 + 5764607523034235 / 288230376151711744"]
    float_of_real_eval [of "-59" "1080863910568919 / 72057594037927936"]
  by (simp add: infer_gap_pt_def median_def py_sorted_def py_max_def fsub_def Let_def float_eval
      round_half_even_def)

lemma replace_loop_from:
  assumes "\<forall>j. i \<le> j \<and> j < k \<longrightarrow> os j = Denied" "os k = Replaced" "i \<le> k" "k < mr"
  shows "replace_loop os src dst mr d [i..<mr] w
    = (Inr True, w\<lparr>files := rename_file (files w) src dst,
                    slept := slept w @ map (\<lambda>j. d * 2 ^ j) [i..<k]\<rparr>)"
  using assms
proof (induction "k - i" arbitrary: i w)
  case 0
  then have "i = k" by simp
  with 0 show ?case by (simp add: upt_conv_Cons)
next
  case (Suc n)
  let ?w' = "w\<lparr>slept := slept w @ [d * 2 ^ i]\<rparr>"
  from Suc have lt: "i < k" and den: "os i = Denied" by auto
  with Suc.prems have im: "i < mr" "Suc i \<noteq> mr" by auto
  have n: "n = k - Suc i" using Suc.hyps(2) by simp
  have d': "\<forall>j. Suc i \<le> j \<and> j < k \<longrightarrow> os j = Denied" using Suc.prems(1) by simp
  have le: "Suc i \<le> k" using lt by simp
  have ih: "replace_loop os src dst mr d [Suc i..<mr] ?w'
    = (Inr True, ?w'\<lparr>files := rename_file (files ?w') src dst,
          slept := slept ?w' @ map (\<lambda>j. d * 2 ^ j) [Suc i..<k]\<rparr>)"
    by (rule Suc.hyps(1) [OF n d' Suc.prems(2) le Suc.prems(4)])
  show ?case
    using den im lt ih by (simp add: upt_conv_Cons)
qed

lemma replace_first_success:
  assumes "\<forall>j < k. os j = Denied" "os k = Replaced" "k < mr"
  shows "atomic_replace_with_retry os src dst mr d w
    = (Inr True, w\<lparr>files := rename_file (files w) src dst,
                    slept := slept w @ map (\<lambda>j. d * 2 ^ j) [0..<k]\<rparr>)"
  unfolding atomic_replace_with_retry_def
  using assms by (intro replace_loop_from) auto

lemma replace_loop_denied:
  assumes "\<forall>j. i \<le> j \<and> j < mr \<longrightarrow> os j = Denied" "i < mr"
  shows "replace_loop os src dst mr d [i..<mr] w
    = (Inr False, w\<lparr>slept := slept w @ map (\<lambda>j. d * 2 ^ j) [i..<mr - 1]\<rparr>)"
  using assms
proof (induction "mr - i" arbitrary: i w)
  case 0
  then show ?case by simp
next
  case (Suc n)
  let ?w' = "w\<lparr>slept := slept w @ [d * 2 ^ i]\<rparr>"
  from Suc have den: "os i = Denied" by auto
  show ?case
  proof (cases "Suc i = mr")
    case True
    with den Suc.prems show ?thesis by (simp add: upt_conv_Cons)
  next
    case False
    with Suc.prems have lt: "Suc i < mr" by simp
    have n: "n = mr - Suc i" using Suc.hyps(2) by simp
    have d': "\<forall>j. Suc i \<le> j \<and> j < mr \<longrightarrow> os j = Denied" using Suc.prems(1) by simp
    have ih: "replace_loop os src dst mr d [Suc i..<mr] ?w'
      = (Inr False, ?w'\<lparr>slept := slept ?w' @ map (\<lambda>j. d * 2 ^ j) [Suc i..<mr - 1]\<rparr>)"
      by (rule Suc.hyps(1) [OF n d' lt])
    have u: "[i..<mr - 1] = i # [Suc i..<mr - 1]"
      using lt by (simp add: upt_conv_Cons)
    show ?thesis
      using den False Suc.prems ih by (simp add: upt_conv_Cons u)
  qed
qed

lemma replace_exhausted:
  assumes "\<forall>j < mr. os j = Denied"
  shows "atomic_replace_with_retry os src dst mr d w
    = (Inr False, w\<lparr>slept := slept w @ map (\<lambda>j. d * 2 ^ j) [0..<mr - 1]\<rparr>)"
proof (cases "mr = 0")
  case True
  then show ?thesis by (simp add: atomic_replace_with_retry_def)
next
  case False
  then show ?thesis
    unfolding atomic_replace_with_retry_def using assms by (intro replace_loop_denied) auto
qed

lemma replace_loop_raises_only_os:
  "fst (replace_loop os src dst mr d is w) = Inl e \<Longrightarrow> \<exists>j. os j = Failed e"
  by (induction "is" arbitrary: w) (auto split: replace_outcome.splits if_splits)

subsection \<open>Merge and split geometry\<close>

lemma rect_width_Rect: "rect_width (Rect a b c d) = c - a"
  by (simp add: rect_width_def Rect_def)

lemma rect_height_Rect: "rect_height (Rect a b c d) = d - b"
  by (simp add: rect_height_def Rect_def)

lemma merged_page_positive:
  "positive_page pg \<Longrightarrow> 0 \<le> gap \<Longrightarrow> positive_page (merged_page gap right_doc i pg)"
  by (simp add: positive_page_def merged_page_def Let_def rect_width_Rect rect_height_Rect)

lemma set_all_page_boxes_ok:
  "rect_nonempty r \<Longrightarrow>
   set_all_page_boxes pg r = pg\<lparr>mediabox := r, cropbox := r, trimbox := r, bleedbox := r\<rparr>"
  by (simp add: set_all_page_boxes_def try_set_def set_mediabox_def set_cropbox_def
      set_trimbox_def set_bleedbox_def rect_inside_def)

lemma merge_page_geometry:
  assumes "positive_page pg" "0 \<le> gap" "i < length right_doc"
  shows "merge_page gap right_doc i pg = Inr (merged_page gap right_doc i pg)"
proof -
  let ?lw = "rect_width (cropbox pg)" and ?lh = "rect_height (cropbox pg)"
  from assms(1) have pos: "0 < ?lw" "0 < ?lh" by (simp_all add: positive_page_def)
  have w: "rect_width (page_rect pg) = ?lw" and h: "rect_height (page_rect pg) = ?lh"
    by (simp_all add: page_rect_def Rect_def rect_width_def rect_height_def)
  have ne: "rect_nonempty (Rect 0 0 (2 * ?lw + gap) ?lh)"
    using pos assms(2) by (simp add: rect_nonempty_def Rect_def)
  have ne': "rect_nonempty (Rect (?lw + gap) 0 (2 * ?lw + gap) ?lh)"
    using pos by (simp add: rect_nonempty_def Rect_def)
  show ?thesis
    using assms(3) ne'
    by (simp add: merge_page_def w h Let_def set_all_page_boxes_ok [OF ne] show_pdf_page_def
        merged_page_def)
qed

lemma merge_loop_from:
  assumes "\<forall>pg \<in> set out. positive_page pg" "0 \<le> gap" "length right_doc = length out" "i \<le> length out"
  shows "merge_loop gap right_doc [i..<length out] out
     = Inr (take i out @ map (\<lambda>j. merged_page gap right_doc j (out ! j)) [i..<length out])"
  using assms(1,3,4)
proof (induction "length out - i" arbitrary: i out)
  case 0
  then show ?case by simp
next
  case (Suc n)
  then have lt: "i < length out" by simp
  let ?pg = "merged_page gap right_doc i (out ! i)"
  let ?out' = "out[i := ?pg]"
  have step: "merge_page gap right_doc i (out ! i) = Inr ?pg"
    using Suc.prems lt assms(2) by (intro merge_page_geometry) auto
  have pos': "\<forall>pg \<in> set ?out'. positive_page pg"
  proof
    fix pg assume "pg \<in> set ?out'"
    then have "pg = ?pg \<or> pg \<in> set out" using set_update_subset_insert by fastforce
    moreover have "positive_page (out ! i)"
      using Suc.prems(1) nth_mem [OF lt] by blast
    then have "positive_page ?pg"
      using assms(2) by (rule merged_page_positive)
    ultimately show "positive_page pg" using Suc.prems(1) by auto
  qed
  have n: "n = length ?out' - Suc i" using Suc.hyps(2) by simp
  have ih: "merge_loop gap right_doc [Suc i..<length ?out'] ?out'
     = Inr (take (Suc i) ?out' @ map (\<lambda>j. merged_page gap right_doc j (?out' ! j)) [Suc i..<length ?out'])"
    using Suc.prems lt by (intro Suc.hyps(1) [OF n pos']) auto
  have t: "take (Suc i) ?out' = take i out @ [?pg]"
    using lt by (simp add: take_Suc_conv_app_nth)
  have m: "map (\<lambda>j. merged_page gap right_doc j (?out' ! j)) [Suc i..<length out]
         = map (\<lambda>j. merged_page gap right_doc j (out ! j)) [Suc i..<length out]"
    by (rule map_cong) auto
  show ?case
    using lt step ih t m by (simp add: upt_conv_Cons)
qed

lemma merge_concat_mismatch:
  assumes "fs l = Some ld" "fs r = Some rd" "length (pages ld) \<noteq> length (pages rd)"
  shows "merge_preserve_left_annotations fs l r out gap = Inl page_count_mismatch"
  using assms by (simp add: merge_preserve_left_annotations_def fitz_open_def)

lemma merge_concat_pages:
  assumes "fs l = Some ld" "fs r = Some rd" "length (pages ld) = length (pages rd)"
    "pages ld \<noteq> []" "\<forall>pg \<in> set (pages ld). positive_page pg" "0 \<le> gap"
  shows "merge_preserve_left_annotations fs l r out gap
     = Inr (fs(out \<mapsto> \<lparr> pages = map (\<lambda>j. merged_page gap (pages rd) j (pages ld ! j)) [0..<length (pages ld)],
                         embfiles = [], can_save_incr = True \<rparr>))"
proof -
  have rn: "pages rd \<noteq> []" using assms(3,4) by (metis length_0_conv)
  have "merge_loop gap (pages rd) [0..<length (pages ld)] (pages ld)
     = Inr (take 0 (pages ld) @ map (\<lambda>j. merged_page gap (pages rd) j (pages ld ! j)) [0..<length (pages ld)])"
    using assms by (intro merge_loop_from) auto
  then show ?thesis
    using assms rn by (simp add: merge_preserve_left_annotations_def fitz_open_def insert_pdf_into_new_def
        save_pdf_def)
qed

lemma split_page_of_merged:
  assumes "positive_page pg"
  shows "split_page (merged_page 0 right_doc i pg)
     = (merged_page 0 right_doc i pg)\<lparr>mediabox := page_rect pg, cropbox := page_rect pg,
          trimbox := page_rect pg, bleedbox := page_rect pg\<rparr>"
proof -
  let ?lw = "rect_width (cropbox pg)" and ?lh = "rect_height (cropbox pg)"
  from assms have pos: "0 < ?lw" "0 < ?lh" by (simp_all add: positive_page_def)
  have c: "cropbox (merged_page 0 right_doc i pg) = Rect 0 0 (2 * ?lw) ?lh"
    by (simp add: merged_page_def Let_def)
  have ne: "rect_nonempty (Rect 0 0 ?lw ?lh)" using pos by (simp add: rect_nonempty_def Rect_def)
  have "split_page (merged_page 0 right_doc i pg)
      = set_all_page_boxes (merged_page 0 right_doc i pg) (Rect 0 0 ?lw ?lh)"
    by (simp add: split_page_def page_rect_def c Let_def rect_width_Rect rect_height_Rect)
  then show ?thesis
    by (simp add: set_all_page_boxes_ok [OF ne] page_rect_def)
qed

lemma split_page_keeps_annots:
  "annots (split_page pg) = annots pg"
  by (simp add: split_page_def set_all_page_boxes_def try_set_def set_mediabox_def set_cropbox_def
      set_trimbox_def set_bleedbox_def Let_def)

lemma merged_page_keeps_annots: "annots (merged_page gap right_doc i pg) = annots pg"
  by (simp add: merged_page_def Let_def)

lemma split_raises: "extract_left_half_from_merged_pdf fs merged out = Inl (NameError (ustr ''name open_pdf is not defined''))"
  by (simp add: extract_left_half_from_merged_pdf_def lookup_name_def extract_left_half_locals_def
     pdf_splitter_names_def)

lemma replace_always_denied: "atomic_replace_with_retry (always_denied dst) src dst 10 (1 / 10) smith_world
  = (Inr False, smith_world\<lparr>slept := [1/10, 1/5, 2/5, 4/5, 8/5, 16/5, 32/5, 64/5, 128/5]\<rparr>)"
  by (simp add: atomic_replace_with_retry_def always_denied_def smith_world_def upt_rec)

subsection \<open>The unbound name in the batch merge\<close>

lemma overwrite_path_unbound:
  "lookup_name merge_pdfs_locals pdf_batch_translator_names ''overwrite_path''
     = Inl (NameError (ustr ''name overwrite_path is not defined''))"
  by (simp add: lookup_name_def merge_pdfs_locals_def pdf_batch_translator_names_def)

lemma merge_pdfs_mismatch:
  assumes "files w (path_str l) = Some ld" "files w (path_str r) = Some rd"
    "length (pages ld) \<noteq> length (pages rd)"
  shows "merge_pdfs_preserve_annotations uuid os_replace os_unlink w l r out gap
           = (Inl page_count_mismatch, w)"
  using assms by (simp add: merge_pdfs_preserve_annotations_def fitz_open_def)

lemma merge_pdfs_always_raises:
  "\<exists>e. merge_pdfs_preserve_annotations uuid os_replace os_unlink w l r out gap = (Inl e, w)"
  by (simp add: merge_pdfs_preserve_annotations_def overwrite_path_unbound
      split: sum.split)

subsection \<open>A ledger key that starts with white space\<close>

lemma py_strip_leading_space:
  "cp_isspace db c \<Longrightarrow> py_strip db (c # s) = py_strip db s"
  by (simp add: py_strip_def)

lemma spaced_line_read:
  assumes "ascii_compatible db" "clean_key db q"
  shows "read_lines db (ledger_line (32 # q, n) # rest) acc
           = read_lines db rest (AList.update q n acc)"
proof -
  from assms(1) have sp: "cp_isspace db 32"
    by (simp add: ascii_compatible_def ascii_isspace_def)
  have "py_strip db (ledger_line (32 # q, n)) = py_strip db (ledger_line (q, n))"
    using py_strip_leading_space [OF sp] by (simp add: ledger_line_def)
  also have "\<dots> = q @ [comma] @ str_nat n"
    unfolding ledger_line_def
    using py_strip_line [OF assms str_nat_digits str_nat_nonempty, of n] by simp
  finally have s: "py_strip db (ledger_line (32 # q, n)) = q @ [comma] @ str_nat n" .
  have r: "rsplit1 comma (q @ [comma] @ str_nat n) = [q, str_nat n]"
    by (rule rsplit1_key_digits) (rule comma_not_digit [OF str_nat_digits])
  show ?thesis
    using s r assms(1) by (simp add: str_isdigit_str_nat py_int_str_nat)
qed

lemma read_lines_Nil: "read_lines db [] acc = acc"
  by simp

lemma spaced_key_smaller: "q \<noteq> [] \<Longrightarrow> 32 < hd q \<Longrightarrow> \<not> q \<le> 32 # (q :: ustring)"
  by (cases q) auto

lemma spaced_key_run:
  assumes "ascii_compatible db" "clean_key db q" "q \<noteq> []" "32 < hd q"
    "ledger_writable f" "read_failure_counts db f = [] \<or> read_failure_counts db f = [(q, 1)]"
    "utf8_encodable q"
  shows "read_failure_counts db (failing_run db (32 # q) f) = [(q, 1)] \<and>
         ledger_writable (failing_run db (32 # q) f)"
proof -
  from assms(2) have nl: "10 \<notin> set q" and cr: "13 \<notin> set q" by (simp_all add: clean_key_def)
  have ne: "32 # q \<noteq> q" by simp
  have "utf8_encodable (32 # q)"
    using assms(7) by (simp add: utf8_encodable_def)
  with assms(7)
  have en: "utf8_encodable (ledger_line (32 # q, n))" "utf8_encodable (ledger_line (q, n))" for n
    by (simp_all add: ledger_line_encodable)
  from assms(6) show ?thesis
  proof
    assume e: "read_failure_counts db f = []"
    have t: "failing_run db (32 # q) f = f\<lparr>ledger_text := Some (ledger_line (32 # q, 1))\<rparr>"
      using assms(5) e en by (simp add: failing_run_def increment_and_write_failure_def counts_get_def)
    have u: "universal_newlines (ledger_line (32 # q, n)) = ledger_line (32 # q, n)" for n
      using cr by (intro universal_newlines_id ledger_line_no_cr) simp
    have l: "py_lines (ledger_line (32 # q, n)) = [ledger_line (32 # q, n)]" for n
      using py_lines_ledger_line [of "(32 # q, n)" "[]"] nl by simp
    show ?thesis
      using assms(5)
      by (simp del: read_lines.simps
          add: t read_failure_counts_def u l spaced_line_read [OF assms(1,2)] read_lines_Nil)
  next
    assume e: "read_failure_counts db f = [(q, 1)]"
    have t: "failing_run db (32 # q) f
        = f\<lparr>ledger_text := Some (ledger_line (32 # q, 1) @ ledger_line (q, 1))\<rparr>"
      using assms(5) e ne en spaced_key_smaller [OF assms(3,4)]
      by (simp add: failing_run_def increment_and_write_failure_def counts_get_def Let_def)
    have "13 \<notin> set (ledger_line (32 # q, n))" "13 \<notin> set (ledger_line (q, m))" for n m
      using cr by (auto intro!: ledger_line_no_cr)
    then have u: "universal_newlines (ledger_line (32 # q, n) @ ledger_line (q, m))
        = ledger_line (32 # q, n) @ ledger_line (q, m)" for n m
      by (intro universal_newlines_id) simp
    have l: "py_lines (ledger_line (32 # q, n) @ ledger_line (q, m))
        = [ledger_line (32 # q, n), ledger_line (q, m)]" for n m
      using py_lines_ledger_line [of "(32 # q, n)" "ledger_line (q, m)"]
        py_lines_ledger_line [of "(q, m)" "[]"] nl by simp
    have r: "read_lines db [ledger_line (q, m)] acc = AList.update q m acc" for acc m
      using read_lines_written [OF assms(1), of "[(q, m)]" acc] assms(2) by simp
    show ?thesis
      using assms(5)
      by (simp del: read_lines.simps
          add: t read_failure_counts_def u l spaced_line_read [OF assms(1,2)] r)
  qed
qed

lemma spaced_key_three_runs:
  assumes "ascii_compatible db" "clean_key db q" "q \<noteq> []" "32 < hd q" "utf8_encodable q"
  shows "read_failure_counts db (three_failing_runs db (32 # q) empty_ledger) = [(q, 1)]"
proof -
  have w0: "ledger_writable empty_ledger" and r0: "read_failure_counts db empty_ledger = []"
    by (simp_all add: empty_ledger_def read_failure_counts_def)
  note s1 = spaced_key_run [OF assms(1-4) w0 disjI1 [OF r0] assms(5)]
  note s2 = spaced_key_run [OF assms(1-4) conjunct2 [OF s1] disjI2 [OF conjunct1 [OF s1]] assms(5)]
  note s3 = spaced_key_run [OF assms(1-4) conjunct2 [OF s2] disjI2 [OF conjunct1 [OF s2]] assms(5)]
  from s3 show ?thesis by (simp add: three_failing_runs_def)
qed

lemma spaced_chain:
  "should_exclude_from_processing all_on_config ascii_db spaced_env spaced_path []
     [(ustr ''Smith-2023-Title.pdf'', 1)]
     = (Inr None, [1, 2, 3, 4, 5, 6, 7, 8, 9, 10, 11, 12])"
  by (simp add: example_defs chain_defs ascii_defs)

text \<open>
  Counterexample to claim C5 as stated: for a file in the current directory whose name
  starts with a space, three failing runs on a fresh, writable ledger leave no count under
  the document's own path (the reader strips each line, so the count is kept under the
  path without the space, and it stays 1); the chain then does not exclude the document.
\<close>

theorem ledger_breaker_counterexample:
  "counts_get (read_failure_counts ascii_db
                 (three_failing_runs ascii_db (path_str spaced_path) empty_ledger))
     (path_str spaced_path) 0 = 0 \<and>
   should_exclude_from_processing all_on_config ascii_db spaced_env spaced_path []
     (read_failure_counts ascii_db (three_failing_runs ascii_db (path_str spaced_path) empty_ledger))
     = (Inr None, [1, 2, 3, 4, 5, 6, 7, 8, 9, 10, 11, 12])"
proof -
  have p: "path_str spaced_path = 32 # ustr ''Smith-2023-Title.pdf''"
    by (simp add: path_str_def spaced_path_def ustr_def)
  have k: "clean_key ascii_db (ustr ''Smith-2023-Title.pdf'')"
    by (simp add: clean_key_def ustr_def ascii_defs)
  have r: "read_failure_counts ascii_db
             (three_failing_runs ascii_db (path_str spaced_path) empty_ledger)
           = [(ustr ''Smith-2023-Title.pdf'', 1)]"
    unfolding p
    by (rule spaced_key_three_runs [OF ascii_compatible_ascii_db k])
      (simp_all add: ustr_def utf8_encodable_def)
  show ?thesis
    unfolding r using spaced_chain by (simp add: counts_get_def p ustr_def)
qed

section \<open>The claims\<close>

text \<open>
  Claim C1 (the code departs from it). The candidate \<open>Smith-<2023 in superscript
  digits>-Title.pdf\<close> passes rules 1 to 7; in rule 8 the year part satisfies
  \<open>year.isdigit()\<close>, \<open>int(year)\<close> refuses it, and the \<open>ValueError\<close> leaves the evaluator:
  it returns neither a tag nor non-exclusion, and rules 9 to 12 are not evaluated (by the
  name rule of the specification the name is a bad pattern, which rule 8 should report). The
  same candidate with the year in ASCII digits goes through all twelve rules and is not
  excluded.
\<close>

theorem exclusion_chain_value_error:
  "path_stem (path_name superscript_path) = ustr ''Smith-'' @ superscript_year @ ustr ''-Title'' \<and>
   \<not> name_pattern_rule superscript_db (path_stem (path_name superscript_path)) \<and>
   str_isdigit superscript_db superscript_year \<and>
   py_int superscript_db superscript_year = Inl (ValueError (ustr ''invalid literal for int()'')) \<and>
   should_exclude_from_processing all_on_config superscript_db superscript_env superscript_path [] []
     = (Inl (ValueError (ustr ''invalid literal for int()'')), [1, 2, 3, 4, 5, 6, 7, 8]) \<and>
   should_exclude_from_processing all_on_config superscript_db readable_env smith_path [] []
     = (Inr None, [1, 2, 3, 4, 5, 6, 7, 8, 9, 10, 11, 12])"
proof -
  have s: "path_stem (path_name superscript_path) = ustr ''Smith-'' @ superscript_year @ ustr ''-Title''"
    by (simp add: superscript_path_def superscript_year_def path_stem_def ustr_def Let_def)
  have "\<not> name_pattern_rule superscript_db (ustr ''Smith-'' @ superscript_year @ ustr ''-Title'')"
    by (simp add: name_pattern_rule_def superscript_year_def superscript_db_def dash_def ustr_def
        ascii_defs)
  with s superscript_year_isdigit superscript_year_int superscript_chain smith_chain_superscript_db
  show ?thesis by (simp only: simp_thms)
qed

text \<open>
  Claim C2 (the code departs from it). On two one-page documents of equal page count the
  merge of the batch translator extends the page in memory and then reads the unbound
  name \<open>overwrite_path\<close>: it raises \<open>NameError\<close> and no file is written or changed.
\<close>

theorem merge_pdfs_preserve_annotations_name_error:
  "merge_pdfs_preserve_annotations (ustr ''0a1b2c3d'') (\<lambda>dst attempt. Replaced) (\<lambda>attempt. True)
      smith_world smith_path smith_mono_path smith_path 0
     = (Inl (NameError (ustr ''name overwrite_path is not defined'')), smith_world)"
  by (simp add: merge_pdfs_preserve_annotations_def fitz_open_def smith_world_def smith_files_def
    smith_path_def smith_mono_path_def path_str_def ustr_def
    annotated_doc_def translated_doc_def plain_page_def insert_pdf_into_new_def merge_page_def page_rect_def
    rect_width_def rect_height_def Rect_def set_all_page_boxes_def try_set_def set_mediabox_def set_cropbox_def
    set_trimbox_def set_bleedbox_def rect_nonempty_def rect_inside_def show_pdf_page_def
    lookup_name_def merge_pdfs_locals_def pdf_batch_translator_names_def Let_def)

text \<open>
  Claim C3 (the code departs from it). The file that \<open>concatePDF\<close> merges from the example
  pair with no gap exists, and the split applied to it raises \<open>NameError\<close> at its first
  statement, the call of the unbound name \<open>open_pdf\<close>: nothing is restored.
\<close>

theorem extract_left_half_name_error:
  "merge_preserve_left_annotations smith_files (path_str smith_path) (path_str smith_mono_path)
      smith_merged_path 0 = Inr smith_merged_files \<and>
   smith_merged_files smith_merged_path \<noteq> None \<and>
   extract_left_half_from_merged_pdf smith_merged_files smith_merged_path
      (ustr ''out/Smith-2023-Title_restored.pdf'')
     = Inl (NameError (ustr ''name open_pdf is not defined''))"
proof -
  have pos: "\<forall>pg \<in> set (pages annotated_doc). positive_page pg"
    by (simp add: annotated_doc_def plain_page_def positive_page_def rect_width_Rect rect_height_Rect)
  have l: "smith_files (path_str smith_path) = Some annotated_doc"
    by (simp add: smith_files_def smith_path_def smith_mono_path_def path_str_def ustr_def)
  have r: "smith_files (path_str smith_mono_path) = Some translated_doc"
    by (simp add: smith_files_def smith_path_def smith_mono_path_def path_str_def ustr_def)
  have m: "merge_preserve_left_annotations smith_files (path_str smith_path)
      (path_str smith_mono_path) smith_merged_path 0
     = Inr (smith_files(smith_merged_path \<mapsto>
         \<lparr> pages = map (\<lambda>j. merged_page 0 (pages translated_doc) j (pages annotated_doc ! j))
                     [0..<length (pages annotated_doc)],
           embfiles = [], can_save_incr = True \<rparr>))"
    using l r pos by (intro merge_concat_pages) (simp_all add: annotated_doc_def translated_doc_def)
  then have "merge_preserve_left_annotations smith_files (path_str smith_path)
      (path_str smith_mono_path) smith_merged_path 0 = Inr smith_merged_files"
    by (simp add: smith_merged_files_def)
  moreover from m have "smith_merged_files smith_merged_path \<noteq> None"
    by (simp add: smith_merged_files_def)
  ultimately show ?thesis by (simp add: split_raises)
qed

text \<open>
  Counterexample to claim C4 as stated: the document the batch translator has stamped carries
  the canonical attachment once, and \<open>embed_original_file_attachment\<close> on it reports a
  failure with the library's message, not \<open>already_exists\<close>.
\<close>

theorem embed_original_file_attachment_counterexample:
  "attachment_count batch_stamped_files (path_str smith_path) meta_name = 1 \<and>
   fst (embed_original_file_attachment batch_stamped_files (path_str smith_path)
          (path_str smith_backup_path) (path_name smith_backup_path) JNull)
     = (False, ustr ''Name already exists.'') \<and>
   fst (embed_original_file_attachment batch_stamped_files (path_str smith_path)
          (path_str smith_backup_path) (path_name smith_backup_path) JNull)
     \<noteq> (True, ustr ''already_exists'')"
proof -
  have "attachment_count batch_stamped_files (path_str smith_path) meta_name = 1"
    by (simp add: attachment_count_def batch_stamped_files_def embed_original_file_attachment_def
        embfile_names_def embfile_add_def saveIncr_def create_translation_metadata_def
        add_file_annot_def example_defs chain_defs)
  then show ?thesis by (simp add: batch_stamp_embed_again)
qed

text \<open>
  Claim C4, amended. On a document that already carries an attachment named
  \<open>pdf2zh.meta.json\<close>, \<open>embed_metadata_attachment\<close> reports \<open>already_exists\<close> and changes
  nothing, while \<open>embed_original_file_attachment\<close>, which has no such test, reports a failure
  and changes nothing either. After a call of \<open>embed_metadata_attachment\<close> that reports success
  on a document with distinct attachment names the file carries exactly one canonical
  attachment, and a second call reports \<open>already_exists\<close> and changes nothing.
\<close>

theorem embed_metadata_attachment_idempotent:
  "(fs p = Some d \<and> meta_name \<in> set (embfile_names d) \<longrightarrow>
      embed_metadata_attachment fs p m = ((True, ustr ''already_exists''), fs) \<and>
      embed_original_file_attachment fs p orig nm m = ((False, ustr ''Name already exists.''), fs)) \<and>
   (fs p = Some d \<and> distinct (embfile_names d) \<and> fst (fst (embed_metadata_attachment fs p m)) \<longrightarrow>
      attachment_count (snd (embed_metadata_attachment fs p m)) p meta_name = 1 \<and>
      embed_metadata_attachment (snd (embed_metadata_attachment fs p m)) p m'
        = ((True, ustr ''already_exists''), snd (embed_metadata_attachment fs p m)))"
proof (intro conjI impI)
  assume a: "fs p = Some d \<and> meta_name \<in> set (embfile_names d)"
  then show "embed_metadata_attachment fs p m = ((True, ustr ''already_exists''), fs)"
    using embed_existing [of fs p d m] by simp
next
  assume a: "fs p = Some d \<and> meta_name \<in> set (embfile_names d)"
  then show "embed_original_file_attachment fs p orig nm m
      = ((False, ustr ''Name already exists.''), fs)"
    using embed_original_existing [of fs p d orig nm m] by simp
next
  assume a: "fs p = Some d \<and> distinct (embfile_names d) \<and>
    fst (fst (embed_metadata_attachment fs p m))"
  then show "attachment_count (snd (embed_metadata_attachment fs p m)) p meta_name = 1"
    using embed_success_once(1) [of fs p d m] by simp
next
  assume a: "fs p = Some d \<and> distinct (embfile_names d) \<and>
    fst (fst (embed_metadata_attachment fs p m))"
  then show "embed_metadata_attachment (snd (embed_metadata_attachment fs p m)) p m'
        = ((True, ustr ''already_exists''), snd (embed_metadata_attachment fs p m))"
    using embed_success_once(2) [of fs p d m m'] by simp
qed

theorem embed_metadata_attachment_idempotent_witness:
  "smith_files (path_str smith_path) = Some annotated_doc \<and>
   distinct (embfile_names annotated_doc) \<and>
   fst (fst (embed_metadata_attachment smith_files (path_str smith_path) JNull)) \<and>
   attachment_count (snd (embed_metadata_attachment smith_files (path_str smith_path) JNull))
     (path_str smith_path) meta_name = 1 \<and>
   embed_metadata_attachment (snd (embed_metadata_attachment smith_files (path_str smith_path) JNull))
     (path_str smith_path) JNull
     = ((True, ustr ''already_exists''),
        snd (embed_metadata_attachment smith_files (path_str smith_path) JNull))"
proof -
  have l: "smith_files (path_str smith_path) = Some annotated_doc"
    by (simp add: smith_files_def smith_path_def smith_mono_path_def path_str_def ustr_def)
  have d: "distinct (embfile_names annotated_doc)"
    by (simp add: embfile_names_def annotated_doc_def)
  have ok: "fst (fst (embed_metadata_attachment smith_files (path_str smith_path) JNull))"
    by (simp add: embed_metadata_attachment_def fitz_open_def l embfile_names_def embfile_add_def
        saveIncr_def annotated_doc_def)
  from embed_metadata_attachment_idempotent
    [of smith_files "path_str smith_path" annotated_doc JNull "[]" "[]" JNull]
  have "attachment_count (snd (embed_metadata_attachment smith_files (path_str smith_path) JNull))
     (path_str smith_path) meta_name = 1 \<and>
   embed_metadata_attachment (snd (embed_metadata_attachment smith_files (path_str smith_path) JNull))
     (path_str smith_path) JNull
     = ((True, ustr ''already_exists''),
        snd (embed_metadata_attachment smith_files (path_str smith_path) JNull))"
    using l d ok by (simp only: simp_thms)
  with l d ok show ?thesis by (simp only: simp_thms)
qed

text \<open>
  Claim C5, amended. For every document whose path text has no line break, does not start
  with white space and holds no surrogate code point, and a ledger file that can be written
  and, when it exists, is valid UTF-8: after three runs that each read the ledger, count one
  more failure of the document and rewrite the file sorted by key, the ledger read afresh
  holds the document's earlier count plus three, and the exclusion chain returns
  \<open>too_many_failures\<close> after evaluating rule 1 only.
\<close>

theorem ledger_breaker_clean_paths:
  assumes "ascii_compatible db" "clean_key db (path_str p)" "utf8_encodable (path_str p)"
    "ledger_writable f" "ledger_valid_utf8 f"
  shows "counts_get (read_failure_counts db (three_failing_runs db (path_str p) f)) (path_str p) 0
           = counts_get (read_failure_counts db f) (path_str p) 0 + 3 \<and>
         should_exclude_from_processing cfg db env p kws
           (read_failure_counts db (three_failing_runs db (path_str p) f))
           = (Inr (Some TooManyFailures), [1])"
proof -
  have c: "counts_get (read_failure_counts db (three_failing_runs db (path_str p) f)) (path_str p) 0
           = counts_get (read_failure_counts db f) (path_str p) 0 + 3"
    by (rule three_failing_runs_count [OF assms])
  have "evaluated cfg 1 = [1]"
    by (simp add: evaluated_def rule_enabled_def)
  with c show ?thesis
    by (simp add: should_exclude_from_processing_def Let_def)
qed

theorem ledger_breaker_clean_paths_witness:
  "ascii_compatible ascii_db \<and> clean_key ascii_db (path_str smith_path) \<and>
   utf8_encodable (path_str smith_path) \<and>
   ledger_writable empty_ledger \<and> ledger_valid_utf8 empty_ledger \<and>
   counts_get (read_failure_counts ascii_db
       (three_failing_runs ascii_db (path_str smith_path) empty_ledger)) (path_str smith_path) 0 = 3 \<and>
   should_exclude_from_processing all_on_config ascii_db readable_env smith_path []
     (read_failure_counts ascii_db (three_failing_runs ascii_db (path_str smith_path) empty_ledger))
     = (Inr (Some TooManyFailures), [1])"
proof -
  have k: "clean_key ascii_db (path_str smith_path)"
    by (simp add: clean_key_def smith_path_def path_str_def ustr_def ascii_defs)
  have u: "utf8_encodable (path_str smith_path)"
    by (simp add: utf8_encodable_def smith_path_def path_str_def ustr_def)
  have w: "ledger_writable empty_ledger"
    by (simp add: empty_ledger_def)
  have v: "ledger_valid_utf8 empty_ledger"
    by (simp add: empty_ledger_def ledger_valid_utf8_def)
  have z: "counts_get (read_failure_counts ascii_db empty_ledger) (path_str smith_path) 0 = 0"
    by (simp add: empty_ledger_def read_failure_counts_def counts_get_def)
  from ledger_breaker_clean_paths [OF ascii_compatible_ascii_db k u w v,
      of all_on_config readable_env "[]"] k u w v z ascii_compatible_ascii_db
  show ?thesis by (simp only: simp_thms add_0)
qed

text \<open>
  Claim C6 (the code departs from it). A document stamped \<open>translated\<close> by the pair manager
  (\<open>build_translated_meta\<close>) or by the orphan manager (\<open>create_metadata\<close>) keeps the status
  under the key \<open>pdf2zh\<close>, then \<open>status\<close>; the reader looks for the key \<open>pdf2zh.status\<close>,
  finds none, and reports an unknown status, so the chain does not exclude the document the
  orphan manager has stamped. Only the stamp of the batch translator
  (\<open>create_translation_metadata\<close>) is read back as translated.
\<close>

theorem nested_status_not_read_as_translated:
  "check_translation_metadata_status (pdf_files pair_stamped_env) (path_str smith_path)
     = (False, UnknownStatus (JStr [])) \<and>
   check_translation_metadata_status orphan_stamped_files (path_str smith_path)
     = (False, UnknownStatus (JStr [])) \<and>
   should_exclude_from_processing all_on_config ascii_db orphan_stamped_env smith_path [] []
     = (Inr None, [1, 2, 3, 4, 5, 6, 7, 8, 9, 10, 11, 12]) \<and>
   check_translation_metadata_status batch_stamped_files (path_str smith_path)
     = (True, AlreadyTranslated)"
  using pair_stamp_read_back orphan_stamp_read_back orphan_stamp_chain batch_stamp_read_back
  by (simp only: simp_thms)

text \<open>
  Counterexample to claim C8 as stated: for source widths 100, 100 and merged widths
  150, 210 the candidates of the claim are 0 and 10, with median 5; the code leaves the page
  whose difference is \<open>-50\<close> out and returns 10.
\<close>

theorem infer_gap_pt_counterexample:
  "median (spec_gap_candidates [(Finite 100, Finite 200), (Finite 100, Finite 200)]
             [(Finite 150, Finite 200), (Finite 210, Finite 200)]) = Inr (Finite 5) \<and>
   infer_gap_pt [(Finite 100, Finite 200), (Finite 100, Finite 200)]
     [(Finite 150, Finite 200), (Finite 210, Finite 200)] = Finite 10"
  by (simp add: spec_gap_candidates_def infer_gap_pt_def median_def py_sorted_def py_max_def
      fsub_def Let_def float_eval)

text \<open>
  Claim C8, amended. Over the pages both lists have, \<open>infer_gap_pt\<close> rounds the float
  \<open>result_width - (source_width + source_width)\<close> to two decimals, leaves out the pages where
  that is below \<open>-0.5\<close> (or NaN), rounds the others once more and raises the negative ones to
  zero, and returns the median of what is kept, rounded to two decimals, or 0.0 when nothing
  is kept (the mean is never used); every operation is the one of Python floats. For source
  widths 100, 100, 100 and merged widths 210, 210, 210 it returns 10.0.
\<close>

theorem infer_gap_pt_median_of_kept:
  "infer_gap_pt source_sizes result_sizes =
     (case median (kept_gap_candidates source_sizes result_sizes) of
        Inl e \<Rightarrow> Finite 0 | Inr m \<Rightarrow> py_round2 m) \<and>
   infer_gap_pt [(Finite 100, Finite 200), (Finite 100, Finite 200), (Finite 100, Finite 200)]
     [(Finite 210, Finite 200), (Finite 210, Finite 200), (Finite 210, Finite 200)] = Finite 10"
  using infer_gap_pt_kept [of source_sizes result_sizes] infer_gap_example by (simp only: simp_thms)

text \<open>
  Counterexample to claim C9 as stated: a candidate that neither PyMuPDF nor \<open>PyPDF2\<close> can
  read (both raise inside the page-count check) and that no earlier rule matches is
  excluded with \<open>page_count_failed\<close>.
\<close>

theorem page_count_exception_counterexample:
  "fitz_open (pdf_files unreadable_env) (path_str smith_path)
     = Inl (RuntimeError (ustr ''cannot open file'')) \<and>
   pypdf2_pages unreadable_env = Inl (ValueError (ustr ''EOF marker not found'')) \<and>
   should_exclude_from_processing all_on_config ascii_db unreadable_env smith_path [] []
     = (Inr (Some PageCountFailed), [1, 2, 3, 4, 5, 6, 7, 8, 9])"
  using unreadable_candidate_chain by (simp add: fitz_open_def unreadable_env_def)

text \<open>
  Claim C9, amended. An exception inside the metadata-status check makes rule 4 not match:
  whether PyMuPDF cannot open the candidate, \<open>metadata.get\<close> raises because the JSON text
  is not an object, or the attachment is no JSON text, the check answers \<open>False\<close> and the
  chain decides as with the rule switched off. An exception of the language-labelling
  collaborator makes rule 12 not match, likewise. In the page-count check an exception of
  PyMuPDF hands over to \<open>PyPDF2\<close>, whose count is used; when both raise there is no page
  count, and then the chain never returns non-exclusion: once it reaches rule 9 it excludes
  the document with \<open>page_count_failed\<close>.
\<close>

theorem check_exceptions_in_chain:
  "(fitz_open (pdf_files env) (path_str p) = Inl e \<longrightarrow>
      check_translation_metadata_status (pdf_files env) (path_str p) = (False, MetadataCheckFailed e) \<and>
      fst (should_exclude_from_processing cfg db env p kws fc)
        = fst (should_exclude_from_processing (cfg\<lparr>skip_translated_by_metadata := False\<rparr>)
                 db env p kws fc)) \<and>
   (fitz_open (pdf_files env) (path_str p) = Inr doc \<and>
    map_of (embfiles doc) meta_name = Some (JsonText j) \<and>
    json_get j (ustr ''pdf2zh.status'') (JStr []) = Inl e \<longrightarrow>
      check_translation_metadata_status (pdf_files env) (path_str p) = (False, MetadataCheckFailed e) \<and>
      fst (should_exclude_from_processing cfg db env p kws fc)
        = fst (should_exclude_from_processing (cfg\<lparr>skip_translated_by_metadata := False\<rparr>)
                 db env p kws fc)) \<and>
   (fitz_open (pdf_files env) (path_str p) = Inr doc \<and>
    map_of (embfiles doc) meta_name = Some (OtherBytes b) \<and> b \<noteq> [] \<longrightarrow>
      check_translation_metadata_status (pdf_files env) (path_str p) = (False, MetadataParseError) \<and>
      fst (should_exclude_from_processing cfg db env p kws fc)
        = fst (should_exclude_from_processing (cfg\<lparr>skip_translated_by_metadata := False\<rparr>)
                 db env p kws fc)) \<and>
   (vlm_detect env = Inl e' \<longrightarrow>
      \<not> fst (detect_chinese_content_via_vlm cfg env) \<and>
      fst (should_exclude_from_processing cfg db env p kws fc)
        = fst (should_exclude_from_processing (cfg\<lparr>skip_chinese_pdf_vlm := False\<rparr>)
                 db env p kws fc)) \<and>
   (fitz_open (pdf_files env) (path_str p) = Inl e \<and> pypdf2_pages env = Inr n \<longrightarrow>
      get_page_count env p = Some (int n)) \<and>
   (fitz_open (pdf_files env) (path_str p) = Inl e \<and> pypdf2_pages env = Inl e'' \<longrightarrow>
      get_page_count env p = None \<and>
      fst (should_exclude_from_processing cfg db env p kws fc) \<noteq> Inr None \<and>
      (9 \<in> set (snd (should_exclude_from_processing cfg db env p kws fc)) \<longrightarrow>
         fst (should_exclude_from_processing cfg db env p kws fc) = Inr (Some PageCountFailed)))"
proof -
  let ?off = "fst (should_exclude_from_processing cfg db env p kws fc)
        = fst (should_exclude_from_processing (cfg\<lparr>skip_translated_by_metadata := False\<rparr>)
                 db env p kws fc)"
  have off: "check_translation_metadata_status (pdf_files env) (path_str p) = (False, i) \<Longrightarrow> ?off" for i
    using metadata_no_match_like_switch_off [of env p cfg db kws fc] by simp
  have a: "fitz_open (pdf_files env) (path_str p) = Inl e \<longrightarrow>
      check_translation_metadata_status (pdf_files env) (path_str p) = (False, MetadataCheckFailed e) \<and> ?off"
  proof
    assume "fitz_open (pdf_files env) (path_str p) = Inl e"
    then have c: "check_translation_metadata_status (pdf_files env) (path_str p)
        = (False, MetadataCheckFailed e)"
      by (rule metadata_open_exception)
    from c off [OF c] show "check_translation_metadata_status (pdf_files env) (path_str p)
        = (False, MetadataCheckFailed e) \<and> ?off" by (rule conjI)
  qed
  have a2: "fitz_open (pdf_files env) (path_str p) = Inr doc \<and>
      map_of (embfiles doc) meta_name = Some (JsonText j) \<and>
      json_get j (ustr ''pdf2zh.status'') (JStr []) = Inl e \<longrightarrow>
      check_translation_metadata_status (pdf_files env) (path_str p) = (False, MetadataCheckFailed e) \<and> ?off"
  proof
    assume h: "fitz_open (pdf_files env) (path_str p) = Inr doc \<and>
      map_of (embfiles doc) meta_name = Some (JsonText j) \<and>
      json_get j (ustr ''pdf2zh.status'') (JStr []) = Inl e"
    then have c: "check_translation_metadata_status (pdf_files env) (path_str p)
        = (False, MetadataCheckFailed e)"
      using metadata_get_exception [of "pdf_files env" "path_str p" doc j e] by (elim conjE)
    from c off [OF c] show "check_translation_metadata_status (pdf_files env) (path_str p)
        = (False, MetadataCheckFailed e) \<and> ?off" by (rule conjI)
  qed
  have a3: "fitz_open (pdf_files env) (path_str p) = Inr doc \<and>
      map_of (embfiles doc) meta_name = Some (OtherBytes b) \<and> b \<noteq> [] \<longrightarrow>
      check_translation_metadata_status (pdf_files env) (path_str p) = (False, MetadataParseError) \<and> ?off"
  proof
    assume h: "fitz_open (pdf_files env) (path_str p) = Inr doc \<and>
      map_of (embfiles doc) meta_name = Some (OtherBytes b) \<and> b \<noteq> []"
    then have c: "check_translation_metadata_status (pdf_files env) (path_str p)
        = (False, MetadataParseError)"
      using metadata_parse_exception [of "pdf_files env" "path_str p" doc b] by (elim conjE)
    from c off [OF c] show "check_translation_metadata_status (pdf_files env) (path_str p)
        = (False, MetadataParseError) \<and> ?off" by (rule conjI)
  qed
  have b: "vlm_detect env = Inl e' \<longrightarrow>
      \<not> fst (detect_chinese_content_via_vlm cfg env) \<and>
      fst (should_exclude_from_processing cfg db env p kws fc)
        = fst (should_exclude_from_processing (cfg\<lparr>skip_chinese_pdf_vlm := False\<rparr>)
                 db env p kws fc)"
    using vlm_exception_no_match [of env e' cfg]
      vlm_exception_like_switch_off [of env e' cfg db p kws fc]
    by (intro impI conjI)
  have c: "fitz_open (pdf_files env) (path_str p) = Inl e \<and> pypdf2_pages env = Inr n \<longrightarrow>
      get_page_count env p = Some (int n)"
    using page_count_fallback [of env p e n] by (intro impI) (elim conjE)
  have d: "fitz_open (pdf_files env) (path_str p) = Inl e \<and> pypdf2_pages env = Inl e'' \<longrightarrow>
      get_page_count env p = None \<and>
      fst (should_exclude_from_processing cfg db env p kws fc) \<noteq> Inr None \<and>
      (9 \<in> set (snd (should_exclude_from_processing cfg db env p kws fc)) \<longrightarrow>
         fst (should_exclude_from_processing cfg db env p kws fc) = Inr (Some PageCountFailed))"
  proof
    assume "fitz_open (pdf_files env) (path_str p) = Inl e \<and> pypdf2_pages env = Inl e''"
    then have n: "get_page_count env p = None"
      using page_count_both_fail [of env p e e''] by (elim conjE)
    from n no_page_count_excludes [OF n, of cfg db kws fc]
    show "get_page_count env p = None \<and>
      fst (should_exclude_from_processing cfg db env p kws fc) \<noteq> Inr None \<and>
      (9 \<in> set (snd (should_exclude_from_processing cfg db env p kws fc)) \<longrightarrow>
         fst (should_exclude_from_processing cfg db env p kws fc) = Inr (Some PageCountFailed))"
      by (intro conjI) (elim conjE, assumption)+
  qed
  show ?thesis
    by (intro conjI) (rule a, rule a2, rule a3, rule b, rule c, rule d)
qed

theorem check_exceptions_in_chain_witness:
  "fitz_open (pdf_files unreadable_env) (path_str smith_path)
     = Inl (RuntimeError (ustr ''cannot open file'')) \<and>
   vlm_detect unreadable_env = Inl (RuntimeError (ustr ''request failed'')) \<and>
   pypdf2_pages unreadable_env = Inl (ValueError (ustr ''EOF marker not found'')) \<and>
   check_translation_metadata_status (pdf_files unreadable_env) (path_str smith_path)
     = (False, MetadataCheckFailed (RuntimeError (ustr ''cannot open file''))) \<and>
   \<not> fst (detect_chinese_content_via_vlm all_on_config unreadable_env) \<and>
   get_page_count unreadable_env smith_path = None \<and>
   fst (should_exclude_from_processing all_on_config ascii_db unreadable_env smith_path [] [])
     \<noteq> Inr None \<and>
   fitz_open (pdf_files array_meta_env) (path_str smith_path) = Inr array_meta_doc \<and>
   map_of (embfiles array_meta_doc) meta_name = Some (JsonText (JArr [])) \<and>
   json_get (JArr []) (ustr ''pdf2zh.status'') (JStr [])
     = Inl (AttributeError (ustr ''object has no attribute get'')) \<and>
   check_translation_metadata_status (pdf_files array_meta_env) (path_str smith_path)
     = (False, MetadataCheckFailed (AttributeError (ustr ''object has no attribute get''))) \<and>
   fitz_open (pdf_files garbled_meta_env) (path_str smith_path) = Inr garbled_meta_doc \<and>
   map_of (embfiles garbled_meta_doc) meta_name = Some (OtherBytes [255, 254]) \<and>
   check_translation_metadata_status (pdf_files garbled_meta_env) (path_str smith_path)
     = (False, MetadataParseError) \<and>
   fitz_open (pdf_files pypdf2_only_env) (path_str smith_path)
     = Inl (RuntimeError (ustr ''cannot open file'')) \<and>
   pypdf2_pages pypdf2_only_env = Inr 1 \<and>
   get_page_count pypdf2_only_env smith_path = Some 1"
proof -
  have a: "fitz_open (pdf_files unreadable_env) (path_str smith_path)
     = Inl (RuntimeError (ustr ''cannot open file''))"
    by (simp add: fitz_open_def unreadable_env_def)
  have b: "vlm_detect unreadable_env = Inl (RuntimeError (ustr ''request failed''))"
    by (simp add: unreadable_env_def)
  have c: "pypdf2_pages unreadable_env = Inl (ValueError (ustr ''EOF marker not found''))"
    by (simp add: unreadable_env_def)
  note t = check_exceptions_in_chain [of unreadable_env smith_path
      "RuntimeError (ustr ''cannot open file'')" all_on_config ascii_db "[]" "[]"
      array_meta_doc JNull "[]"
      "RuntimeError (ustr ''request failed'')" 0 "ValueError (ustr ''EOF marker not found'')"]
  from t [THEN conjunct1] a
  have r1: "check_translation_metadata_status (pdf_files unreadable_env) (path_str smith_path)
     = (False, MetadataCheckFailed (RuntimeError (ustr ''cannot open file'')))"
    by (elim impE conjE)
  from t [THEN conjunct2, THEN conjunct2, THEN conjunct2, THEN conjunct1] b
  have r2: "\<not> fst (detect_chinese_content_via_vlm all_on_config unreadable_env)"
    by (elim impE conjE)
  note x = mp [OF t [THEN conjunct2, THEN conjunct2, THEN conjunct2, THEN conjunct2, THEN conjunct2]
      conjI [OF a c]]
  have r3: "get_page_count unreadable_env smith_path = None"
    by (rule x [THEN conjunct1])
  have r4: "fst (should_exclude_from_processing all_on_config ascii_db unreadable_env smith_path [] [])
     \<noteq> Inr None"
    by (rule x [THEN conjunct2, THEN conjunct1])
  have a1: "fitz_open (pdf_files array_meta_env) (path_str smith_path) = Inr array_meta_doc"
    by (simp add: fitz_open_def array_meta_env_def)
  have a2: "map_of (embfiles array_meta_doc) meta_name = Some (JsonText (JArr []))"
    by (simp add: array_meta_doc_def)
  have a3: "json_get (JArr []) (ustr ''pdf2zh.status'') (JStr [])
     = Inl (AttributeError (ustr ''object has no attribute get''))"
    by (simp add: json_get_def)
  note u = check_exceptions_in_chain [of array_meta_env smith_path
      "AttributeError (ustr ''object has no attribute get'')" all_on_config ascii_db "[]" "[]"
      array_meta_doc "JArr []" "[]"
      "RuntimeError (ustr ''request failed'')" 0 "ValueError (ustr ''EOF marker not found'')"]
  have r5: "check_translation_metadata_status (pdf_files array_meta_env) (path_str smith_path)
     = (False, MetadataCheckFailed (AttributeError (ustr ''object has no attribute get'')))"
    by (rule mp [OF u [THEN conjunct2, THEN conjunct1] conjI [OF a1 conjI [OF a2 a3]], THEN conjunct1])
  have g1: "fitz_open (pdf_files garbled_meta_env) (path_str smith_path) = Inr garbled_meta_doc"
    by (simp add: fitz_open_def garbled_meta_env_def)
  have g2: "map_of (embfiles garbled_meta_doc) meta_name = Some (OtherBytes [255, 254])"
    by (simp add: garbled_meta_doc_def)
  have g3: "[255, 254] \<noteq> ([] :: nat list)" by simp
  note v = check_exceptions_in_chain [of garbled_meta_env smith_path
      "RuntimeError (ustr ''cannot open file'')" all_on_config ascii_db "[]" "[]"
      garbled_meta_doc JNull "[255, 254]"
      "RuntimeError (ustr ''request failed'')" 0 "ValueError (ustr ''EOF marker not found'')"]
  have r6: "check_translation_metadata_status (pdf_files garbled_meta_env) (path_str smith_path)
     = (False, MetadataParseError)"
    by (rule mp [OF v [THEN conjunct2, THEN conjunct2, THEN conjunct1]
          conjI [OF g1 conjI [OF g2 g3]], THEN conjunct1])
  have p1: "fitz_open (pdf_files pypdf2_only_env) (path_str smith_path)
     = Inl (RuntimeError (ustr ''cannot open file''))"
    by (simp add: fitz_open_def pypdf2_only_env_def unreadable_env_def)
  have p2: "pypdf2_pages pypdf2_only_env = Inr 1"
    by (simp add: pypdf2_only_env_def)
  note w = check_exceptions_in_chain [of pypdf2_only_env smith_path
      "RuntimeError (ustr ''cannot open file'')" all_on_config ascii_db "[]" "[]"
      array_meta_doc JNull "[]"
      "RuntimeError (ustr ''request failed'')" 1 "ValueError (ustr ''EOF marker not found'')"]
  have r7: "get_page_count pypdf2_only_env smith_path = Some 1"
    using mp [OF w [THEN conjunct2, THEN conjunct2, THEN conjunct2, THEN conjunct2, THEN conjunct1]
        conjI [OF p1 p2]] by simp
  show ?thesis
    by (intro conjI) (rule a, rule b, rule c, rule r1, rule r2, rule r3, rule r4,
        rule a1, rule a2, rule a3, rule r5, rule g1, rule g2, rule r6, rule p1, rule p2, rule r7)
qed

text \<open>
  Claim C10 (the code departs from it in the caller). When the operating system refuses
  every rename, \<open>_atomic_replace_with_retry\<close> returns \<open>False\<close> after ten attempts, having
  slept 0.1, 0.2, ..., 25.6 seconds between them, and changes no file. The caller in the
  batch translator never gets that far: it raises \<open>NameError\<close> on \<open>overwrite_path\<close> before
  the merged document is saved, so neither the destination nor the sidecar receives it.
\<close>

theorem replace_exhausted_and_caller_name_error:
  "atomic_replace_with_retry (always_denied (path_str smith_path)) (ustr ''docs/tmp.pdf'')
      (path_str smith_path) 10 (1 / 10) smith_world
     = (Inr False,
        smith_world\<lparr>slept := [1 / 10, 1 / 5, 2 / 5, 4 / 5, 8 / 5, 16 / 5, 32 / 5, 64 / 5, 128 / 5]\<rparr>) \<and>
   merge_pdfs_preserve_annotations (ustr ''0a1b2c3d'') always_denied (\<lambda>attempt. False)
      smith_world smith_path smith_mono_path smith_path 0
     = (Inl (NameError (ustr ''name overwrite_path is not defined'')), smith_world) \<and>
   files smith_world (ustr ''docs/Smith-2023-Title.pdf2zh-merged.pdf'') = None"
proof -
  have m: "merge_pdfs_preserve_annotations (ustr ''0a1b2c3d'') always_denied (\<lambda>attempt. False)
      smith_world smith_path smith_mono_path smith_path 0
     = (Inl (NameError (ustr ''name overwrite_path is not defined'')), smith_world)"
    by (simp add: merge_pdfs_preserve_annotations_def fitz_open_def smith_world_def smith_files_def
        smith_path_def smith_mono_path_def path_str_def ustr_def
        annotated_doc_def translated_doc_def plain_page_def insert_pdf_into_new_def merge_page_def
        page_rect_def rect_width_def rect_height_def Rect_def set_all_page_boxes_def try_set_def
        set_mediabox_def set_cropbox_def set_trimbox_def set_bleedbox_def rect_nonempty_def
        rect_inside_def show_pdf_page_def lookup_name_def merge_pdfs_locals_def
        pdf_batch_translator_names_def Let_def)
  have s: "files smith_world (ustr ''docs/Smith-2023-Title.pdf2zh-merged.pdf'') = None"
    by (simp add: smith_world_def smith_files_def smith_path_def smith_mono_path_def path_str_def
        ustr_def)
  from replace_always_denied [of "path_str smith_path" "ustr ''docs/tmp.pdf''"] m s
  show ?thesis by (simp only: simp_thms)
qed

end
